(* ===== verification/Flowix_Prelude.thy ===== *)
theory Flowix_Prelude
  imports Main "HOL-Library.Word"
begin

text \<open>
  Shared ground of the development: the parts of the Go language and of its standard
  library that the services use (package \<open>strings\<close>, \<open>strconv\<close> and the decoding rules of
  \<open>encoding/json\<close>), the error values, and generic lemmas on lists and maps.

  A Go string is a byte sequence, so it is a \<open>string\<close> (one \<open>char\<close> per byte). White space
  and letter case are those of ASCII: \<open>strings.TrimSpace\<close>, \<open>strings.ToLower\<close> and
  \<open>strings.EqualFold\<close> agree with the definitions below on ASCII input. \<open>int\<close> and \<open>int64\<close>
  values that are only read from text or compared are \<open>int\<close> with the range check of
  \<open>strconv\<close> written out; arithmetic that can overflow wraps around (\<open>wrap64\<close>).
\<close>

named_theorems go_str "equations of the string functions of the Go library"
named_theorems go_json "equations of the JSON struct decoding"

subsection \<open>Errors\<close>

text \<open>
  An \<open>error\<close> value: its text (what \<open>err.Error()\<close> returns), and for the two error types that
  the code tells apart with \<open>errors.As\<close> what they carry: the limit of an \<open>*http.MaxBytesError\<close>
  and the status of the gateway's own \<open>*statusError\<close>.
\<close>

datatype go_error =
    Err string
  | MaxBytesError int
  | StatusError nat

subsection \<open>Package strings\<close>

definition HasPrefix :: "string \<Rightarrow> string \<Rightarrow> bool" where
  [go_str]: "HasPrefix s p = (take (length p) s = p)"

definition TrimPrefix :: "string \<Rightarrow> string \<Rightarrow> string" where
  [go_str]: "TrimPrefix s p = (if HasPrefix s p then drop (length p) s else s)"

definition HasSuffix :: "string \<Rightarrow> string \<Rightarrow> bool" where
  [go_str]: "HasSuffix s p = HasPrefix (rev s) (rev p)"

definition TrimSuffix :: "string \<Rightarrow> string \<Rightarrow> string" where
  [go_str]: "TrimSuffix s p = (if HasSuffix s p then take (length s - length p) s else s)"

fun Contains :: "string \<Rightarrow> string \<Rightarrow> bool" where
  "Contains [] sub = (sub = [])"
| "Contains (c # s) sub = (HasPrefix (c # s) sub \<or> Contains s sub)"

text \<open>\<open>strings.Split(s, sep)\<close> for a separator of one byte; never the empty list.\<close>

fun Split :: "char \<Rightarrow> string \<Rightarrow> string list" where
  "Split sep [] = [[]]"
| "Split sep (c # s) =
     (if c = sep then [] # Split sep s
      else (case Split sep s of [] \<Rightarrow> [[c]] | p # ps \<Rightarrow> (c # p) # ps))"

definition is_space :: "char \<Rightarrow> bool" where
  "is_space c \<longleftrightarrow> c = CHR '' '' \<or> (9 \<le> (of_char c :: nat) \<and> (of_char c :: nat) \<le> 13)"

definition TrimSpace :: "string \<Rightarrow> string" where
  "TrimSpace s = rev (dropWhile is_space (rev (dropWhile is_space s)))"

definition lower_char :: "char \<Rightarrow> char" where
  "lower_char c = (let n = (of_char c :: nat) in if 65 \<le> n \<and> n \<le> 90 then char_of (n + 32) else c)"

definition upper_char :: "char \<Rightarrow> char" where
  "upper_char c = (let n = (of_char c :: nat) in if 97 \<le> n \<and> n \<le> 122 then char_of (n - 32) else c)"

definition ToLower :: "string \<Rightarrow> string" where
  "ToLower s = map lower_char s"

definition EqualFold :: "string \<Rightarrow> string \<Rightarrow> bool" where
  "EqualFold s t = (ToLower s = ToLower t)"

text \<open>\<open>strings.Index(s, c)\<close> for one byte; \<open>None\<close> stands for \<open>-1\<close>.\<close>

fun IndexByte :: "string \<Rightarrow> char \<Rightarrow> nat option" where
  "IndexByte [] c = None"
| "IndexByte (d # s) c = (if d = c then Some 0 else map_option Suc (IndexByte s c))"

lemma HasPrefix_append [simp]: "HasPrefix (p @ s) p"
  by (simp add: HasPrefix_def)

lemma TrimPrefix_append [simp]: "TrimPrefix (p @ s) p = s"
  by (simp add: TrimPrefix_def)

lemma HasPrefix_iff: "HasPrefix s p \<longleftrightarrow> (\<exists>t. s = p @ t)"
  by (metis HasPrefix_append HasPrefix_def append_take_drop_id)

lemma Split_nonempty [simp]: "Split sep s \<noteq> []"
  by (induction s) (auto split: list.splits)

lemma Contains_append: "Contains (s @ sub @ t) sub"
proof (induction s)
  case Nil
  have "HasPrefix (sub @ t) sub" by simp
  then show ?case by (cases "sub @ t") auto
next
  case (Cons c s)
  then show ?case by simp
qed

lemma EqualFold_refl [simp]: "EqualFold s s"
  by (simp add: EqualFold_def)

subsection \<open>Package strconv\<close>

definition is_digit :: "char \<Rightarrow> bool" where
  "is_digit c \<longleftrightarrow> 48 \<le> (of_char c :: nat) \<and> (of_char c :: nat) \<le> 57"

definition digit_val :: "char \<Rightarrow> int" where
  "digit_val c = int (of_char c) - 48"

definition digits_val :: "string \<Rightarrow> int" where
  "digits_val s = foldl (\<lambda>a c. 10 * a + digit_val c) 0 s"

definition MaxInt64 :: int where "MaxInt64 = 9223372036854775807"

definition MinInt64 :: int where "MinInt64 = -9223372036854775808"

text \<open>
  \<open>strconv.ParseInt(s, 10, 64)\<close> (and \<open>strconv.Atoi\<close>, an \<open>int\<close> having 64 bits on the
  platforms of the services): the value and whether the error is nil. A syntax error gives 0,
  a range error the nearest bound, each with an error.
\<close>

definition ParseInt :: "string \<Rightarrow> int \<times> bool" where
  "ParseInt s =
     (let neg = (case s of c # _ \<Rightarrow> c = CHR ''-'' | [] \<Rightarrow> False);
          body = (case s of c # t \<Rightarrow> if c = CHR ''-'' \<or> c = CHR ''+'' then t else s | [] \<Rightarrow> s)
      in if body = [] \<or> \<not> list_all is_digit body then (0, False)
         else let v = (if neg then - digits_val body else digits_val body)
              in if v < MinInt64 then (MinInt64, False)
                 else if MaxInt64 < v then (MaxInt64, False) else (v, True))"

text \<open>Arithmetic on \<open>int64\<close> wraps around.\<close>

definition wrap64 :: "int \<Rightarrow> int" where
  "wrap64 n = (n + 9223372036854775808) mod 18446744073709551616 - 9223372036854775808"

lemma wrap64_id: "MinInt64 \<le> n \<Longrightarrow> n \<le> MaxInt64 \<Longrightarrow> wrap64 n = n"
  by (simp add: wrap64_def MinInt64_def MaxInt64_def)

abbreviation Atoi :: "string \<Rightarrow> int \<times> bool" where
  "Atoi \<equiv> ParseInt"

text \<open>\<open>strconv.Itoa\<close>, \<open>strconv.FormatInt(_, 10)\<close> and the verb \<open>%d\<close>.\<close>

definition digit_char :: "int \<Rightarrow> char" where
  "digit_char d = char_of (nat (d + 48))"

function dec_digits :: "int \<Rightarrow> string" where
  "dec_digits n = (if n < 10 then [digit_char n] else dec_digits (n div 10) @ [digit_char (n mod 10)])"
  by pat_completeness auto
termination
  by (relation "measure nat") auto

declare dec_digits.simps [simp del]

definition Itoa :: "int \<Rightarrow> string" where
  "Itoa n = (if n < 0 then CHR ''-'' # dec_digits (- n) else dec_digits n)"

text \<open>The text of an error.\<close>

fun Error :: "go_error \<Rightarrow> string" where
  "Error (Err s) = s"
| "Error (MaxBytesError _) = ''http: request body too large''"
| "Error (StatusError n) = ''metadata status '' @ Itoa (int n)"

text \<open>\<open>fmt.Errorf("...: %w", err)\<close>: the wrapped error keeps its type for \<open>errors.As\<close> only;
  the callers that wrap never unwrap, so the text is what remains.\<close>

definition wrapf :: "string \<Rightarrow> go_error \<Rightarrow> go_error" where
  "wrapf ctx e = Err (ctx @ '': '' @ Error e)"

lemma digit_char_val:
  assumes "0 \<le> d" "d < 10"
  shows "digit_val (digit_char d) = d" "is_digit (digit_char d)"
  using assms by (auto simp: digit_val_def digit_char_def is_digit_def)

lemma digits_val_append: "digits_val (s @ [c]) = 10 * digits_val s + digit_val c"
  by (simp add: digits_val_def)

lemma dec_digits_nonempty [simp]: "dec_digits n \<noteq> []"
  by (subst dec_digits.simps) simp

lemma dec_digits_correct:
  "0 \<le> n \<Longrightarrow> digits_val (dec_digits n) = n \<and> list_all is_digit (dec_digits n)"
proof (induction n rule: dec_digits.induct)
  case (1 n)
  show ?case
  proof (cases "n < 10")
    case True
    with "1.prems" show ?thesis
      by (subst (1 2) dec_digits.simps) (simp add: digit_char_val digits_val_def)
  next
    case False
    with "1.IH" "1.prems"
    have "digits_val (dec_digits (n div 10)) = n div 10" "list_all is_digit (dec_digits (n div 10))"
      by simp_all
    with False show ?thesis
      by (subst (1 2) dec_digits.simps) (simp add: digits_val_append digit_char_val)
  qed
qed

lemma dec_digits_hd: "0 \<le> n \<Longrightarrow> is_digit (hd (dec_digits n))"
  using dec_digits_correct [of n] by (cases "dec_digits n") auto

lemma digit_not_sign: "is_digit c \<Longrightarrow> c \<noteq> CHR ''-'' \<and> c \<noteq> CHR ''+''"
  by (auto simp: is_digit_def)

text \<open>The round trip of \<open>strconv\<close>, for the non-negative values that the services print.\<close>

lemma ParseInt_Itoa:
  assumes "0 \<le> n" "n \<le> MaxInt64"
  shows "ParseInt (Itoa n) = (n, True)"
proof -
  obtain c s where cs: "dec_digits n = c # s"
    by (cases "dec_digits n") auto
  with assms(1) have "is_digit c"
    using dec_digits_hd [of n] by simp
  then have "c \<noteq> CHR ''-''" "c \<noteq> CHR ''+''"
    by (simp_all add: digit_not_sign)
  with cs assms dec_digits_correct [of n] show ?thesis
    by (simp add: ParseInt_def Itoa_def Let_def MinInt64_def)
qed

subsection \<open>JSON values and struct decoding\<close>

text \<open>
  A JSON value as \<open>encoding/json\<close> reads it; a number keeps its text, as the decoder parses
  it per target type. An object keeps its members in the order of the text.
\<close>

datatype json =
    JNull
  | JBool bool
  | JNum string
  | JStr string
  | JArr "json list"
  | JObj "(string \<times> json) list"

text \<open>
  Decoding into a struct goes through the members in order; a key selects the field whose
  name it equals, else one it equals up to case. For the structs here no two field names are
  equal up to case, so the last member that matches a field up to case determines it. A value
  of the wrong type makes \<open>Decode\<close> return an error, a \<open>null\<close> leaves the field as it was.
\<close>

definition jmembers :: "json \<Rightarrow> (string \<times> json) list option" where
  "jmembers j = (case j of JObj ms \<Rightarrow> Some ms | JNull \<Rightarrow> Some [] | _ \<Rightarrow> None)"

definition field_values :: "string \<Rightarrow> (string \<times> json) list \<Rightarrow> json list" where
  "field_values f ms = map snd (filter (\<lambda>(k, _). EqualFold k f) ms)"

text \<open>A \<open>string\<close> field (\<open>None\<close>: an error), starting from its zero value.\<close>

fun fold_string :: "string \<Rightarrow> json list \<Rightarrow> string option" where
  "fold_string acc [] = Some acc"
| "fold_string acc (JNull # vs) = fold_string acc vs"
| "fold_string acc (JStr s # vs) = fold_string s vs"
| "fold_string acc (_ # vs) = None"

definition string_field :: "string \<Rightarrow> (string \<times> json) list \<Rightarrow> string option" where
  "string_field f ms = fold_string [] (field_values f ms)"

text \<open>A \<open>*string\<close> field: \<open>null\<close> resets the pointer to nil.\<close>

fun fold_string_ptr :: "string option \<Rightarrow> json list \<Rightarrow> string option option" where
  "fold_string_ptr acc [] = Some acc"
| "fold_string_ptr acc (JNull # vs) = fold_string_ptr None vs"
| "fold_string_ptr acc (JStr s # vs) = fold_string_ptr (Some s) vs"
| "fold_string_ptr acc (_ # vs) = None"

definition string_ptr_field :: "string \<Rightarrow> (string \<times> json) list \<Rightarrow> string option option" where
  "string_ptr_field f ms = fold_string_ptr None (field_values f ms)"

text \<open>An \<open>int\<close> field: the number's text has to be an integer of 64 bits.\<close>

fun fold_int :: "int \<Rightarrow> json list \<Rightarrow> int option" where
  "fold_int acc [] = Some acc"
| "fold_int acc (JNull # vs) = fold_int acc vs"
| "fold_int acc (JNum s # vs) = (if snd (ParseInt s) then fold_int (fst (ParseInt s)) vs else None)"
| "fold_int acc (_ # vs) = None"

definition int_field :: "string \<Rightarrow> (string \<times> json) list \<Rightarrow> int option" where
  "int_field f ms = fold_int 0 (field_values f ms)"

subsection \<open>Go maps\<close>

text \<open>
  A Go \<open>map\<close> whose length the code reads: an association list with distinct keys. \<open>gmap_set\<close>
  is \<open>m[k] = v\<close>, \<open>gmap_del\<close> is \<open>delete(m, k)\<close>, \<open>map_of m k\<close> the comma-ok lookup.
\<close>

definition gmap_del :: "'k \<Rightarrow> ('k \<times> 'v) list \<Rightarrow> ('k \<times> 'v) list" where
  "gmap_del k m = filter (\<lambda>p. fst p \<noteq> k) m"

definition gmap_set :: "'k \<Rightarrow> 'v \<Rightarrow> ('k \<times> 'v) list \<Rightarrow> ('k \<times> 'v) list" where
  "gmap_set k v m = (k, v) # gmap_del k m"

subsection \<open>Lists and maps\<close>

lemma map_of_filter_neq:
  "map_of (filter (\<lambda>p. fst p \<noteq> k) ps) = (map_of ps)(k := None)"
  by (induction ps) auto

lemma map_of_gmap_del [simp]: "map_of (gmap_del k m) = (map_of m)(k := None)"
  by (simp add: gmap_del_def map_of_filter_neq)

lemma map_of_gmap_set [simp]: "map_of (gmap_set k v m) = (map_of m)(k \<mapsto> v)"
  by (simp add: gmap_set_def)

lemma keys_gmap_del [simp]: "fst ` set (gmap_del k m) = fst ` set m - {k}"
  by (auto simp: gmap_del_def)

lemma keys_gmap_set [simp]: "fst ` set (gmap_set k v m) = insert k (fst ` set m)"
  by (auto simp: gmap_set_def)

lemma distinct_gmap_del [simp]: "distinct (map fst m) \<Longrightarrow> distinct (map fst (gmap_del k m))"
  by (simp add: gmap_del_def distinct_map_filter)

lemma distinct_gmap_set [simp]: "distinct (map fst m) \<Longrightarrow> distinct (map fst (gmap_set k v m))"
  by (simp add: gmap_set_def)

lemma butlast_subset: "set (butlast xs) \<subseteq> set xs"
  by (auto dest: in_set_butlastD)

end
