(* ===== verification/Flowix_Http.thy ===== *)
theory Flowix_Http
  imports Flowix_Prelude
begin

text \<open>
  The HTTP vocabulary of the Go services: headers with canonical names, requests and
  responses of \<open>net/http\<close>, \<open>http.Error\<close>, \<open>net.SplitHostPort\<close>, and the shared JSON
  response helper of \<open>pkg/httputil/json.go\<close>. A handler takes the request, the response
  headers set so far (\<open>w.Header()\<close>) and a world \<open>'w\<close> it may change, and returns the
  response and the new world; a middleware maps handlers to handlers.
\<close>

named_theorems http_simps "reading and writing headers"

subsection \<open>Headers\<close>

text \<open>\<open>textproto.CanonicalMIMEHeaderKey\<close>, which \<open>Get\<close>, \<open>Set\<close> and \<open>Del\<close> apply to their key.\<close>

fun canon_from :: "bool \<Rightarrow> string \<Rightarrow> string" where
  "canon_from up [] = []"
| "canon_from up (c # s) =
     (if up then upper_char c else lower_char c) # canon_from (c = CHR ''-'') s"

definition canon :: "string \<Rightarrow> string" where
  "canon k = canon_from True k"

type_synonym header = "string \<Rightarrow> string list"

definition no_header :: header where
  "no_header = (\<lambda>_. [])"

definition hget :: "header \<Rightarrow> string \<Rightarrow> string" where
  "hget h k = (case h (canon k) of [] \<Rightarrow> [] | v # _ \<Rightarrow> v)"

definition hset :: "header \<Rightarrow> string \<Rightarrow> string \<Rightarrow> header" where
  "hset h k v = h(canon k := [v])"

definition hdel :: "header \<Rightarrow> string \<Rightarrow> header" where
  "hdel h k = h(canon k := [])"

lemma hget_hset [http_simps, simp]:
  "hget (hset h k v) k' = (if canon k = canon k' then v else hget h k')"
  by (simp add: hget_def hset_def)

lemma hget_hdel [http_simps, simp]:
  "hget (hdel h k) k' = (if canon k = canon k' then [] else hget h k')"
  by (simp add: hget_def hdel_def)

lemma hget_no_header [http_simps, simp]: "hget no_header k = []"
  by (simp add: hget_def no_header_def)

text \<open>The canonical forms of the header names that the services use.\<close>

lemma canon_literals [simp]:
  "canon ''Authorization'' = ''Authorization''"
  "canon ''X-User-ID'' = ''X-User-Id''"
  "canon ''X-Real-IP'' = ''X-Real-Ip''"
  "canon ''X-Forwarded-For'' = ''X-Forwarded-For''"
  "canon ''X-Forwarded-Host'' = ''X-Forwarded-Host''"
  "canon ''X-Forwarded-Proto'' = ''X-Forwarded-Proto''"
  "canon ''X-Request-ID'' = ''X-Request-Id''"
  "canon ''X-Request-Id'' = ''X-Request-Id''"
  "canon ''X-Correlation-ID'' = ''X-Correlation-Id''"
  "canon ''X-Internal-Token'' = ''X-Internal-Token''"
  "canon ''X-HLS-Token'' = ''X-Hls-Token''"
  "canon ''Content-Type'' = ''Content-Type''"
  "canon ''Content-Length'' = ''Content-Length''"
  "canon ''Content-Range'' = ''Content-Range''"
  "canon ''X-Content-Type-Options'' = ''X-Content-Type-Options''"
  "canon ''Cache-Control'' = ''Cache-Control''"
  "canon ''CDN-Cache-Control'' = ''Cdn-Cache-Control''"
  "canon ''Surrogate-Control'' = ''Surrogate-Control''"
  "canon ''Retry-After'' = ''Retry-After''"
  "canon ''Range'' = ''Range''"
  "canon ''Origin'' = ''Origin''"
  "canon ''Vary'' = ''Vary''"
  by code_simp+

lemma canon_cors_literals [simp]:
  "canon ''Access-Control-Allow-Origin'' = ''Access-Control-Allow-Origin''"
  "canon ''Access-Control-Allow-Credentials'' = ''Access-Control-Allow-Credentials''"
  "canon ''Access-Control-Allow-Methods'' = ''Access-Control-Allow-Methods''"
  "canon ''Access-Control-Allow-Headers'' = ''Access-Control-Allow-Headers''"
  "canon ''Access-Control-Expose-Headers'' = ''Access-Control-Expose-Headers''"
  "canon ''Access-Control-Max-Age'' = ''Access-Control-Max-Age''"
  by code_simp+

subsection \<open>Requests and responses\<close>

text \<open>
  The parts of \<open>*http.Request\<close> that the code reads. \<open>URLQuery\<close> is the parsed query,
  \<open>CtxUser\<close> the context value under \<open>UserIDKey\<close>, \<open>UrlId\<close> is \<open>chi.URLParam(r, "id")\<close>,
  \<open>BodyJSON\<close> the first JSON value of the body (\<open>None\<close> when the body does not start with
  one), \<open>BodyErr\<close> the error of the connection after the bytes \<open>BodyText\<close> (none: the end of the
  body), \<open>FormOf n\<close> what \<open>ParseMultipartForm\<close> finds in the body when it is cut off after \<open>n\<close>
  bytes, and \<open>Getenv\<close> the process environment while the request is served.
\<close>

record form_file =
  f_name :: string
  f_ctype :: string
  f_size :: int
  f_data :: string

record mform =
  form_values :: "(string \<times> string) list"
  form_file_of :: "form_file option"

record request =
  Method :: string
  URLPath :: string
  URLQuery :: "(string \<times> string) list"
  ReqHeader :: header
  RemoteAddr :: string
  ReqHost :: string
  TLS :: bool
  CtxUser :: "string option"
  UrlId :: string
  BodyText :: string
  BodyJSON :: "json option"
  BodyErr :: "go_error option"
  FormOf :: "int \<Rightarrow> go_error + mform"
  Getenv :: "string \<Rightarrow> string"

text \<open>A \<open>GET /\<close> with no headers, no identity and an empty environment; samples update it.\<close>

definition blank_request :: request where
  "blank_request =
     \<lparr>Method = ''GET'', URLPath = ''/'', URLQuery = [], ReqHeader = no_header, RemoteAddr = [],
      ReqHost = [], TLS = False, CtxUser = None, UrlId = [], BodyText = [], BodyJSON = None,
      BodyErr = None, FormOf = (\<lambda>_. Inl (Err ''request Content-Type is not multipart/form-data'')),
      Getenv = (\<lambda>_. [])\<rparr>"

definition query_get :: "request \<Rightarrow> string \<Rightarrow> string" where
  "query_get r k = (case map_of (URLQuery r) k of None \<Rightarrow> [] | Some v \<Rightarrow> v)"

text \<open>
  Reading the body: \<open>io.ReadAll(http.MaxBytesReader(w, r.Body, bound))\<close>, and the same through an
  \<open>io.LimitReader\<close> of \<open>lim\<close> bytes, which stops before it sees what follows them.
\<close>

definition read_all :: "request \<Rightarrow> int \<Rightarrow> go_error + string" where
  "read_all r bound =
     (if bound < int (length (BodyText r)) then Inl (MaxBytesError bound)
      else (case BodyErr r of Some err \<Rightarrow> Inl err | None \<Rightarrow> Inr (BodyText r)))"

definition read_limited :: "request \<Rightarrow> int \<Rightarrow> int \<Rightarrow> go_error + string" where
  "read_limited r bound lim =
     (if lim \<le> 0 then Inr []
      else if bound < min lim (int (length (BodyText r))) then Inl (MaxBytesError bound)
      else if int (length (BodyText r)) < lim
      then (case BodyErr r of Some err \<Rightarrow> Inl err | None \<Rightarrow> Inr (BodyText r))
      else Inr (take (nat lim) (BodyText r)))"

text \<open>A response body: none, text, or a JSON value with the flag of the indented form.\<close>

datatype resp_body =
    NoBody
  | Text string
  | Json bool json

record response =
  Status :: nat
  RespHeader :: header
  RespBody :: resp_body

type_synonym 'w handler = "request \<Rightarrow> header \<Rightarrow> 'w \<Rightarrow> response \<times> 'w"

definition WriteHeader :: "header \<Rightarrow> nat \<Rightarrow> response" where
  "WriteHeader wh code = \<lparr>Status = code, RespHeader = wh, RespBody = NoBody\<rparr>"

text \<open>
  \<open>http.Error\<close> of \<open>net/http\<close>: it removes \<open>Content-Length\<close>, sets the content type to plain
  text whatever was set before, and writes the message with a line break.
\<close>

definition http_Error :: "header \<Rightarrow> string \<Rightarrow> nat \<Rightarrow> response" where
  "http_Error wh msg code =
     \<lparr>Status = code,
      RespHeader = hset (hset (hdel wh ''Content-Length'')
                    ''Content-Type'' ''text/plain; charset=utf-8'')
                    ''X-Content-Type-Options'' ''nosniff'',
      RespBody = Text (msg @ [CHR 0x0A])\<rparr>"

lemma http_Error_simps [simp]:
  "Status (http_Error wh msg code) = code"
  "RespBody (http_Error wh msg code) = Text (msg @ [CHR 0x0A])"
  "hget (RespHeader (http_Error wh msg code)) ''Content-Type'' = ''text/plain; charset=utf-8''"
  by (simp_all add: http_Error_def)

lemma WriteHeader_simps [simp]:
  "Status (WriteHeader wh code) = code"
  "RespBody (WriteHeader wh code) = NoBody"
  "RespHeader (WriteHeader wh code) = wh"
  by (simp_all add: WriteHeader_def)

subsection \<open>pkg/httputil: WriteJSON\<close>

text \<open>\<open>strconv.ParseBool\<close>; \<open>None\<close> is a syntax error.\<close>

definition ParseBool :: "string \<Rightarrow> bool option" where
  "ParseBool s =
     (if s \<in> {''1'', ''t'', ''T'', ''TRUE'', ''true'', ''True''} then Some True
      else if s \<in> {''0'', ''f'', ''F'', ''FALSE'', ''false'', ''False''} then Some False
      else None)"

definition shouldPretty :: "request \<Rightarrow> bool" where
  "shouldPretty r =
     (let v = query_get r ''pretty'' in
      if v \<noteq> [] then (case ParseBool v of Some b \<Rightarrow> b | None \<Rightarrow> True)
      else let e = Getenv r ''PRETTY_JSON'' in
        if e \<noteq> [] then (case ParseBool e of Some b \<Rightarrow> b | None \<Rightarrow> False) else False)"

definition WriteJSON :: "header \<Rightarrow> request \<Rightarrow> nat \<Rightarrow> json \<Rightarrow> response" where
  "WriteJSON wh r status v =
     \<lparr>Status = status,
      RespHeader = hset wh ''Content-Type'' ''application/json; charset=utf-8'',
      RespBody = Json (shouldPretty r) v\<rparr>"

lemma WriteJSON_simps [simp]:
  "Status (WriteJSON wh r status v) = status"
  "RespBody (WriteJSON wh r status v) = Json (shouldPretty r) v"
  "hget (RespHeader (WriteJSON wh r status v)) ''Content-Type'' = ''application/json; charset=utf-8''"
  by (simp_all add: WriteJSON_def)

text \<open>The error form of both \<open>handler/response.go\<close> files: a generic message, no detail.\<close>

definition writeError :: "header \<Rightarrow> request \<Rightarrow> nat \<Rightarrow> string \<Rightarrow> response" where
  "writeError wh r status msg = WriteJSON wh r status (JObj [(''error'', JStr msg)])"

lemma Status_writeError [simp]: "Status (writeError wh r status msg) = status"
  by (simp add: writeError_def)

lemma RespBody_writeError [simp]:
  "RespBody (writeError wh r status msg) = Json (shouldPretty r) (JObj [(''error'', JStr msg)])"
  by (simp add: writeError_def)

subsection \<open>Host and port\<close>

definition LastIndexByte :: "string \<Rightarrow> char \<Rightarrow> nat option" where
  "LastIndexByte s c = map_option (\<lambda>i. length s - 1 - i) (IndexByte (rev s) c)"

text \<open>\<open>net.SplitHostPort\<close>; \<open>None\<close> is an error.\<close>

definition SplitHostPort :: "string \<Rightarrow> (string \<times> string) option" where
  "SplitHostPort hp =
     (case LastIndexByte hp CHR '':'' of None \<Rightarrow> None
      | Some i \<Rightarrow>
        if hp ! 0 = CHR ''['' then
          (case IndexByte hp CHR '']'' of None \<Rightarrow> None
           | Some e \<Rightarrow>
             if e + 1 \<noteq> i then None
             else if CHR ''['' \<in> set (drop 1 hp) \<or> CHR '']'' \<in> set (drop (e + 1) hp) then None
             else Some (take (e - 1) (drop 1 hp), drop (i + 1) hp))
        else if CHR '':'' \<in> set (take i hp) then None
        else if CHR ''['' \<in> set hp \<or> CHR '']'' \<in> set hp then None
        else Some (take i hp, drop (i + 1) hp))"

definition JoinHostPort :: "string \<Rightarrow> string \<Rightarrow> string" where
  "JoinHostPort host port =
     (if CHR '':'' \<in> set host then ''['' @ host @ '']:'' @ port else host @ '':'' @ port)"

lemma IndexByte_append:
  "IndexByte (s @ c # t) c = Some (length s)" if "c \<notin> set s"
  using that by (induction s) auto

lemma LastIndexByte_append:
  assumes "c \<notin> set t"
  shows "LastIndexByte (s @ c # t) c = Some (length s)"
proof -
  have "IndexByte (rev (s @ c # t)) c = Some (length t)"
    using assms IndexByte_append [of c "rev t" "rev s"] by simp
  then show ?thesis by (simp add: LastIndexByte_def)
qed

text \<open>Joining a host and a port and splitting the result gives them back.\<close>

lemma SplitHostPort_JoinHostPort:
  assumes host: "CHR ''['' \<notin> set host" "CHR '']'' \<notin> set host"
    and port: "CHR '':'' \<notin> set port" "CHR ''['' \<notin> set port" "CHR '']'' \<notin> set port"
  shows "SplitHostPort (JoinHostPort host port) = Some (host, port)"
proof (cases "CHR '':'' \<in> set host")
  case True
  let ?hp = "''['' @ host @ '']:'' @ port"
  have i: "LastIndexByte ?hp CHR '':'' = Some (length host + 2)"
    using LastIndexByte_append [OF port(1), of "CHR ''['' # host @ '']''"] by simp
  have e: "IndexByte ?hp CHR '']'' = Some (length host + 1)"
    using IndexByte_append [of "CHR '']''" "CHR ''['' # host" "CHR '':'' # port"] host by simp
  show ?thesis
    using True host port i e by (simp add: JoinHostPort_def SplitHostPort_def)
next
  case False
  let ?hp = "host @ CHR '':'' # port"
  have i: "LastIndexByte ?hp CHR '':'' = Some (length host)"
    using LastIndexByte_append [OF port(1), of host] by simp
  have "?hp ! 0 \<noteq> CHR ''[''"
    using host by (cases host) auto
  then show ?thesis
    using False host port i by (simp add: JoinHostPort_def SplitHostPort_def)
qed

end
