(* ===== verification/Go_Net.thy ===== *)
theory Go_Net
  imports Flowix_Http
begin

text \<open>
  The address functions of Go's package \<open>net\<close> that the gateway's client-IP logic rests on:
  \<open>ParseIP\<close>, \<open>IP.String\<close>, \<open>ParseCIDR\<close> and \<open>IPNet.Contains\<close>. An address is the list of its
  eight 16-bit groups; an IPv4 address is its IPv4-mapped form, as in Go, where \<open>ParseIP\<close>
  always returns 16 bytes and \<open>To4\<close> tells the two apart. Main result: printing an address and
  parsing the text gives the address back.
\<close>

type_synonym ipaddr = "int list"

definition ip_ok :: "ipaddr \<Rightarrow> bool" where
  "ip_ok ip \<longleftrightarrow> length ip = 8 \<and> list_all (\<lambda>g. 0 \<le> g \<and> g < 65536) ip"

text \<open>\<open>ip.To4() != nil\<close>.\<close>

definition is4 :: "ipaddr \<Rightarrow> bool" where
  "is4 ip \<longleftrightarrow> take 6 ip = [0, 0, 0, 0, 0, 65535]"

definition ip_val :: "ipaddr \<Rightarrow> int" where
  "ip_val ip = foldl (\<lambda>a g. a * 65536 + g) 0 ip"

definition groups_of :: "int \<Rightarrow> ipaddr" where
  "groups_of v = map (\<lambda>i. (v div 65536 ^ i) mod 65536) [7, 6, 5, 4, 3, 2, 1, 0]"

subsection \<open>Text to address\<close>

definition octet :: "string \<Rightarrow> int option" where
  "octet s =
     (if s = [] \<or> \<not> list_all is_digit s then None
      else if 1 < length s \<and> s ! 0 = CHR ''0'' then None
      else if 255 < digits_val s then None
      else Some (digits_val s))"

definition parse4_fields :: "string \<Rightarrow> int list option" where
  "parse4_fields s =
     (case map octet (Split CHR ''.'' s) of
        [Some a, Some b, Some c, Some d] \<Rightarrow> Some [a * 256 + b, c * 256 + d]
      | _ \<Rightarrow> None)"

definition hex_val :: "char \<Rightarrow> int" where
  "hex_val c = (let n = int (of_char c) in
     if n \<le> 57 then n - 48 else if n \<le> 70 then n - 55 else n - 87)"

definition is_hex :: "char \<Rightarrow> bool" where
  "is_hex c = (let n = (of_char c :: nat) in
     (48 \<le> n \<and> n \<le> 57) \<or> (65 \<le> n \<and> n \<le> 70) \<or> (97 \<le> n \<and> n \<le> 102))"

definition hex_num :: "string \<Rightarrow> int" where
  "hex_num s = foldl (\<lambda>a c. a * 16 + hex_val c) 0 s"

text \<open>The end of the IPv6 loop: everything read, the ellipsis expanded to the missing groups.\<close>

definition parse6_finish :: "int list \<Rightarrow> nat option \<Rightarrow> string \<Rightarrow> ipaddr option" where
  "parse6_finish gs ell s =
     (if s \<noteq> [] then None
      else if length gs < 8
        then map_option (\<lambda>e. take e gs @ replicate (8 - length gs) 0 @ drop e gs) ell
      else if ell \<noteq> None then None else Some gs)"

function parse6_loop :: "int list \<Rightarrow> nat option \<Rightarrow> string \<Rightarrow> ipaddr option" where
  "parse6_loop gs ell s =
     (if 8 \<le> length gs then parse6_finish gs ell s
      else let ds = takeWhile is_hex s in
        if ds = [] \<or> 4 < length ds then None
        else (case dropWhile is_hex s of
            [] \<Rightarrow> parse6_finish (gs @ [hex_num ds]) ell []
          | c # t \<Rightarrow>
            if c = CHR ''.'' then
              (if ell = None \<and> length gs \<noteq> 6 then None
               else if 8 < length gs + 2 then None
               else (case parse4_fields s of None \<Rightarrow> None
                     | Some g2 \<Rightarrow> parse6_finish (gs @ g2) ell []))
            else if c \<noteq> CHR '':'' then None
            else (case t of [] \<Rightarrow> None
                  | c' # t' \<Rightarrow>
                    if c' = CHR '':'' then
                      (if ell \<noteq> None then None
                       else if t' = [] then parse6_finish (gs @ [hex_num ds]) (Some (length gs + 1)) []
                       else parse6_loop (gs @ [hex_num ds]) (Some (length gs + 1)) t')
                    else parse6_loop (gs @ [hex_num ds]) ell t)))"
  by pat_completeness auto
termination
  by (relation "measure (\<lambda>(gs, _, _). 8 - length gs)") auto

declare parse6_loop.simps [simp del]

definition parse6 :: "string \<Rightarrow> ipaddr option" where
  "parse6 s =
     (if CHR ''%'' \<in> set s then None
      else if HasPrefix s ''::'' then
        (if drop 2 s = [] then Some (replicate 8 0) else parse6_loop [] (Some 0) (drop 2 s))
      else parse6_loop [] None s)"

text \<open>\<open>net.ParseIP\<close>: the first of the characters point, colon and percent selects the form.\<close>

definition ParseIP :: "string \<Rightarrow> ipaddr option" where
  "ParseIP s =
     (case find (\<lambda>c. c \<in> {CHR ''.'', CHR '':'', CHR ''%''}) s of
        Some c \<Rightarrow>
          if c = CHR ''.'' then map_option (\<lambda>g. [0, 0, 0, 0, 0, 65535] @ g) (parse4_fields s)
          else if c = CHR '':'' then parse6 s
          else None
      | None \<Rightarrow> None)"

subsection \<open>Address to text\<close>

definition hex_char :: "int \<Rightarrow> char" where
  "hex_char d = char_of (nat (if d < 10 then d + 48 else d + 87))"

definition hex_str :: "int \<Rightarrow> string" where
  "hex_str g =
     (if g < 16 then [hex_char g]
      else if g < 256 then [hex_char (g div 16), hex_char (g mod 16)]
      else if g < 4096 then [hex_char (g div 256), hex_char (g div 16 mod 16), hex_char (g mod 16)]
      else [hex_char (g div 4096), hex_char (g div 256 mod 16), hex_char (g div 16 mod 16),
            hex_char (g mod 16)])"

fun join_colon :: "int list \<Rightarrow> string" where
  "join_colon [] = []"
| "join_colon [g] = hex_str g"
| "join_colon (g # gs) = hex_str g @ CHR '':'' # join_colon gs"

definition zero_run :: "ipaddr \<Rightarrow> nat \<Rightarrow> nat" where
  "zero_run ip i = length (takeWhile (\<lambda>g. g = 0) (drop i ip))"

text \<open>The first longest run of at least two zero groups, as start and length.\<close>

definition best_run :: "ipaddr \<Rightarrow> (nat \<times> nat) option" where
  "best_run ip =
     fold (\<lambda>i best. let l = zero_run ip i in
             if 2 \<le> l \<and> (case best of None \<Rightarrow> True | Some (_, n) \<Rightarrow> n < l) then Some (i, l) else best)
       [0..<8] None"

definition IPString :: "ipaddr \<Rightarrow> string" where
  "IPString ip =
     (if is4 ip then
        Itoa (ip ! 6 div 256) @ CHR ''.'' # Itoa (ip ! 6 mod 256) @ CHR ''.'' #
        Itoa (ip ! 7 div 256) @ CHR ''.'' # Itoa (ip ! 7 mod 256)
      else (case best_run ip of
          None \<Rightarrow> join_colon ip
        | Some (i, n) \<Rightarrow> join_colon (take i ip) @ ''::'' @ join_colon (drop (i + n) ip)))"

subsection \<open>Networks\<close>

text \<open>
  An \<open>*net.IPNet\<close>: the masked address and the length of the mask counted in the 128-bit
  form, so an IPv4 network of length \<open>n\<close> has \<open>net_len = 96 + n\<close>.
\<close>

record ipnet =
  net_ip :: ipaddr
  net_len :: nat

definition mask_ip :: "ipaddr \<Rightarrow> nat \<Rightarrow> ipaddr" where
  "mask_ip ip n = groups_of (ip_val ip div 2 ^ (128 - n) * 2 ^ (128 - n))"

definition ParseCIDR :: "string \<Rightarrow> go_error + ipnet" where
  "ParseCIDR s =
     (let err = Inl (Err (''invalid CIDR address: '' @ s)) in
      case IndexByte s CHR ''/'' of None \<Rightarrow> err
      | Some i \<Rightarrow>
        let addr = take i s; m = drop (i + 1) s in
        (case ParseIP addr of None \<Rightarrow> err
         | Some ip \<Rightarrow>
           let bits = (if CHR '':'' \<in> set addr then 128 else 32) in
           if m = [] \<or> \<not> list_all is_digit m \<or> int bits < digits_val m then err
           else let n = 128 - bits + nat (digits_val m)
                in Inr \<lparr>net_ip = mask_ip ip n, net_len = n\<rparr>))"

text \<open>
  \<open>IPNet.Contains\<close>: both sides are reduced by \<open>To4\<close> first, so an IPv4 address is only ever in a
  network whose masked address is IPv4, and conversely.
\<close>

definition net_contains :: "ipnet \<Rightarrow> ipaddr \<Rightarrow> bool" where
  "net_contains n ip \<longleftrightarrow>
     is4 (net_ip n) = is4 ip \<and>
     ip_val (net_ip n) div 2 ^ (128 - net_len n) = ip_val ip div 2 ^ (128 - net_len n)"

subsection \<open>Printing and parsing\<close>

lemma Split_append: "sep \<notin> set s \<Longrightarrow> Split sep (s @ sep # t) = s # Split sep t"
  by (induction s) auto

lemma Split_single: "sep \<notin> set s \<Longrightarrow> Split sep s = [s]"
  by (induction s) auto

lemma dec_digits_small: "n < 10 \<Longrightarrow> dec_digits n = [digit_char n]"
  by (subst dec_digits.simps) simp

lemma dec_digits_lead:
  "10 \<le> n \<Longrightarrow> dec_digits n ! 0 \<noteq> CHR ''0'' \<and> 1 < length (dec_digits n)"
proof (induction n rule: dec_digits.induct)
  case (1 n)
  have step: "dec_digits n = dec_digits (n div 10) @ [digit_char (n mod 10)]"
    using "1.prems" by (subst dec_digits.simps) simp
  show ?case
  proof (cases "n div 10 < 10")
    case True
    have "digit_val (digit_char (n div 10)) \<noteq> digit_val CHR ''0''"
      using True "1.prems" by (subst digit_char_val) (auto simp: digit_val_def)
    then show ?thesis using step True by (auto simp: dec_digits_small)
  next
    case False
    with "1.IH" "1.prems" have "dec_digits (n div 10) ! 0 \<noteq> CHR ''0''" by auto
    moreover have "0 < length (dec_digits (n div 10))" by simp
    ultimately show ?thesis using step by (auto simp: nth_append)
  qed
qed

lemma octet_Itoa:
  assumes "0 \<le> n" "n < 256"
  shows "octet (Itoa n) = Some n"
proof -
  have "n < 10 \<or> dec_digits n ! 0 \<noteq> CHR ''0''"
    using dec_digits_lead [of n] by linarith
  moreover have "n < 10 \<Longrightarrow> length (dec_digits n) = 1"
    by (simp add: dec_digits_small)
  ultimately show ?thesis
    using assms dec_digits_correct [of n] by (auto simp: octet_def Itoa_def)
qed

lemma Itoa_digits: "0 \<le> n \<Longrightarrow> list_all is_digit (Itoa n)"
  using dec_digits_correct [of n] by (simp add: Itoa_def)

lemma digits_no_point: "list_all is_digit s \<Longrightarrow> c \<in> set s \<Longrightarrow> is_digit c"
  by (simp add: list_all_iff)

lemma not_digit [simp]:
  "\<not> is_digit CHR ''.''" "\<not> is_digit CHR '':''" "\<not> is_digit CHR ''%''"
  "\<not> is_digit CHR ''[''" "\<not> is_digit CHR '']''" "\<not> is_digit CHR ''/''"
  by (auto simp: is_digit_def)

lemma Itoa_no: "0 \<le> n \<Longrightarrow> \<not> is_digit c \<Longrightarrow> c \<notin> set (Itoa n)"
  using Itoa_digits digits_no_point by blast

lemma Itoa_nonempty [simp]: "Itoa n \<noteq> []"
  by (simp add: Itoa_def)

lemma parse4_fields_Itoa:
  assumes "0 \<le> a" "a < 256" "0 \<le> b" "b < 256" "0 \<le> c" "c < 256" "0 \<le> d" "d < 256"
  shows "parse4_fields (Itoa a @ CHR ''.'' # Itoa b @ CHR ''.'' # Itoa c @ CHR ''.'' # Itoa d)
     = Some [a * 256 + b, c * 256 + d]"
  using assms
  by (simp add: parse4_fields_def Split_append Split_single Itoa_no octet_Itoa)

lemma find_append_none: "(\<And>x. x \<in> set s \<Longrightarrow> \<not> P x) \<Longrightarrow> find P (s @ t) = find P t"
  by (induction s) auto

lemma is4_cases:
  assumes "ip_ok ip" "is4 ip"
  obtains g h where "ip = [0, 0, 0, 0, 0, 65535, g, h]" "0 \<le> g" "g < 65536" "0 \<le> h" "h < 65536"
proof -
  from assms have l: "length ip = 8" and t: "take 6 ip = [0, 0, 0, 0, 0, 65535]"
    by (auto simp: ip_ok_def is4_def)
  obtain g h where "drop 6 ip = [g, h]"
  proof -
    have "length (drop 6 ip) = Suc (Suc 0)" using l by simp
    then show ?thesis using that by (auto simp: length_Suc_conv simp del: length_drop)
  qed
  with t have "ip = [0, 0, 0, 0, 0, 65535, g, h]"
    by (metis append_take_drop_id append_Cons append_Nil)
  with assms(1) that show ?thesis by (auto simp: ip_ok_def)
qed

lemma ParseIP_IPString4:
  assumes "ip_ok ip" "is4 ip"
  shows "ParseIP (IPString ip) = Some ip"
proof -
  from assms obtain g h where ip: "ip = [0, 0, 0, 0, 0, 65535, g, h]"
    and gh: "0 \<le> g" "g < 65536" "0 \<le> h" "h < 65536"
    by (rule is4_cases)
  let ?p = "\<lambda>c. c \<in> {CHR ''.'', CHR '':'', CHR ''%''}"
  let ?t = "Itoa (g mod 256) @ CHR ''.'' # Itoa (h div 256) @ CHR ''.'' # Itoa (h mod 256)"
  have s: "IPString ip = Itoa (g div 256) @ CHR ''.'' # ?t"
    using ip by (simp add: IPString_def is4_def)
  have r: "0 \<le> g div 256" "g div 256 < 256" "0 \<le> h div 256" "h div 256 < 256"
    using gh by auto
  have "find ?p (Itoa (g div 256) @ CHR ''.'' # ?t) = find ?p (CHR ''.'' # ?t)"
    using r Itoa_no [of "g div 256"] by (intro find_append_none) auto
  then have f: "find ?p (IPString ip) = Some CHR ''.''"
    using s by simp
  have "parse4_fields (IPString ip) = Some [g, h]"
    unfolding s using r by (subst parse4_fields_Itoa) auto
  with f show ?thesis by (simp add: ParseIP_def ip)
qed

lemma hex_char_val:
  assumes "0 \<le> d" "d < 16"
  shows "hex_val (hex_char d) = d" "is_hex (hex_char d)"
  using assms by (auto simp: hex_val_def hex_char_def is_hex_def Let_def)

lemma hex_str_hex:
  assumes "0 \<le> g" "g < 65536"
  shows "list_all is_hex (hex_str g)"
  using assms by (auto simp: hex_str_def intro!: hex_char_val)

lemma hex_str_len: "hex_str g \<noteq> []" "length (hex_str g) \<le> 4"
  by (auto simp: hex_str_def)

lemma hex_num_Cons: "hex_num (s @ [c]) = hex_num s * 16 + hex_val c"
  by (simp add: hex_num_def)

lemma hex_str_snoc:
  assumes "16 \<le> g" "g < 65536"
  shows "hex_str g = hex_str (g div 16) @ [hex_char (g mod 16)]"
proof -
  have "g div 256 = g div 16 div 16" "g div 4096 = g div 16 div 256"
    by (simp_all flip: zdiv_zmult2_eq)
  moreover have "g < 256 \<longleftrightarrow> g div 16 < 16" "g < 4096 \<longleftrightarrow> g div 16 < 256" "g div 16 < 4096"
    using assms by linarith+
  ultimately show ?thesis
    using assms by (simp add: hex_str_def)
qed

lemma hex_num_hex_str: "0 \<le> g \<Longrightarrow> g < 65536 \<Longrightarrow> hex_num (hex_str g) = g"
proof (induction "nat g" arbitrary: g rule: less_induct)
  case less
  show ?case
  proof (cases "g < 16")
    case True
    with less.prems show ?thesis by (simp add: hex_str_def hex_num_def hex_char_val)
  next
    case False
    with less.prems have "hex_num (hex_str (g div 16)) = g div 16"
      by (intro less.hyps) auto
    moreover have "hex_val (hex_char (g mod 16)) = g mod 16"
      by (rule hex_char_val) auto
    ultimately show ?thesis
      using False less.prems by (simp add: hex_str_snoc hex_num_Cons)
  qed
qed

lemma colon_not_hex [simp]: "\<not> is_hex CHR '':''" "\<not> is_hex CHR ''.''" "\<not> is_hex CHR ''%''"
  "\<not> is_hex CHR ''[''" "\<not> is_hex CHR '']''"
  by (auto simp: is_hex_def)

lemma span_hex:
  assumes "list_all is_hex s" "t = [] \<or> \<not> is_hex (t ! 0)"
  shows "takeWhile is_hex (s @ t) = s" "dropWhile is_hex (s @ t) = t"
  using assms by (induction s) (cases t; auto)+

definition groups_ok :: "int list \<Rightarrow> bool" where
  "groups_ok gs \<longleftrightarrow> list_all (\<lambda>g. 0 \<le> g \<and> g < 65536) gs"

lemma groups_ok_simps [simp]:
  "groups_ok []" "groups_ok (g # gs) \<longleftrightarrow> 0 \<le> g \<and> g < 65536 \<and> groups_ok gs"
  by (auto simp: groups_ok_def)

lemma join_colon_Cons2: "hs \<noteq> [] \<Longrightarrow> join_colon (g # hs) = hex_str g @ CHR '':'' # join_colon hs"
  by (cases hs) auto

lemma join_colon_hd: "groups_ok hs \<Longrightarrow> hs \<noteq> [] \<Longrightarrow> \<exists>c t. join_colon hs = c # t \<and> is_hex c"
proof (cases hs)
  case (Cons g gs)
  moreover assume "groups_ok hs"
  ultimately have "list_all is_hex (hex_str g)" by (auto intro: hex_str_hex)
  then obtain c u where "hex_str g = c # u" "is_hex c"
    using hex_str_len(1) [of g] by (cases "hex_str g") auto
  then show ?thesis using Cons by (cases gs) auto
qed simp

lemma span_hex_str:
  assumes "groups_ok [g]" "t = [] \<or> \<not> is_hex (t ! 0)"
  shows "takeWhile is_hex (hex_str g @ t) = hex_str g" "dropWhile is_hex (hex_str g @ t) = t"
  using assms span_hex [of "hex_str g" t] hex_str_hex [of g] by auto

lemma hex_num_ok: "groups_ok [g] \<Longrightarrow> hex_num (hex_str g) = g"
  by (simp add: hex_num_hex_str)

lemma parse6_loop_last:
  assumes g: "groups_ok [g]" and l: "length gs < 8"
  shows "parse6_loop gs ell (hex_str g) = parse6_finish (gs @ [g]) ell []"
  using l hex_str_len [of g]
  by (subst parse6_loop.simps)
    (simp add: Let_def span_hex_str [OF g, of "[]", unfolded append_Nil2] hex_num_ok [OF g])

lemma parse6_loop_step:
  assumes g: "groups_ok [g]" and l: "length gs < 8" and c: "c \<noteq> CHR '':''"
  shows "parse6_loop gs ell (hex_str g @ CHR '':'' # c # t) = parse6_loop (gs @ [g]) ell (c # t)"
  using l c hex_str_len [of g]
  by (subst parse6_loop.simps)
    (simp add: Let_def span_hex_str [OF g, of "CHR '':'' # c # t"] hex_num_ok [OF g])

lemma parse6_loop_ellipsis:
  assumes g: "groups_ok [g]" and l: "length gs < 8"
  shows "parse6_loop gs None (hex_str g @ ''::'' @ t) =
    (if t = [] then parse6_finish (gs @ [g]) (Some (length gs + 1)) []
     else parse6_loop (gs @ [g]) (Some (length gs + 1)) t)"
  using l hex_str_len [of g]
  by (subst parse6_loop.simps)
    (simp add: Let_def span_hex_str [OF g, of "CHR '':'' # CHR '':'' # t"] hex_num_ok [OF g])

lemma colon_hex_neq: "is_hex c \<Longrightarrow> c \<noteq> CHR '':''"
  by auto

lemma parse6_loop_join:
  "groups_ok hs \<Longrightarrow> hs \<noteq> [] \<Longrightarrow> length gs + length hs \<le> 8 \<Longrightarrow>
   parse6_loop gs ell (join_colon hs) = parse6_finish (gs @ hs) ell []"
proof (induction hs arbitrary: gs)
  case (Cons g hs)
  show ?case
  proof (cases "hs = []")
    case True
    with Cons.prems show ?thesis by (simp add: parse6_loop_last)
  next
    case False
    with Cons.prems obtain c t where "join_colon hs = c # t" "is_hex c"
      using join_colon_hd [of hs] by auto
    then have "parse6_loop gs ell (join_colon (g # hs)) = parse6_loop (gs @ [g]) ell (join_colon hs)"
      using Cons.prems False colon_hex_neq [of c] parse6_loop_step [of g gs c ell t]
      by (simp add: join_colon_Cons2)
    with Cons False show ?thesis by simp
  qed
qed simp

lemma parse6_loop_join_ellipsis:
  "groups_ok hs \<Longrightarrow> hs \<noteq> [] \<Longrightarrow> length gs + length hs \<le> 8 \<Longrightarrow>
   parse6_loop gs None (join_colon hs @ ''::'' @ t) =
    (if t = [] then parse6_finish (gs @ hs) (Some (length (gs @ hs))) []
     else parse6_loop (gs @ hs) (Some (length (gs @ hs))) t)"
proof (induction hs arbitrary: gs)
  case (Cons g hs)
  show ?case
  proof (cases "hs = []")
    case True
    with Cons.prems show ?thesis using parse6_loop_ellipsis [of g gs t] by simp
  next
    case False
    with Cons.prems obtain c u where "join_colon hs = c # u" "is_hex c"
      using join_colon_hd [of hs] by auto
    then have "parse6_loop gs None (join_colon (g # hs) @ ''::'' @ t)
        = parse6_loop (gs @ [g]) None (join_colon hs @ ''::'' @ t)"
      using Cons.prems False colon_hex_neq [of c] parse6_loop_step [of g gs c None "u @ ''::'' @ t"]
      by (simp add: join_colon_Cons2)
    with Cons False show ?thesis by simp
  qed
qed simp

lemma zero_run_prefix:
  "take (zero_run ip i) (drop i ip) = replicate (zero_run ip i) 0"
proof -
  have "takeWhile (\<lambda>g. g = 0) xs = replicate (length (takeWhile (\<lambda>g. g = 0) xs)) (0::int)" for xs
    by (induction xs) auto
  then show ?thesis
    unfolding zero_run_def by (metis takeWhile_eq_take)
qed

lemma best_run_fold:
  assumes "fold (\<lambda>i best. let l = zero_run ip i in
             if 2 \<le> l \<and> (case best of None \<Rightarrow> True | Some (_, n) \<Rightarrow> n < l) then Some (i, l) else best)
       is b = Some (i, n)"
    and "b = None \<or> (\<exists>j. b = Some (j, zero_run ip j) \<and> 2 \<le> zero_run ip j)"
  shows "n = zero_run ip i \<and> 2 \<le> n"
  using assms by (induction "is" arbitrary: b) (auto simp: Let_def split: if_splits)

lemma best_run_Some:
  assumes "best_run ip = Some (i, n)"
  shows "n = zero_run ip i" "2 \<le> n"
  using best_run_fold [OF assms [unfolded best_run_def]] by auto

lemma best_run_split:
  assumes "best_run ip = Some (i, n)"
  shows "ip = take i ip @ replicate n 0 @ drop (i + n) ip"
proof -
  have "take n (drop i ip) = replicate n 0"
    using zero_run_prefix [of ip i] best_run_Some [OF assms] by simp
  then have "drop i ip = replicate n 0 @ drop (i + n) ip"
    by (metis append_take_drop_id drop_drop add.commute)
  then show ?thesis by (metis append_take_drop_id)
qed
lemma join_colon_chars:
  assumes "groups_ok hs" "c \<in> set (join_colon hs)"
  shows "is_hex c \<or> c = CHR '':''"
  using assms
proof (induction hs)
  case (Cons g hs)
  have "list_all is_hex (hex_str g)" using Cons.prems by (auto intro: hex_str_hex)
  with Cons show ?case by (cases hs) (auto simp: list_all_iff)
qed simp

lemma join_colon_no:
  "groups_ok hs \<Longrightarrow> \<not> is_hex c \<Longrightarrow> c \<noteq> CHR '':'' \<Longrightarrow> c \<notin> set (join_colon hs)"
  using join_colon_chars by blast

lemma groups_ok_take: "groups_ok gs \<Longrightarrow> groups_ok (take n gs)"
  using set_take_subset [of n gs] by (auto simp: groups_ok_def list_all_iff)

lemma groups_ok_drop: "groups_ok gs \<Longrightarrow> groups_ok (drop n gs)"
  using set_drop_subset [of n gs] by (auto simp: groups_ok_def list_all_iff)

lemma ip_ok_groups: "ip_ok ip \<Longrightarrow> groups_ok ip \<and> length ip = 8"
  by (simp add: ip_ok_def groups_ok_def)

lemma IPString6_chars:
  assumes "ip_ok ip" "\<not> is4 ip" "c \<in> set (IPString ip)"
  shows "is_hex c \<or> c = CHR '':''"
  using assms ip_ok_groups [OF assms(1)] join_colon_chars [of "take _ ip" c]
    join_colon_chars [of "drop _ ip" c] join_colon_chars [of ip c]
  by (auto simp: IPString_def groups_ok_take groups_ok_drop split: option.splits)

lemma find_colon:
  assumes "\<And>c. c \<in> set s \<Longrightarrow> is_hex c \<or> c = CHR '':''" "CHR '':'' \<in> set s"
  shows "find (\<lambda>c. c \<in> {CHR ''.'', CHR '':'', CHR ''%''}) s = Some CHR '':''"
  using assms
proof (induction s)
  case (Cons c s)
  then have "is_hex c \<or> c = CHR '':''" by simp
  then show ?case
  proof
    assume "is_hex c"
    then have "c \<noteq> CHR ''.''" "c \<noteq> CHR '':''" "c \<noteq> CHR ''%''" by auto
    with Cons show ?thesis by simp
  qed simp
qed simp

lemma join_colon_has_colon: "2 \<le> length hs \<Longrightarrow> CHR '':'' \<in> set (join_colon hs)"
  by (cases hs; cases "tl hs") (auto simp: join_colon_Cons2)

lemma parse6_join:
  assumes "groups_ok hs" "length hs = 8"
  shows "parse6 (join_colon hs) = Some hs"
proof -
  have ne: "hs \<noteq> []" using assms(2) by auto
  obtain c t where ct: "join_colon hs = c # t" "is_hex c"
    using join_colon_hd [OF assms(1) ne] by auto
  have "CHR ''%'' \<notin> set (join_colon hs)"
    by (rule join_colon_no [OF assms(1)]) auto
  moreover have "\<not> HasPrefix (join_colon hs) ''::''"
    using ct colon_hex_neq [of c] by (auto simp: HasPrefix_def)
  moreover have "parse6_loop [] None (join_colon hs) = Some hs"
    using assms ne parse6_loop_join [of hs "[]" None] by (simp add: parse6_finish_def)
  ultimately show ?thesis by (simp add: parse6_def)
qed

lemma parse6_rest:
  assumes "groups_ok hs" "length gs + length hs < 8"
  shows "(if join_colon hs = [] then parse6_finish gs (Some e) []
          else parse6_loop gs (Some e) (join_colon hs))
    = Some (take e (gs @ hs) @ replicate (8 - length (gs @ hs)) 0 @ drop e (gs @ hs))"
proof (cases "hs = []")
  case True
  with assms show ?thesis by (simp add: parse6_finish_def)
next
  case False
  then obtain c t where "join_colon hs = c # t"
    using join_colon_hd [of hs] assms by auto
  with False assms parse6_loop_join [of hs gs "Some e"] show ?thesis
    by (simp add: parse6_finish_def)
qed

lemma parse6_ellipsis:
  assumes as: "groups_ok as" and bs: "groups_ok bs" and l: "length as + length bs < 8"
  shows "parse6 (join_colon as @ ''::'' @ join_colon bs)
     = Some (as @ replicate (8 - length as - length bs) 0 @ bs)"
proof -
  let ?s = "join_colon as @ ''::'' @ join_colon bs"
  have pc: "CHR ''%'' \<notin> set ?s"
    using join_colon_no [OF as, of "CHR ''%''"] join_colon_no [OF bs, of "CHR ''%''"] by simp
  show ?thesis
  proof (cases "as = []")
    case True
    then have "parse6 ?s = (if join_colon bs = [] then Some (replicate 8 0)
       else parse6_loop [] (Some 0) (join_colon bs))"
      using pc by (simp add: parse6_def HasPrefix_def)
    also have "\<dots> = Some (replicate (8 - length bs) 0 @ bs)"
    proof (cases "bs = []")
      case False
      then obtain c t where "join_colon bs = c # t"
        using join_colon_hd [OF bs] by auto
      then show ?thesis using parse6_rest [of bs "[]" 0] bs l True by simp
    qed simp
    finally show ?thesis using True by simp
  next
    case False
    then obtain c t where ct: "join_colon as = c # t" "is_hex c"
      using join_colon_hd [OF as] by auto
    have "\<not> HasPrefix ?s ''::''"
      using ct colon_hex_neq [of c] by (auto simp: HasPrefix_def)
    then have "parse6 ?s = parse6_loop [] None ?s"
      using pc by (simp add: parse6_def)
    also have "\<dots> = (if join_colon bs = [] then parse6_finish as (Some (length as)) []
       else parse6_loop as (Some (length as)) (join_colon bs))"
      using parse6_loop_join_ellipsis [OF as False, of "[]" "join_colon bs"] l by simp
    also have "\<dots> = Some (as @ replicate (8 - length as - length bs) 0 @ bs)"
      using parse6_rest [OF bs l, of "length as"] by simp
    finally show ?thesis .
  qed
qed

lemma ParseIP_IPString6:
  assumes ok: "ip_ok ip" and n4: "\<not> is4 ip"
  shows "ParseIP (IPString ip) = Some ip"
proof -
  have g: "groups_ok ip" "length ip = 8"
    using ip_ok_groups [OF ok] by auto
  have p: "parse6 (IPString ip) = Some ip \<and> CHR '':'' \<in> set (IPString ip)"
  proof (cases "best_run ip")
    case None
    with n4 g show ?thesis
      by (simp add: IPString_def parse6_join join_colon_has_colon)
  next
    case (Some b)
    then obtain i n where b: "best_run ip = Some (i, n)" by (cases b) auto
    note sp = best_run_split [OF b] and n = best_run_Some [OF b]
    have s: "IPString ip = join_colon (take i ip) @ ''::'' @ join_colon (drop (i + n) ip)"
      using n4 b by (simp add: IPString_def)
    have len: "length (take i ip) + n + length (drop (i + n) ip) = 8"
      using arg_cong [OF sp, of length] g by simp
    then have "parse6 (IPString ip) = Some (take i ip @ replicate n 0 @ drop (i + n) ip)"
      unfolding s using n g
      by (subst parse6_ellipsis) (auto simp: groups_ok_take groups_ok_drop)
    with sp s show ?thesis by simp
  qed
  then have "find (\<lambda>c. c \<in> {CHR ''.'', CHR '':'', CHR ''%''}) (IPString ip) = Some CHR '':''"
    using IPString6_chars [OF ok n4] by (intro find_colon) auto
  with p show ?thesis by (simp add: ParseIP_def)
qed

lemma ParseIP_IPString: "ip_ok ip \<Longrightarrow> ParseIP (IPString ip) = Some ip"
  using ParseIP_IPString4 ParseIP_IPString6 by blast

lemma IPString_nonempty:
  assumes "ip \<noteq> []"
  shows "IPString ip \<noteq> []"
proof (cases "is4 ip \<or> best_run ip \<noteq> None")
  case True
  then show ?thesis by (auto simp: IPString_def)
next
  case False
  then have "\<not> is4 ip" "best_run ip = None" by blast+
  then have "IPString ip = join_colon ip" by (simp add: IPString_def)
  with assms show ?thesis by (cases ip; cases "tl ip") (auto simp: hex_str_len)
qed

lemma IPString_no_brackets:
  assumes "ip_ok ip"
  shows "CHR ''['' \<notin> set (IPString ip)" "CHR '']'' \<notin> set (IPString ip)"
proof -
  have "CHR ''['' \<notin> set (IPString ip) \<and> CHR '']'' \<notin> set (IPString ip)"
  proof (cases "is4 ip")
    case True
    with assms obtain g h where ip: "ip = [0, 0, 0, 0, 0, 65535, g, h]"
      and gh: "0 \<le> g" "g < 65536" "0 \<le> h" "h < 65536"
      by (rule is4_cases)
    have "\<not> is_digit c \<Longrightarrow> c \<noteq> CHR ''.'' \<Longrightarrow> c \<notin> set (IPString ip)" for c
      using ip gh by (simp add: IPString_def is4_def Itoa_no)
    then show ?thesis by simp
  next
    case False
    then show ?thesis using IPString6_chars [OF assms False] by fastforce
  qed
  then show "CHR ''['' \<notin> set (IPString ip)" "CHR '']'' \<notin> set (IPString ip)" by auto
qed

subsection \<open>Parsed addresses are well formed\<close>

lemma digits_val_bounds: "list_all is_digit s \<Longrightarrow> 0 \<le> digits_val s"
proof (induction s rule: rev_induct)
  case (snoc c s)
  then show ?case by (auto simp: digits_val_append digit_val_def is_digit_def)
qed (simp add: digits_val_def)

lemma octet_bounds: "octet s = Some n \<Longrightarrow> 0 \<le> n \<and> n < 256"
  using digits_val_bounds by (auto simp: octet_def split: if_splits)

lemma parse4_fields_ok:
  assumes "parse4_fields s = Some gs"
  shows "groups_ok gs \<and> length gs = 2"
proof -
  obtain a b c d where "map octet (Split CHR ''.'' s) = [Some a, Some b, Some c, Some d]"
    and gs: "gs = [a * 256 + b, c * 256 + d]"
    using assms by (auto simp: parse4_fields_def split: list.splits option.splits)
  then have "Some n \<in> set (map octet (Split CHR ''.'' s)) \<Longrightarrow> 0 \<le> n \<and> n < 256" for n
    by (auto dest: octet_bounds simp del: Split.simps)
  then have "\<And>n. n \<in> {a, b, c, d} \<Longrightarrow> 0 \<le> n \<and> n < 256"
    using \<open>map octet _ = _\<close> by auto
  then have "0 \<le> a \<and> a < 256" "0 \<le> b \<and> b < 256" "0 \<le> c \<and> c < 256" "0 \<le> d \<and> d < 256"
    by blast+
  with gs show ?thesis by simp
qed

lemma hex_num_bounds: "list_all is_hex s \<Longrightarrow> 0 \<le> hex_num s \<and> hex_num s < 16 ^ length s"
proof (induction s rule: rev_induct)
  case (snoc c s)
  moreover from snoc.prems have "0 \<le> hex_val c \<and> hex_val c < 16"
    by (auto simp: is_hex_def hex_val_def Let_def)
  ultimately show ?case by (auto simp: hex_num_Cons)
qed (simp add: hex_num_def)

lemma hex_group_ok:
  assumes "length (takeWhile is_hex s) \<le> 4"
  shows "groups_ok [hex_num (takeWhile is_hex s)]"
proof -
  let ?d = "takeWhile is_hex s"
  have "hex_num ?d < 16 ^ length ?d" "0 \<le> hex_num ?d"
    using hex_num_bounds [of ?d] by (auto simp: list_all_iff dest: set_takeWhileD)
  moreover have "(16::int) ^ length ?d \<le> 16 ^ 4"
    using assms by (intro power_increasing) auto
  ultimately show ?thesis by simp
qed

lemma groups_ok_append [simp]: "groups_ok (xs @ ys) \<longleftrightarrow> groups_ok xs \<and> groups_ok ys"
  by (simp add: groups_ok_def)

lemma parse6_finish_ok:
  assumes "parse6_finish gs ell s = Some ip" "groups_ok gs" "length gs \<le> 8"
    "\<And>e. ell = Some e \<Longrightarrow> e \<le> length gs"
  shows "groups_ok ip \<and> length ip = 8"
  using assms
  by (auto simp: parse6_finish_def groups_ok_take groups_ok_drop split: if_splits)
    (simp add: groups_ok_def list_all_iff)

lemma parse6_loop_ok:
  "parse6_loop gs ell s = Some ip \<Longrightarrow> groups_ok gs \<Longrightarrow> length gs \<le> 8 \<Longrightarrow>
   (\<And>e. ell = Some e \<Longrightarrow> e \<le> length gs) \<Longrightarrow> groups_ok ip \<and> length ip = 8"
proof (induction "8 - length gs" arbitrary: gs ell s rule: less_induct)
  case less
  note ret = less.prems(1) and ok = less.prems(2) and ell = less.prems(4)
  let ?g = "hex_num (takeWhile is_hex s)"
  have fin: "groups_ok ip \<and> length ip = 8"
    if "parse6_finish (gs @ hs) e' t = Some ip" "groups_ok hs" "length gs + length hs \<le> 8"
      "\<And>e. e' = Some e \<Longrightarrow> e \<le> length gs + length hs" for hs e' t
    using parse6_finish_ok [OF that(1)] that ok by simp
  have rec: "groups_ok ip \<and> length ip = 8"
    if "parse6_loop (gs @ [?g]) e' t = Some ip" "length gs < 8" "groups_ok [?g]"
      "\<And>e. e' = Some e \<Longrightarrow> e \<le> length gs + 1" for e' t
    using less.hyps [OF _ that(1)] that ok by simp
  show ?case
  proof (cases "8 \<le> length gs")
    case True
    then show ?thesis
      using ret fin [of "[]" ell s] less.prems(3) ell
      by (subst (asm) parse6_loop.simps) simp
  next
    case False
    have ds: "length (takeWhile is_hex s) \<le> 4"
      using ret False by (subst (asm) parse6_loop.simps) (auto simp: Let_def split: if_splits)
    note g = hex_group_ok [OF ds]
    have e1: "\<And>e. ell = Some e \<Longrightarrow> e \<le> length gs + 1" using ell by fastforce
    show ?thesis
    proof (cases "dropWhile is_hex s")
      case Nil
      have "parse6_finish (gs @ [?g]) ell [] = Some ip"
        using ret False by (subst (asm) parse6_loop.simps) (simp add: Let_def Nil split: if_splits)
      then show ?thesis using fin [of "[?g]" ell] g e1 False by simp
    next
      case (Cons c t)
      show ?thesis
      proof (cases "c = CHR ''.''")
        case True
        then obtain g2 where "parse4_fields s = Some g2" "parse6_finish (gs @ g2) ell [] = Some ip"
            "length gs + 2 \<le> 8"
          using ret False Cons
          by (subst (asm) parse6_loop.simps) (simp add: Let_def split: if_splits option.splits)
        then show ?thesis
          using fin [of g2 ell "[]"] parse4_fields_ok [of s g2] ell by fastforce
      next
        case nopoint: False
        then obtain c' t' where t: "t = c' # t'"
          using ret False Cons
          by (subst (asm) parse6_loop.simps) (simp add: Let_def split: if_splits list.splits)
        show ?thesis
        proof (cases "c' = CHR '':''")
          case True
          then have "if t' = [] then parse6_finish (gs @ [?g]) (Some (length gs + 1)) [] = Some ip
              else parse6_loop (gs @ [?g]) (Some (length gs + 1)) t' = Some ip"
            using ret False Cons nopoint t
            by (subst (asm) parse6_loop.simps) (simp add: Let_def split: if_splits)
          then show ?thesis
            using fin [of "[?g]" "Some (length gs + 1)" "[]"] rec [of "Some (length gs + 1)" t'] g False
            by (simp split: if_splits)
        next
          case nocolon: False
          then have "parse6_loop (gs @ [?g]) ell t = Some ip"
            using ret False Cons nopoint t
            by (subst (asm) parse6_loop.simps) (simp add: Let_def split: if_splits)
          then show ?thesis using rec [of ell t] g e1 False by simp
        qed
      qed
    qed
  qed
qed

lemma parse6_ok:
  assumes "parse6 s = Some ip"
  shows "groups_ok ip \<and> length ip = 8"
  using assms parse6_loop_ok [of "[]" "Some 0" "drop 2 s" ip] parse6_loop_ok [of "[]" None s ip]
  by (auto simp: parse6_def numeral_eq_Suc split: if_splits)

lemma ParseIP_ok: "ParseIP s = Some ip \<Longrightarrow> ip_ok ip"
  by (auto simp: ParseIP_def ip_ok_def groups_ok_def
      dest!: parse6_ok parse4_fields_ok split: option.splits if_splits)

subsection \<open>The characters of a parsed address\<close>

definition ip_char :: "char \<Rightarrow> bool" where
  "ip_char c \<longleftrightarrow> is_hex c \<or> c = CHR '':'' \<or> c = CHR ''.''"

lemma Split_set: "c \<in> set s \<Longrightarrow> c = sep \<or> (\<exists>p \<in> set (Split sep s). c \<in> set p)"
proof (induction s)
  case (Cons d s)
  then show ?case by (cases "Split sep s") auto
qed simp

lemma digit_hex: "is_digit c \<Longrightarrow> is_hex c"
  by (auto simp: is_digit_def is_hex_def Let_def)

lemma octet_digits: "octet s = Some n \<Longrightarrow> c \<in> set s \<Longrightarrow> is_digit c"
  by (auto simp: octet_def list_all_iff split: if_splits)

lemma parse4_fields_chars:
  assumes "parse4_fields s = Some gs" "c \<in> set s"
  shows "ip_char c"
proof -
  have "\<forall>p \<in> set (Split CHR ''.'' s). octet p \<noteq> None"
  proof
    fix p assume "p \<in> set (Split CHR ''.'' s)"
    then have "octet p \<in> set (map octet (Split CHR ''.'' s))" by simp
    then show "octet p \<noteq> None"
      using assms(1) by (auto simp: parse4_fields_def simp del: set_map split: list.splits option.splits)
  qed
  moreover from assms(2) have "c = CHR ''.'' \<or> (\<exists>p \<in> set (Split CHR ''.'' s). c \<in> set p)"
    by (rule Split_set)
  ultimately show ?thesis
    by (auto simp: ip_char_def dest!: octet_digits digit_hex)
qed

lemma parse6_loop_chars:
  "parse6_loop gs ell s = Some ip \<Longrightarrow> c \<in> set s \<Longrightarrow> ip_char c"
proof (induction "8 - length gs" arbitrary: gs ell s rule: less_induct)
  case less
  note ret = less.prems(1)
  have hexes: "d \<in> set (takeWhile is_hex s) \<Longrightarrow> ip_char d" for d
    by (auto simp: ip_char_def dest: set_takeWhileD)
  have mem: "c \<in> set (takeWhile is_hex s) \<or> c \<in> set (dropWhile is_hex s)"
    using less.prems(2) by (metis set_append Un_iff takeWhile_dropWhile_id)
  show ?case
  proof (cases "8 \<le> length gs")
    case True
    then have "s = []"
      using ret by (subst (asm) parse6_loop.simps) (simp add: parse6_finish_def split: if_splits)
    with less.prems(2) show ?thesis by simp
  next
    case False
    show ?thesis
    proof (cases "dropWhile is_hex s")
      case Nil
      then have "c \<in> set (takeWhile is_hex s)"
        using mem by (simp only: list.set(1) empty_iff simp_thms)
      then show ?thesis by (rule hexes)
    next
      case (Cons d t)
      show ?thesis
      proof (cases "d = CHR ''.''")
        case True
        then obtain g2 where "parse4_fields s = Some g2"
          using ret False Cons
          by (subst (asm) parse6_loop.simps) (simp add: Let_def split: if_splits option.splits)
        then show ?thesis using less.prems(2) parse4_fields_chars by blast
      next
        case nopoint: False
        then obtain d' t' where t: "t = d' # t'" and d: "d = CHR '':''"
          using ret False Cons
          by (subst (asm) parse6_loop.simps) (simp add: Let_def split: if_splits list.splits)
        show ?thesis
        proof (cases "d' = CHR '':''")
          case True
          then have "t' = [] \<or> (\<exists>g e'. parse6_loop (gs @ [g]) e' t' = Some ip)"
            using ret False Cons nopoint t
            by (subst (asm) parse6_loop.simps) (auto simp add: Let_def split: if_splits)
          then have "c \<in> set t' \<Longrightarrow> ip_char c"
            using less.hyps [of "gs @ [_]" _ t'] False by auto
          then show ?thesis using mem hexes Cons t d True by (auto simp: ip_char_def)
        next
          case nocolon: False
          then have "\<exists>g. parse6_loop (gs @ [g]) ell t = Some ip"
            using ret False Cons nopoint t
            by (subst (asm) parse6_loop.simps) (auto simp add: Let_def split: if_splits)
          then have "c \<in> set t \<Longrightarrow> ip_char c"
            using less.hyps [of "gs @ [_]" ell t] False by auto
          then show ?thesis using mem hexes Cons d by (auto simp: ip_char_def)
        qed
      qed
    qed
  qed
qed

lemma ParseIP_chars:
  assumes "ParseIP s = Some ip" "c \<in> set s"
  shows "ip_char c"
proof (cases "HasPrefix s ''::''")
  case True
  then obtain t where s: "s = CHR '':'' # CHR '':'' # t"
    by (auto simp: HasPrefix_iff)
  then have "parse6 s = Some ip" using assms(1) by (simp add: ParseIP_def)
  then have "t = [] \<or> parse6_loop [] (Some 0) t = Some ip"
    using s by (auto simp: parse6_def HasPrefix_def split: if_splits)
  with assms(2) s show ?thesis by (auto simp: ip_char_def dest: parse6_loop_chars)
next
  case False
  with assms show ?thesis
    by (auto simp: ParseIP_def parse6_def dest: parse6_loop_chars parse4_fields_chars
        split: option.splits if_splits)
qed

lemma ip_char_no_space: "ip_char c \<Longrightarrow> \<not> is_space c"
  by (auto simp: ip_char_def is_space_def is_hex_def Let_def)

lemma TrimSpace_id: "(\<And>c. c \<in> set s \<Longrightarrow> \<not> is_space c) \<Longrightarrow> TrimSpace s = s"
proof -
  assume "\<And>c. c \<in> set s \<Longrightarrow> \<not> is_space c"
  then have "dropWhile is_space t = t" if "set t = set s" for t
    using that by (cases t) auto
  from this [of s] this [of "rev s"] show ?thesis by (simp add: TrimSpace_def)
qed

lemma ParseIP_TrimSpace: "ParseIP s = Some ip \<Longrightarrow> TrimSpace s = s"
  by (rule TrimSpace_id) (blast dest: ParseIP_chars ip_char_no_space)

lemma ParseIP_no_brackets:
  assumes "ParseIP s = Some ip"
  shows "CHR ''['' \<notin> set s" "CHR '']'' \<notin> set s"
  using ParseIP_chars [OF assms, of "CHR ''[''"] ParseIP_chars [OF assms, of "CHR '']''"]
  by (auto simp: ip_char_def)

end
