(* ===== verification/Pkg_Auth.thy ===== *)
theory Pkg_Auth
  imports Flowix_Http
begin

text \<open>
  \<open>pkg/middleware/auth.go\<close>: the JWT middlewares shared by the Go services.
  \<open>AuthMiddleware\<close> demands an access token, \<open>OptionalAuth\<close> uses one when it is there.
  The JWT library (\<open>golang-jwt\<close>) is not part of the repository: it is a parameter, a
  record of its two functions. The lemmas show that both middlewares and the HLS gate
  decide by one notion of identity, \<open>access_identity\<close>, and that a client cannot choose
  the identity that the services behind them see.
\<close>

text \<open>
  \<open>jwt_parse now secret token\<close> is \<open>jwt.Parse\<close> with the key function of the code and the
  options \<open>WithValidMethods(HS256)\<close> and \<open>WithExpirationRequired\<close>, at Unix time \<open>now\<close>: the
  claims, or \<open>None\<close> when it returns an error or a token that is not valid.
  \<open>jwt_sign secret claims\<close> is \<open>NewWithClaims(HS256, claims).SignedString(secret)\<close>.
\<close>

type_synonym claims = "string \<Rightarrow> json option"

record jwt =
  jwt_parse :: "int \<Rightarrow> string \<Rightarrow> string \<Rightarrow> claims option"
  jwt_sign :: "string \<Rightarrow> claims \<Rightarrow> go_error + string"

text \<open>
  What the code relies on of the library (its documentation): parsing a token signed with the
  same secret gives the signed claims while \<open>exp\<close> lies in the future, and an error after.
\<close>

definition jwt_roundtrip :: "jwt \<Rightarrow> bool" where
  "jwt_roundtrip J \<longleftrightarrow>
     (\<forall>now secret cl tok e.
        jwt_sign J secret cl = Inr tok \<and> cl ''exp'' = Some (JNum (Itoa e)) \<longrightarrow>
        jwt_parse J now secret tok = (if now < e then Some cl else None))"

text \<open>\<open>claims[k].(string)\<close> with the comma-ok form: absent or not a string gives the empty string.\<close>

definition claim_str :: "claims \<Rightarrow> string \<Rightarrow> string" where
  "claim_str cl k = (case cl k of Some (JStr s) \<Rightarrow> s | _ \<Rightarrow> [])"

definition UserIDFromCtx :: "request \<Rightarrow> string" where
  "UserIDFromCtx r = (case CtxUser r of Some v \<Rightarrow> v | None \<Rightarrow> [])"

definition AuthMiddleware ::
  "jwt \<Rightarrow> int \<Rightarrow> string \<Rightarrow> 'w handler \<Rightarrow> 'w handler" where
  "AuthMiddleware J now secret next r wh w =
     (let h = hget (ReqHeader r) ''Authorization'' in
      if h = [] \<or> \<not> HasPrefix h ''Bearer ''
      then (http_Error wh ''{\"error\":\"missing token\"}'' 401, w)
      else
        (case jwt_parse J now secret (TrimPrefix h ''Bearer '') of
           None \<Rightarrow> (http_Error wh ''{\"error\":\"invalid token\"}'' 401, w)
         | Some cl \<Rightarrow>
           let sub = claim_str cl ''sub'' in
           if sub = [] then (http_Error wh ''{\"error\":\"invalid token\"}'' 401, w)
           else if claim_str cl ''type'' \<noteq> ''access''
           then (http_Error wh ''{\"error\":\"invalid token type\"}'' 401, w)
           else next (r\<lparr>CtxUser := Some sub,
                        ReqHeader := hset (ReqHeader r) ''X-User-ID'' sub\<rparr>) wh w))"

definition OptionalAuth ::
  "jwt \<Rightarrow> int \<Rightarrow> string \<Rightarrow> 'w handler \<Rightarrow> 'w handler" where
  "OptionalAuth J now secret next r wh w =
     (let h = hget (ReqHeader r) ''Authorization'';
          r = r\<lparr>ReqHeader := hdel (ReqHeader r) ''X-User-ID''\<rparr> in
      if h = [] \<or> \<not> HasPrefix h ''Bearer '' then next r wh w
      else
        (case jwt_parse J now secret (TrimPrefix h ''Bearer '') of
           None \<Rightarrow> next r wh w
         | Some cl \<Rightarrow>
           if claim_str cl ''type'' \<noteq> ''access'' then next r wh w
           else let sub = claim_str cl ''sub'' in
             if sub \<noteq> []
             then next (r\<lparr>CtxUser := Some sub,
                          ReqHeader := hset (ReqHeader r) ''X-User-ID'' sub\<rparr>) wh w
             else next r wh w))"

subsection \<open>The identity of a request\<close>

text \<open>
  The abstract view: the identity a request proves is the non-empty subject of the valid
  access token in its \<open>Authorization\<close> header, if it has one.
\<close>

definition access_identity :: "jwt \<Rightarrow> int \<Rightarrow> string \<Rightarrow> header \<Rightarrow> string option" where
  "access_identity J now secret h =
     (if HasPrefix (hget h ''Authorization'') ''Bearer ''
      then case jwt_parse J now secret (TrimPrefix (hget h ''Authorization'') ''Bearer '') of
             Some cl \<Rightarrow>
               if claim_str cl ''type'' = ''access'' \<and> claim_str cl ''sub'' \<noteq> []
               then Some (claim_str cl ''sub'') else None
           | None \<Rightarrow> None
      else None)"

definition with_identity :: "string \<Rightarrow> request \<Rightarrow> request" where
  "with_identity sub r =
     r\<lparr>CtxUser := Some sub, ReqHeader := hset (ReqHeader r) ''X-User-ID'' sub\<rparr>"

lemma not_HasPrefix_Nil [simp]: "\<not> HasPrefix [] ''Bearer ''"
  by (simp add: HasPrefix_def)

lemma HasPrefix_Bearer_nonempty: "HasPrefix h ''Bearer '' \<Longrightarrow> h \<noteq> []"
  by auto

lemma hset_hset [simp]: "hset (hset h k v) k v' = hset h k v'"
  by (simp add: hset_def)

lemma hdel_hset [simp]: "hdel (hset h k v) k = hdel h k"
  by (simp add: hset_def hdel_def)

lemma hset_hdel [simp]: "hset (hdel h k) k v = hset h k v"
  by (simp add: hset_def hdel_def)

lemma access_identity_nonempty: "access_identity J now secret h = Some sub \<Longrightarrow> sub \<noteq> []"
  by (auto simp: access_identity_def split: if_splits option.splits)

text \<open>\<open>AuthMiddleware\<close> lets exactly the requests with an identity through.\<close>

lemma AuthMiddleware_Some:
  assumes "access_identity J now secret (ReqHeader r) = Some sub"
  shows "AuthMiddleware J now secret next r wh w = next (with_identity sub r) wh w"
  using assms
  by (auto simp: AuthMiddleware_def access_identity_def with_identity_def Let_def
           dest: HasPrefix_Bearer_nonempty split: if_splits option.splits)

lemma AuthMiddleware_None:
  assumes "access_identity J now secret (ReqHeader r) = None"
  shows "\<exists>msg. AuthMiddleware J now secret next r wh w = (http_Error wh msg 401, w)"
  using assms
  by (auto simp: AuthMiddleware_def access_identity_def Let_def
           dest: HasPrefix_Bearer_nonempty split: if_splits option.splits)

lemma OptionalAuth_Some:
  assumes "access_identity J now secret (ReqHeader r) = Some sub"
  shows "OptionalAuth J now secret next r wh w = next (with_identity sub r) wh w"
  using assms
  by (auto simp: OptionalAuth_def access_identity_def with_identity_def Let_def
           dest: HasPrefix_Bearer_nonempty split: if_splits option.splits)

lemma OptionalAuth_None:
  assumes "access_identity J now secret (ReqHeader r) = None"
  shows "OptionalAuth J now secret next r wh w
           = next (r\<lparr>ReqHeader := hdel (ReqHeader r) ''X-User-ID''\<rparr>) wh w"
  using assms
  by (auto simp: OptionalAuth_def access_identity_def Let_def split: if_splits option.splits)

text \<open>What runs behind either middleware.\<close>

lemma AuthMiddleware_cases:
  assumes "AuthMiddleware J now secret next r wh w = (res, w')"
  obtains (refused) msg where "access_identity J now secret (ReqHeader r) = None" "res = http_Error wh msg 401" "w' = w"
  | (passed) sub where "access_identity J now secret (ReqHeader r) = Some sub" "next (with_identity sub r) wh w = (res, w')"
proof (cases "access_identity J now secret (ReqHeader r)")
  case None
  then show thesis using AuthMiddleware_None [OF None, of "next" wh w] assms refused by auto
next
  case (Some sub)
  then show thesis using AuthMiddleware_Some [OF Some, of "next" wh w] assms passed by simp
qed

text \<open>\<open>OptionalAuth\<close> always runs the handler, on a request that differs in the identity only.\<close>

lemma OptionalAuth_forwards:
  obtains r1 where "OptionalAuth J now secret next r wh w = next r1 wh w" "URLPath r1 = URLPath r" "Method r1 = Method r"
    "\<And>k. k \<noteq> ''X-User-Id'' \<Longrightarrow> ReqHeader r1 k = ReqHeader r k"
proof (cases "access_identity J now secret (ReqHeader r)")
  case None
  show thesis by (rule that [OF OptionalAuth_None [OF None]]) (simp_all add: hdel_def)
next
  case (Some sub)
  show thesis by (rule that [OF OptionalAuth_Some [OF Some]]) (simp_all add: with_identity_def hset_def)
qed

lemma access_identity_hset [simp]:
  "access_identity J now secret (hset h ''X-User-ID'' v) = access_identity J now secret h"
  by (simp add: access_identity_def)

end
