(* ===== verification/Pkg_Server.thy ===== *)
theory Pkg_Server
  imports Go_Net Pkg_Auth
begin

text \<open>
  What every Go service starts with: the request log (\<open>pkg/middleware/logger.go\<close>), the server's
  timeouts and its graceful shutdown (\<open>pkg/httpserver/server.go\<close>), the set-up of the log
  (\<open>pkg/logger/logger.go\<close>) and the request counter (\<open>pkg/metrics/metrics.go\<close>). The log, the
  clock and the parsers of durations and levels are parameters.
\<close>

subsection \<open>The request log\<close>

datatype log_level = LInfo | LWarn | LError

record log_line =
  lg_level :: log_level
  lg_method :: string
  lg_path :: string
  lg_status :: nat
  lg_duration :: int
  lg_ip :: string
  lg_trace_id :: string
  lg_service :: string

text \<open>\<open>middleware.ClientIP\<close> of \<open>pkg\<close>: the address of the log.\<close>

definition log_ClientIP :: "request \<Rightarrow> string" where
  "log_ClientIP r =
     (let xri = TrimSpace (hget (ReqHeader r) ''X-Real-IP'') in
      if xri \<noteq> [] \<and> ParseIP xri \<noteq> None then xri
      else (case SplitHostPort (RemoteAddr r) of None \<Rightarrow> RemoteAddr r | Some (host, _) \<Rightarrow> host))"

text \<open>The id of the request: chi's, else the first of three headers that is there.\<close>

definition request_id :: "string \<Rightarrow> header \<Rightarrow> string" where
  "request_id ctxID h =
     (let reqID = ctxID;
          reqID = (if reqID = [] then hget h ''X-Request-ID'' else reqID);
          reqID = (if reqID = [] then hget h ''X-Request-Id'' else reqID)
      in if reqID = [] then hget h ''X-Correlation-ID'' else reqID)"

definition level_of :: "nat \<Rightarrow> log_level" where
  "level_of status = (if 500 \<le> status then LError else if 400 \<le> status then LWarn else LInfo)"

text \<open>
  \<open>getReqID\<close> is \<open>chimw.GetReqID\<close> of the request's context, \<open>dur\<close> the time the handler took and
  \<open>emit\<close> the write to the log. A response has the status that its handler wrote, 200 when it
  wrote none.
\<close>

definition RequestLogger ::
  "string \<Rightarrow> (request \<Rightarrow> string) \<Rightarrow> int \<Rightarrow> (log_line \<Rightarrow> 'w \<Rightarrow> 'w) \<Rightarrow> 'w handler \<Rightarrow> 'w handler" where
  "RequestLogger service getReqID dur emit next r wh w =
     (let reqID = request_id (getReqID r) (ReqHeader r);
          r = (if reqID \<noteq> [] then r\<lparr>ReqHeader := hset (ReqHeader r) ''X-Request-ID'' reqID\<rparr> else r);
          wh = (if reqID \<noteq> [] then hset wh ''X-Request-Id'' reqID else wh);
          (res, w) = next r wh w
      in (res, emit \<lparr>lg_level = level_of (Status res), lg_method = Method r, lg_path = URLPath r,
                lg_status = Status res, lg_duration = dur, lg_ip = log_ClientIP r, lg_trace_id = reqID,
                lg_service = service\<rparr> w))"

subsection \<open>The server\<close>

text \<open>Durations are in nanoseconds; 0 means no limit.\<close>

definition DefaultReadHeaderTimeout :: int where "DefaultReadHeaderTimeout = 15 * 1000000000"

definition DefaultReadTimeout :: int where "DefaultReadTimeout = 15 * 1000000000"

definition DefaultWriteTimeout :: int where "DefaultWriteTimeout = 60 * 1000000000"

definition DefaultIdleTimeout :: int where "DefaultIdleTimeout = 120 * 1000000000"

definition DefaultShutdownGrace :: int where "DefaultShutdownGrace = 30 * 1000000000"

record Timeouts =
  ReadHeaderTimeout :: int
  ReadTimeout :: int
  WriteTimeout :: int
  IdleTimeout :: int
  ShutdownGrace :: int

definition Defaults :: Timeouts where
  "Defaults =
     \<lparr>ReadHeaderTimeout = DefaultReadHeaderTimeout, ReadTimeout = DefaultReadTimeout,
      WriteTimeout = DefaultWriteTimeout, IdleTimeout = DefaultIdleTimeout,
      ShutdownGrace = DefaultShutdownGrace\<rparr>"

definition Streaming :: Timeouts where
  "Streaming =
     \<lparr>ReadHeaderTimeout = DefaultReadHeaderTimeout, ReadTimeout = 0, WriteTimeout = 0,
      IdleTimeout = DefaultIdleTimeout, ShutdownGrace = DefaultShutdownGrace\<rparr>"

record 'w http_Server =
  srv_Addr :: string
  srv_Handler :: "'w handler"
  srv_ReadHeaderTimeout :: int
  srv_ReadTimeout :: int
  srv_WriteTimeout :: int
  srv_IdleTimeout :: int

definition newServer :: "string \<Rightarrow> 'w handler \<Rightarrow> Timeouts \<Rightarrow> 'w http_Server" where
  "newServer addr h t =
     \<lparr>srv_Addr = addr, srv_Handler = h, srv_ReadHeaderTimeout = ReadHeaderTimeout t,
      srv_ReadTimeout = ReadTimeout t, srv_WriteTimeout = WriteTimeout t, srv_IdleTimeout = IdleTimeout t\<rparr>"

text \<open>The grace period: that of \<open>t\<close>, or the environment's when it is a positive duration.\<close>

definition run_timeouts :: "(string \<Rightarrow> int option) \<Rightarrow> (string \<Rightarrow> string) \<Rightarrow> Timeouts \<Rightarrow> Timeouts" where
  "run_timeouts ParseDuration getenv t =
     (let t = (if ShutdownGrace t \<le> 0 then t\<lparr>ShutdownGrace := DefaultShutdownGrace\<rparr> else t);
          v = getenv ''SHUTDOWN_GRACE''
      in if v \<noteq> [] then (case ParseDuration v of
            Some d \<Rightarrow> if 0 < d then t\<lparr>ShutdownGrace := d\<rparr> else t
          | None \<Rightarrow> t)
         else t)"

text \<open>
  \<open>Run\<close> waits for one of two things: an error of \<open>ListenAndServe\<close> other than \<open>ErrServerClosed\<close>, or
  a signal, after which \<open>shutdown\<close>, given the server and the time it has, ends the requests in
  flight. The result is the returned error.
\<close>

datatype server_event = Listen_error go_error | Quit_signal

definition server_Run ::
  "(string \<Rightarrow> int option) \<Rightarrow> (string \<Rightarrow> string) \<Rightarrow> ('w http_Server \<Rightarrow> int \<Rightarrow> go_error option) \<Rightarrow>
   server_event \<Rightarrow> string \<Rightarrow> 'w handler \<Rightarrow> Timeouts \<Rightarrow> go_error option" where
  "server_Run ParseDuration getenv shutdown ev addr h t =
     (let t = run_timeouts ParseDuration getenv t;
          srv = newServer addr h t
      in case ev of
           Listen_error err \<Rightarrow> Some err
         | Quit_signal \<Rightarrow>
             (case shutdown srv (ShutdownGrace t) of
                Some err \<Rightarrow> Some (wrapf ''graceful shutdown'' err) | None \<Rightarrow> None))"

text \<open>The grace period is positive, whatever the caller and the environment say.\<close>

lemma run_timeouts_grace: "0 < ShutdownGrace (run_timeouts P getenv t)"
  by (auto simp: run_timeouts_def DefaultShutdownGrace_def Let_def split: option.split)

lemma run_timeouts_rest:
  "ReadHeaderTimeout (run_timeouts P getenv t) = ReadHeaderTimeout t"
  "ReadTimeout (run_timeouts P getenv t) = ReadTimeout t"
  "WriteTimeout (run_timeouts P getenv t) = WriteTimeout t"
  "IdleTimeout (run_timeouts P getenv t) = IdleTimeout t"
  by (auto simp: run_timeouts_def Let_def split: option.split)

text \<open>\<open>Run\<close> returns nil only for a shutdown in which every request in flight was served in time.\<close>

lemma server_Run_nil:
  "server_Run P getenv shutdown ev addr h t = None \<longleftrightarrow>
     ev = Quit_signal \<and>
     shutdown (newServer addr h (run_timeouts P getenv t)) (ShutdownGrace (run_timeouts P getenv t)) = None"
  by (auto simp: server_Run_def Let_def split: server_event.split option.split)

subsection \<open>The set-up of the log\<close>

text \<open>The writer, the global level (zerolog's numbers, \<open>info\<close> is 1) and the service's tag.\<close>

record log_config =
  lc_console :: bool
  lc_level :: int
  lc_service :: string

definition InfoLevel :: int where "InfoLevel = 1"

definition logger_Setup :: "(string \<Rightarrow> int option) \<Rightarrow> (string \<Rightarrow> string) \<Rightarrow> string \<Rightarrow> log_config" where
  "logger_Setup ParseLevel getenv service =
     \<lparr>lc_console = (ToLower (getenv ''LOG_FORMAT'') = ''console'' \<or> getenv ''ENV'' = ''dev''),
      lc_level = (let lvl = getenv ''LOG_LEVEL'' in
        if lvl \<noteq> [] then (case ParseLevel lvl of Some l \<Rightarrow> l | None \<Rightarrow> InfoLevel) else InfoLevel),
      lc_service = service\<rparr>"

subsection \<open>The counter of requests\<close>

text \<open>\<open>inc\<close> is \<open>VodCacheHit.Inc\<close>.\<close>

definition metrics_Middleware :: "('w \<Rightarrow> 'w) \<Rightarrow> 'w handler \<Rightarrow> 'w handler" where
  "metrics_Middleware inc next r wh w = next r wh (inc w)"

subsection \<open>The environment\<close>

text \<open>\<open>requireEnv\<close> of the three \<open>main.go\<close>: \<open>Inl\<close> is the fatal message.\<close>

definition requireEnv :: "(string \<Rightarrow> string) \<Rightarrow> string \<Rightarrow> go_error + string" where
  "requireEnv getenv k =
     (let v = getenv k in
      if v = [] \<and> getenv ''ENV'' \<noteq> ''dev''
      then Inl (Err (''required environment variable '' @ k @ '' is empty'')) else Inr v)"

definition envOr :: "(string \<Rightarrow> string) \<Rightarrow> string \<Rightarrow> string \<Rightarrow> string" where
  "envOr getenv k def = (let v = getenv k in if v \<noteq> [] then v else def)"

subsection \<open>What the log says\<close>

lemma request_id_headers:
  "request_id ctxID h = (if ctxID \<noteq> [] then ctxID else if hget h ''X-Request-ID'' \<noteq> [] then hget h ''X-Request-ID''
     else hget h ''X-Correlation-ID'')"
  by (auto simp: request_id_def Let_def hget_def)

text \<open>The request as the logger passes it on.\<close>

definition logged_request :: "(request \<Rightarrow> string) \<Rightarrow> request \<Rightarrow> request" where
  "logged_request getReqID r =
     (let reqID = request_id (getReqID r) (ReqHeader r)
      in if reqID \<noteq> [] then r\<lparr>ReqHeader := hset (ReqHeader r) ''X-Request-ID'' reqID\<rparr> else r)"

definition logged_header :: "(request \<Rightarrow> string) \<Rightarrow> request \<Rightarrow> header \<Rightarrow> header" where
  "logged_header getReqID r wh =
     (let reqID = request_id (getReqID r) (ReqHeader r) in if reqID \<noteq> [] then hset wh ''X-Request-Id'' reqID else wh)"

lemma log_ClientIP_eqI:
  assumes "RemoteAddr r' = RemoteAddr r" "hget (ReqHeader r') ''X-Real-IP'' = hget (ReqHeader r) ''X-Real-IP''"
  shows "log_ClientIP r' = log_ClientIP r"
  unfolding log_ClientIP_def assms ..

lemma logged_request_simps [simp]:
  "log_ClientIP (logged_request getReqID r) = log_ClientIP r"
  "Method (logged_request getReqID r) = Method r" "URLPath (logged_request getReqID r) = URLPath r"
  by (rule log_ClientIP_eqI; simp add: logged_request_def Let_def) (simp_all add: logged_request_def Let_def)

lemma RequestLogger_run:
  assumes "next (logged_request getReqID r) (logged_header getReqID r wh) w = (res, w1)"
  shows "RequestLogger service getReqID dur emit next r wh w =
    (res, emit \<lparr>lg_level = level_of (Status res), lg_method = Method r, lg_path = URLPath r, lg_status = Status res,
      lg_duration = dur, lg_ip = log_ClientIP r, lg_trace_id = request_id (getReqID r) (ReqHeader r),
      lg_service = service\<rparr> w1)"
proof -
  let ?line = "\<lambda>res. \<lparr>lg_level = level_of (Status res), lg_method = Method (logged_request getReqID r),
      lg_path = URLPath (logged_request getReqID r), lg_status = Status res, lg_duration = dur,
      lg_ip = log_ClientIP (logged_request getReqID r), lg_trace_id = request_id (getReqID r) (ReqHeader r),
      lg_service = service\<rparr>"
  have "RequestLogger service getReqID dur emit next r wh w =
    (case next (logged_request getReqID r) (logged_header getReqID r wh) w of (res, w) \<Rightarrow> (res, emit (?line res) w))"
    unfolding RequestLogger_def logged_request_def logged_header_def Let_def ..
  then show ?thesis using assms by simp
qed

end
