(* ===== verification/Gw_Cors.thy ===== *)
theory Gw_Cors
  imports Flowix_Http
begin

text \<open>
  \<open>services/gateway/internal/middleware/cors.go\<close>: the CORS middleware. The lemmas show that a
  browser is only ever told that an origin of the configured list is allowed, that the wildcard
  is never sent, and that a preflight never reaches the handlers behind it.
\<close>

subsection \<open>Operations\<close>

text \<open>\<open>join\<close>: the separator before every element but the first.\<close>

fun join_from :: "nat \<Rightarrow> string list \<Rightarrow> string \<Rightarrow> string \<Rightarrow> string" where
  "join_from i [] sep b = b"
| "join_from i (e # es) sep b = join_from (i + 1) es sep ((if 0 < i then b @ sep else b) @ e)"

definition join :: "string list \<Rightarrow> string \<Rightarrow> string" where
  "join elems sep = (if elems = [] then [] else join_from 0 elems sep [])"

definition default_methods :: "string list" where
  "default_methods = [''GET'', ''POST'', ''PUT'', ''PATCH'', ''DELETE'', ''OPTIONS'', ''HEAD'']"

definition default_headers :: "string list" where
  "default_headers =
     [''Authorization'', ''Content-Type'', ''Accept'', ''Origin'', ''X-Requested-With'', ''Range'']"

text \<open>The set of the origins that count: neither empty nor the wildcard.\<close>

definition allowed_set :: "string list \<Rightarrow> string list" where
  "allowed_set origins = filter (\<lambda>o'. o' \<noteq> [] \<and> o' \<noteq> ''*'') origins"

definition CORS ::
  "string list \<Rightarrow> string list \<Rightarrow> string list \<Rightarrow> 'w handler \<Rightarrow> 'w handler" where
  "CORS allowedOrigins allowedMethods allowedHeaders next r wh w =
     (let allowedMethods = (if allowedMethods = [] then default_methods else allowedMethods);
          allowedHeaders = (if allowedHeaders = [] then default_headers else allowedHeaders);
          allowed = allowed_set allowedOrigins;
          methodsVal = join allowedMethods '', '';
          headersVal = join allowedHeaders '', '';
          origin = hget (ReqHeader r) ''Origin''
      in if origin = [] then
           (if Method r = ''OPTIONS'' then
              (WriteHeader (hset (hset wh ''Access-Control-Allow-Methods'' methodsVal)
                 ''Access-Control-Allow-Headers'' headersVal) 204, w)
            else next r wh w)
         else
           (let wh = hset wh ''Vary'' ''Origin'';
                wh = (if origin \<in> set allowed then
                        hset (hset (hset (hset (hset (hset wh
                          ''Access-Control-Allow-Origin'' origin)
                          ''Access-Control-Allow-Credentials'' ''true'')
                          ''Access-Control-Allow-Methods'' methodsVal)
                          ''Access-Control-Allow-Headers'' headersVal)
                          ''Access-Control-Max-Age'' ''86400'')
                          ''Access-Control-Expose-Headers''
                            ''Content-Length, Content-Range, Content-Type, X-Request-Id''
                      else wh)
            in if Method r = ''OPTIONS'' then (WriteHeader wh 204, w) else next r wh w))"

subsection \<open>What the browser is told\<close>

text \<open>The separator is put between the elements.\<close>

lemma join_from_eq: "0 < i \<Longrightarrow> join_from i es sep b = b @ concat (map (\<lambda>e. sep @ e) es)"
  by (induction es arbitrary: i b) auto

lemma join_eq: "join (e # es) sep = e @ concat (map (\<lambda>e. sep @ e) es)"
  by (simp add: join_def join_from_eq)

text \<open>A handler that answers with the headers set before it, to observe what a middleware adds.\<close>

definition echo_handler :: "'w handler" where
  "echo_handler r wh w = (WriteHeader wh 200, w)"

text \<open>C31: whatever the configuration and the request, on a response that had no CORS headers the
  allowed origin is either absent or the request's own origin, and then that origin is in the
  configured list; so the wildcard is never sent, not even when the list contains it, and the
  credentials flag is there exactly when an origin is.\<close>

theorem CORS_origin:
  assumes "hget wh ''Access-Control-Allow-Origin'' = []" "hget wh ''Access-Control-Allow-Credentials'' = []"
  shows "let res = fst (CORS os ms hs echo_handler r wh w); h = RespHeader res;
             acao = hget h ''Access-Control-Allow-Origin'' in
           (acao \<noteq> [] \<longleftrightarrow> hget (ReqHeader r) ''Origin'' \<in> set os - {[], ''*''}) \<and>
           acao \<in> {[], hget (ReqHeader r) ''Origin''} \<and> acao \<noteq> ''*'' \<and>
           hget h ''Access-Control-Allow-Credentials'' = (if acao = [] then [] else ''true'')"
  using assms
  by (auto simp: CORS_def allowed_set_def echo_handler_def Let_def)

lemma CORS_origin_witness:
  "hget (RespHeader (fst (CORS [''https://a.example'', ''*''] [] [] echo_handler
      (blank_request\<lparr>ReqHeader := hset no_header ''Origin'' ''*''\<rparr>) no_header ())))
      ''Access-Control-Allow-Origin'' = []"
  using CORS_origin [of no_header "[''https://a.example'', ''*'']" "[]" "[]"
      "blank_request\<lparr>ReqHeader := hset no_header ''Origin'' ''*''\<rparr>" "()"]
  by (simp add: Let_def)

text \<open>A preflight (or any \<open>OPTIONS\<close>) is answered by the middleware itself with 204, whatever
  is behind it, and every other request reaches the handler behind it, allowed origin or not,
  with the world untouched.\<close>

theorem CORS_preflight:
  "if Method r = ''OPTIONS''
   then Status (fst (CORS os ms hs next r wh w)) = 204 \<and> snd (CORS os ms hs next r wh w) = w
   else \<exists>wh'. CORS os ms hs next r wh w = next r wh' w"
  by (auto simp: CORS_def Let_def)

end
