(* ===== verification/Gw_ClientIP.thy ===== *)
theory Gw_ClientIP
  imports Go_Net
begin

text \<open>
  \<open>services/gateway/internal/middleware/clientip.go\<close>: the address of the client of a
  request. A forwarding header is believed only from a peer inside the configured networks.
  The lemmas show that a header never matters for an untrusted peer, that text put in front of
  an \<open>X-Forwarded-For\<close> value cannot change the result, and that the address is the same
  before and after the \<open>RealIP\<close> middleware has rewritten the request, which is what makes
  the rate limiter key on it.
\<close>

subsection \<open>Operations\<close>

fun parse_trusted_parts :: "string list \<Rightarrow> go_error + ipnet list" where
  "parse_trusted_parts [] = Inr []"
| "parse_trusted_parts (p # ps) =
     (let part = TrimSpace p in
      if part = [] then parse_trusted_parts ps
      else
        let part = (if CHR ''/'' \<notin> set part
                    then part @ (case ParseIP part of
                                   Some ip \<Rightarrow> if \<not> is4 ip then ''/128'' else ''/32''
                                 | None \<Rightarrow> ''/32'')
                    else part)
        in (case ParseCIDR part of
              Inl e \<Rightarrow> Inl e
            | Inr n \<Rightarrow> (case parse_trusted_parts ps of Inl e \<Rightarrow> Inl e | Inr ns \<Rightarrow> Inr (n # ns))))"

definition ParseTrustedCIDRS :: "string \<Rightarrow> go_error + ipnet list" where
  "ParseTrustedCIDRS s =
     (if TrimSpace s = [] then Inr [] else parse_trusted_parts (Split CHR '','' s))"

definition remoteHost :: "request \<Rightarrow> string" where
  "remoteHost r = (case SplitHostPort (RemoteAddr r) of Some (host, _) \<Rightarrow> host | None \<Rightarrow> RemoteAddr r)"

definition isTrustedIP :: "string \<Rightarrow> ipnet list \<Rightarrow> bool" where
  "isTrustedIP ipStr trusted =
     (case ParseIP ipStr of None \<Rightarrow> False
      | Some ip \<Rightarrow> list_ex (\<lambda>n. net_contains n ip) trusted)"

text \<open>The loop of \<open>rightmostUntrusted\<close>, over the parts from right to left.\<close>

fun rightmost_loop :: "ipnet list \<Rightarrow> string list \<Rightarrow> string \<Rightarrow> string" where
  "rightmost_loop trusted [] leftmost = leftmost"
| "rightmost_loop trusted (part # parts) leftmost =
     (let p = TrimSpace part in
      case ParseIP p of None \<Rightarrow> rightmost_loop trusted parts leftmost
      | Some ip \<Rightarrow>
        let leftmost = (if leftmost = [] then IPString ip else leftmost) in
        if \<not> isTrustedIP p trusted then IPString ip
        else rightmost_loop trusted parts leftmost)"

definition rightmostUntrusted :: "string \<Rightarrow> ipnet list \<Rightarrow> string" where
  "rightmostUntrusted xff trusted = rightmost_loop trusted (rev (Split CHR '','' xff)) []"

definition ClientIP :: "request \<Rightarrow> ipnet list \<Rightarrow> string" where
  "ClientIP r trusted =
     (let peer = remoteHost r in
      if \<not> isTrustedIP peer trusted then peer
      else
        let xff = hget (ReqHeader r) ''X-Forwarded-For'';
            ip = (if xff \<noteq> [] then rightmostUntrusted xff trusted else []) in
        if ip \<noteq> [] then ip
        else
          let xri = TrimSpace (hget (ReqHeader r) ''X-Real-IP'') in
          if xri \<noteq> [] \<and> ParseIP xri \<noteq> None then xri else peer)"

text \<open>The request as \<open>RealIP\<close> passes it on.\<close>

definition real_ip_request :: "ipnet list \<Rightarrow> request \<Rightarrow> request" where
  "real_ip_request trusted r =
     (let ip = ClientIP r trusted;
          port = (case SplitHostPort (RemoteAddr r) of
                    Some (_, p) \<Rightarrow> if p \<noteq> [] then p else ''0'' | None \<Rightarrow> ''0'')
      in r\<lparr>RemoteAddr := JoinHostPort ip port, ReqHeader := hset (ReqHeader r) ''X-Real-IP'' ip\<rparr>)"

definition RealIP :: "ipnet list \<Rightarrow> 'w handler \<Rightarrow> 'w handler" where
  "RealIP trusted next r wh w = next (real_ip_request trusted r) wh w"

subsection \<open>What the loop over the header computes\<close>

text \<open>The addresses of a header value, and the trust of an address rather than of its text.\<close>

definition xff_ips :: "string \<Rightarrow> ipaddr list" where
  "xff_ips xff = List.map_filter (\<lambda>p. ParseIP (TrimSpace p)) (Split CHR '','' xff)"

definition trusts :: "ipnet list \<Rightarrow> ipaddr \<Rightarrow> bool" where
  "trusts trusted ip = list_ex (\<lambda>n. net_contains n ip) trusted"

lemma isTrustedIP_parse: "ParseIP s = Some ip \<Longrightarrow> isTrustedIP s trusted = trusts trusted ip"
  by (simp add: isTrustedIP_def trusts_def)

lemma isTrustedIP_IPString: "ip_ok ip \<Longrightarrow> isTrustedIP (IPString ip) trusted = trusts trusted ip"
  by (simp add: isTrustedIP_parse ParseIP_IPString)

lemma parsed_nonempty: "ParseIP s = Some ip \<Longrightarrow> IPString ip \<noteq> []"
  using IPString_nonempty [of ip] ParseIP_ok [of s ip] by (cases ip) (auto simp: ip_ok_def)

lemma rightmost_loop_eq:
  "rightmost_loop trusted parts lm =
     (let ips = List.map_filter (\<lambda>p. ParseIP (TrimSpace p)) parts in
      case filter (\<lambda>ip. \<not> trusts trusted ip) ips of
        ip # _ \<Rightarrow> IPString ip
      | [] \<Rightarrow> if lm \<noteq> [] then lm else (case ips of [] \<Rightarrow> [] | ip # _ \<Rightarrow> IPString ip))"
proof (induction parts arbitrary: lm)
  case Nil
  then show ?case by (simp add: List.map_filter_def)
next
  case (Cons p parts)
  show ?case
  proof (cases "ParseIP (TrimSpace p)")
    case None
    with Cons show ?thesis by (simp add: List.map_filter_def)
  next
    case (Some ip)
    with Cons parsed_nonempty [OF Some] show ?thesis
      by (auto simp: List.map_filter_def isTrustedIP_parse Let_def split: list.splits)
  qed
qed

lemma map_filter_rev: "List.map_filter f (rev xs) = rev (List.map_filter f xs)"
  by (simp add: List.map_filter_def rev_map flip: rev_filter)

text \<open>
  The result is the last address of the header outside the trusted networks; when every
  address is trusted it is the last one.
\<close>

lemma rightmostUntrusted_spec:
  "rightmostUntrusted xff trusted =
     (case filter (\<lambda>ip. \<not> trusts trusted ip) (rev (xff_ips xff)) of
        ip # _ \<Rightarrow> IPString ip
      | [] \<Rightarrow> (case rev (xff_ips xff) of [] \<Rightarrow> [] | ip # _ \<Rightarrow> IPString ip))"
  unfolding rightmostUntrusted_def rightmost_loop_eq xff_ips_def map_filter_rev Let_def by simp

lemma Split_append_sep: "Split sep (s @ sep # t) = Split sep s @ Split sep t"
proof (induction s)
  case (Cons c s)
  then show ?case by (cases "Split sep s") auto
qed simp

lemma xff_ips_append: "xff_ips (s @ CHR '','' # t) = xff_ips s @ xff_ips t"
  by (simp add: xff_ips_def Split_append_sep List.map_filter_def)

subsection \<open>The rewritten request\<close>

lemma IndexByte_Some:
  "IndexByte s c = Some i \<Longrightarrow> i < length s \<and> s ! i = c \<and> c \<notin> set (take i s)"
  by (induction s arbitrary: i) (auto split: if_splits)

lemma LastIndexByte_Some:
  assumes "LastIndexByte s c = Some i"
  shows "i < length s" "c \<notin> set (drop (i + 1) s)"
proof -
  obtain j where j: "IndexByte (rev s) c = Some j" and i: "i = length s - 1 - j"
    using assms by (auto simp: LastIndexByte_def)
  from IndexByte_Some [OF j] have b: "j < length s" "c \<notin> set (take j (rev s))" by auto
  have "take j (rev s) = rev (drop (length s - j) s)"
    by (simp add: take_rev)
  moreover have "length s - j = i + 1" using b i by simp
  ultimately show "c \<notin> set (drop (i + 1) s)" "i < length s" using b i by auto
qed

lemma SplitHostPort_parts:
  assumes "SplitHostPort hp = Some (host, port)"
  shows "CHR ''['' \<notin> set host" "CHR '']'' \<notin> set host"
    "CHR '':'' \<notin> set port" "CHR ''['' \<notin> set port" "CHR '']'' \<notin> set port"
proof -
  obtain i where i: "LastIndexByte hp CHR '':'' = Some i"
    using assms by (auto simp: SplitHostPort_def split: option.splits)
  have sub: "set (take n xs) \<subseteq> set xs" "set (drop n xs) \<subseteq> set xs" for n and xs :: string
    by (auto dest: in_set_takeD in_set_dropD)
  have p: "port = drop (i + 1) hp"
    using assms i by (auto simp: SplitHostPort_def split: option.splits if_splits)
  with LastIndexByte_Some [OF i] show "CHR '':'' \<notin> set port" by simp
  show "CHR ''['' \<notin> set host" "CHR '']'' \<notin> set host" "CHR ''['' \<notin> set port" "CHR '']'' \<notin> set port"
  proof -
    have "CHR ''['' \<notin> set host \<and> CHR '']'' \<notin> set host \<and> CHR ''['' \<notin> set port \<and> CHR '']'' \<notin> set port"
    proof (cases "hp ! 0 = CHR ''[''")
      case False
      then have "host = take i hp" "CHR ''['' \<notin> set hp" "CHR '']'' \<notin> set hp"
        using assms i by (auto simp: SplitHostPort_def split: if_splits)
      with p sub show ?thesis by blast
    next
      case True
      note br = assms [unfolded SplitHostPort_def i option.case if_P [OF True]]
      then obtain e where e1: "IndexByte hp CHR '']'' = Some e"
        by (cases "IndexByte hp CHR '']''") simp_all
      note br = br [unfolded e1 option.case]
      have e: "IndexByte hp CHR '']'' = Some e" "i = e + 1"
        using br e1 by (simp_all split: if_split_asm)
      have h: "host = take (e - 1) (drop 1 hp)"
        using br by (simp split: if_split_asm)
      have n: "CHR ''['' \<notin> set (drop 1 hp)" "CHR '']'' \<notin> set (drop (e + 1) hp)"
        using br by (simp_all split: if_split_asm)
      have "host = drop 1 (take e hp)" unfolding h by (rule drop_take [symmetric])
      then have "set host \<subseteq> set (take e hp)" by (simp only: sub)
      moreover have "set host \<subseteq> set (drop 1 hp)" unfolding h by (rule sub)
      moreover have "set port \<subseteq> set (drop (e + 1) hp)" "set port \<subseteq> set (drop 1 hp)"
        unfolding p e(2) by (rule set_drop_subset_set_drop; simp)+
      moreover have "CHR '']'' \<notin> set (take e hp)" using IndexByte_Some [OF e(1)] by simp
      ultimately show ?thesis using n by blast
    qed
    then show "CHR ''['' \<notin> set host" "CHR '']'' \<notin> set host" "CHR ''['' \<notin> set port"
      "CHR '']'' \<notin> set port" by auto
  qed
qed

subsection \<open>A bare address trusts itself\<close>

lemma ip_val_snoc: "ip_val (gs @ [g]) = ip_val gs * 65536 + g"
  by (simp add: ip_val_def)

lemma ip_val_inj:
  "groups_ok xs \<Longrightarrow> groups_ok ys \<Longrightarrow> length xs = length ys \<Longrightarrow> ip_val xs = ip_val ys \<Longrightarrow> xs = ys"
proof (induction xs arbitrary: ys rule: rev_induct)
  case (snoc x xs)
  then obtain y zs where ys: "ys = zs @ [y]"
    by (cases ys rule: rev_cases) auto
  have xy: "0 \<le> x" "x < 65536" "0 \<le> y" "y < 65536" and e: "ip_val xs * 65536 + x = ip_val zs * 65536 + y"
    using snoc.prems ys by (auto simp: ip_val_snoc)
  have "(ip_val xs * 65536 + x) mod 65536 = x" "(ip_val zs * 65536 + y) mod 65536 = y"
    using xy by (simp_all add: mod_pos_pos_trivial)
  then have "x = y" unfolding e by (rule trans [OF sym])
  moreover from this e have "ip_val xs = ip_val zs" by simp
  ultimately show ?case using snoc ys by simp
qed simp

lemma ip_val_bounds: "groups_ok gs \<Longrightarrow> 0 \<le> ip_val gs \<and> ip_val gs < 65536 ^ length gs"
proof (induction gs rule: rev_induct)
  case (snoc g gs)
  then have "0 \<le> ip_val gs" "ip_val gs + 1 \<le> 65536 ^ length gs" "0 \<le> g" "g < 65536" by auto
  then have "(ip_val gs + 1) * 65536 \<le> 65536 ^ length gs * 65536" by (intro mult_right_mono) auto
  with \<open>0 \<le> ip_val gs\<close> \<open>0 \<le> g\<close> \<open>g < 65536\<close> show ?case by (simp add: ip_val_snoc)
qed (simp add: ip_val_def)

lemma horner_step: "v div (65536 ^ Suc n) * 65536 + v div 65536 ^ n mod 65536 = v div 65536 ^ n"
  for v :: int
proof -
  have "v div 65536 ^ Suc n = v div 65536 ^ n div 65536"
    unfolding power_Suc2 by (rule zdiv_zmult2_eq) simp
  then show ?thesis by simp
qed

lemma groups_of_ok: "groups_ok (groups_of v) \<and> length (groups_of v) = 8"
  by (simp add: groups_of_def)

lemma ip_val_groups_of:
  assumes "0 \<le> v" "v < 65536 ^ 8"
  shows "ip_val (groups_of v) = v"
proof -
  have top: "v div 65536 ^ 7 mod 65536 = v div 65536 ^ 7"
    using assms by (intro mod_pos_pos_trivial) (simp_all add: pos_imp_zdiv_nonneg_iff)
  have h: "v div 65536 ^ 7 * 65536 + v div 65536 ^ 6 mod 65536 = v div 65536 ^ 6"
    "v div 65536 ^ 6 * 65536 + v div 65536 ^ 5 mod 65536 = v div 65536 ^ 5"
    "v div 65536 ^ 5 * 65536 + v div 65536 ^ 4 mod 65536 = v div 65536 ^ 4"
    "v div 65536 ^ 4 * 65536 + v div 65536 ^ 3 mod 65536 = v div 65536 ^ 3"
    "v div 65536 ^ 3 * 65536 + v div 65536 ^ 2 mod 65536 = v div 65536 ^ 2"
    "v div 65536 ^ 2 * 65536 + v div 65536 ^ 1 mod 65536 = v div 65536 ^ 1"
    "v div 65536 ^ 1 * 65536 + v div 65536 ^ 0 mod 65536 = v div 65536 ^ 0"
    using horner_step [of v 6] horner_step [of v 5] horner_step [of v 4] horner_step [of v 3]
      horner_step [of v 2] horner_step [of v 1] horner_step [of v 0]
    by (simp_all only: numeral_eq_Suc One_nat_def pred_numeral_simps BitM.simps arith_simps)
  show ?thesis
    unfolding ip_val_def groups_of_def list.map foldl.simps top mult_zero_left add_0 h by simp
qed

lemma mask_ip_128: "ip_ok ip \<Longrightarrow> mask_ip ip 128 = ip"
  using ip_val_inj [of "groups_of (ip_val ip)" ip] ip_val_groups_of [of "ip_val ip"]
    ip_val_bounds [of ip] ip_ok_groups [of ip] groups_of_ok [of "ip_val ip"]
  by (simp add: mask_ip_def)

lemma IPString_no_slash: "ip_ok ip \<Longrightarrow> CHR ''/'' \<notin> set (IPString ip)"
  using ParseIP_chars [OF ParseIP_IPString, of ip "CHR ''/''"] by (auto simp: ip_char_def is_hex_def)

lemma find_in_set: "find P xs = Some x \<Longrightarrow> x \<in> set xs"
  by (auto simp: find_Some_iff)

lemma ParseCIDR_bare:
  assumes p: "ParseIP s = Some ip" and c: "is4 ip \<longrightarrow> CHR '':'' \<notin> set s"
  shows "ParseCIDR (s @ (if \<not> is4 ip then ''/128'' else ''/32''))
           = Inr \<lparr>net_ip = ip, net_len = 128\<rparr>"
proof -
  have sl: "CHR ''/'' \<notin> set s"
    using ParseIP_chars [OF p, of "CHR ''/''"] by (auto simp: ip_char_def is_hex_def)
  have i: "IndexByte (s @ CHR ''/'' # m) CHR ''/'' = Some (length s)" for m
    by (rule IndexByte_append [OF sl])
  have colon: "CHR '':'' \<in> set s" if "\<not> is4 ip"
    using p that by (auto simp: ParseIP_def is4_def dest: find_in_set split: option.splits if_splits)
  have m: "mask_ip ip 128 = ip" by (rule mask_ip_128 [OF ParseIP_ok [OF p]])
  have d: "digits_val ''128'' = 128" "digits_val ''32'' = 32"
    "list_all is_digit ''128''" "list_all is_digit ''32''" by code_simp+
  show ?thesis
  proof (cases "is4 ip")
    case True
    with c have "CHR '':'' \<notin> set s" by simp
    with True p i [of "''32''"] d m show ?thesis by (simp add: ParseCIDR_def Let_def)
  next
    case False
    with colon p i [of "''128''"] d m show ?thesis by (simp add: ParseCIDR_def Let_def)
  qed
qed

lemma trusts_host:
  assumes "ip_ok ip" "ip_ok x"
  shows "trusts [\<lparr>net_ip = ip, net_len = 128\<rparr>] x \<longleftrightarrow> x = ip"
  using assms ip_val_inj [of ip x] ip_ok_groups [of ip] ip_ok_groups [of x]
  by (auto simp: trusts_def net_contains_def)

subsection \<open>Properties\<close>

text \<open>Configuring a bare address (\<open>10.0.0.1\<close>, \<open>::1\<close>; anything \<open>net.ParseIP\<close> reads, an
  IPv4 address in its dotted form) gives one network, and a text is trusted by it exactly when
  it is a spelling of that address: the added \<open>/32\<close> or \<open>/128\<close> covers a single host.\<close>

lemma bare_address_trusts_itself:
  assumes "ParseIP s = Some ip" and "is4 ip \<longrightarrow> CHR '':'' \<notin> set s"
  shows "\<exists>n. ParseTrustedCIDRS s = Inr [n] \<and> (\<forall>t. isTrustedIP t [n] = (ParseIP t = Some ip))"
proof (intro exI conjI allI)
  let ?n = "\<lparr>net_ip = ip, net_len = 128\<rparr>"
  have no: "CHR '','' \<notin> set s" "CHR ''/'' \<notin> set s"
    using ParseIP_chars [OF assms(1), of "CHR '',''"] ParseIP_chars [OF assms(1), of "CHR ''/''"]
    by (auto simp: ip_char_def is_hex_def)
  have ne: "s \<noteq> []" using assms(1) by (auto simp: ParseIP_def)
  note tr = ParseIP_TrimSpace [OF assms(1)]
  show "ParseTrustedCIDRS s = Inr [?n]"
    using no ne tr assms(1) ParseCIDR_bare [OF assms]
    by (simp add: ParseTrustedCIDRS_def Split_single Let_def)
  show "isTrustedIP t [?n] = (ParseIP t = Some ip)" for t
  proof (cases "ParseIP t")
    case None
    then show ?thesis by (simp add: isTrustedIP_def)
  next
    case (Some x)
    then show ?thesis
      using trusts_host [OF ParseIP_ok [OF assms(1)] ParseIP_ok [OF Some]]
      by (auto simp: isTrustedIP_parse)
  qed
qed

lemma bare_address_trusts_itself_witness:
  "\<exists>n. ParseTrustedCIDRS ''10.0.0.1'' = Inr [n] \<and>
       (\<forall>t. isTrustedIP t [n] = (ParseIP t = Some [0, 0, 0, 0, 0, 65535, 2560, 1]))"
proof (rule bare_address_trusts_itself)
  show "ParseIP ''10.0.0.1'' = Some [0, 0, 0, 0, 0, 65535, 2560, 1]" by code_simp
qed simp

text \<open>The IPv4-mapped spelling of an address is not a network of that host: for
  \<open>::ffff:10.0.0.1\<close> the code appends \<open>/32\<close>, which counts from the front of the 128 bits, so
  the network it configures does not contain \<open>10.0.0.1\<close>, the address that was written.\<close>

theorem mapped_address_not_trusted:
  "ParseIP ''::ffff:10.0.0.1'' = ParseIP ''10.0.0.1'' \<and>
   (case ParseTrustedCIDRS ''::ffff:10.0.0.1'' of
      Inr ns \<Rightarrow> length ns = 1 \<and> \<not> isTrustedIP ''10.0.0.1'' ns \<and> \<not> isTrustedIP ''::ffff:10.0.0.1'' ns
    | Inl _ \<Rightarrow> False)"
  by code_simp

lemma remoteHost_headers [simp]: "remoteHost (r\<lparr>ReqHeader := h\<rparr>) = remoteHost r"
  unfolding remoteHost_def by (cases "SplitHostPort (RemoteAddr r)") simp_all

text \<open>C26: a peer outside the configured networks cannot choose its address: whatever headers it
  sends, the client address is the host part of the connection.\<close>

theorem ClientIP_untrusted_peer:
  assumes "\<not> isTrustedIP (remoteHost r) trusted"
  shows "ClientIP (r\<lparr>ReqHeader := h\<rparr>) trusted = remoteHost r"
  using assms by (simp add: ClientIP_def Let_def)

definition sample_nets :: "ipnet list" where
  "sample_nets = (case ParseTrustedCIDRS ''10.0.0.0/8, ::1'' of Inr ns \<Rightarrow> ns | Inl _ \<Rightarrow> [])"

lemma ClientIP_untrusted_peer_witness:
  "ClientIP (blank_request\<lparr>RemoteAddr := ''203.0.113.9:4711'',
      ReqHeader := hset no_header ''X-Forwarded-For'' ''10.0.0.1''\<rparr>) sample_nets = ''203.0.113.9''"
proof -
  have "\<not> isTrustedIP (remoteHost (blank_request\<lparr>RemoteAddr := ''203.0.113.9:4711''\<rparr>)) sample_nets"
    by code_simp
  from ClientIP_untrusted_peer [OF this, of "hset no_header ''X-Forwarded-For'' ''10.0.0.1''"]
  have "ClientIP (blank_request\<lparr>RemoteAddr := ''203.0.113.9:4711'',
      ReqHeader := hset no_header ''X-Forwarded-For'' ''10.0.0.1''\<rparr>) sample_nets
    = remoteHost (blank_request\<lparr>RemoteAddr := ''203.0.113.9:4711''\<rparr>)" .
  also have "\<dots> = ''203.0.113.9''" by code_simp
  finally show ?thesis .
qed

text \<open>C27: what a client writes into \<open>X-Forwarded-For\<close> before a trusted proxy appends the address
  it saw does not matter: once the part of the value that the proxies added has an address
  outside the trusted networks, any text in front of it leaves the result unchanged.\<close>

theorem rightmostUntrusted_spoof:
  assumes "\<exists>ip \<in> set (xff_ips good). \<not> trusts trusted ip"
  shows "rightmostUntrusted (evil @ '','' @ good) trusted = rightmostUntrusted good trusted"
proof -
  let ?bad = "filter (\<lambda>ip. \<not> trusts trusted ip)"
  obtain ip ips where c: "?bad (rev (xff_ips good)) = ip # ips"
    using assms by (cases "?bad (rev (xff_ips good))") (auto simp: filter_empty_conv)
  have "xff_ips (evil @ '','' @ good) = xff_ips evil @ xff_ips good"
    using xff_ips_append by simp
  with c show ?thesis unfolding rightmostUntrusted_spec by simp
qed

lemma rightmostUntrusted_spoof_witness:
  "rightmostUntrusted (''1.2.3.4'' @ '','' @ '' 203.0.113.9, 10.0.0.2'') sample_nets = ''203.0.113.9''"
proof -
  have "\<exists>ip \<in> set (xff_ips '' 203.0.113.9, 10.0.0.2''). \<not> trusts sample_nets ip"
    by code_simp
  from rightmostUntrusted_spoof [OF this, of "''1.2.3.4''"]
  have "rightmostUntrusted (''1.2.3.4'' @ '','' @ '' 203.0.113.9, 10.0.0.2'') sample_nets
    = rightmostUntrusted '' 203.0.113.9, 10.0.0.2'' sample_nets" .
  also have "\<dots> = ''203.0.113.9''" by code_simp
  finally show ?thesis .
qed

text \<open>When every address of the header is trusted the code returns the rightmost one, the hop
  nearest to the gateway; the comment of \<open>rightmostUntrusted\<close> promises the leftmost, the one
  nearest to the client.\<close>

theorem rightmostUntrusted_all_trusted:
  assumes "xff_ips xff = ips @ [ip]" and "list_all (trusts trusted) (ips @ [ip])"
  shows "rightmostUntrusted xff trusted = IPString ip"
proof -
  have "filter (\<lambda>ip. \<not> trusts trusted ip) (rev (xff_ips xff)) = []"
    using assms by (auto simp: filter_empty_conv list_all_iff)
  with assms(1) show ?thesis unfolding rightmostUntrusted_spec by simp
qed

lemma rightmostUntrusted_all_trusted_witness:
  "rightmostUntrusted ''10.0.0.1, 10.0.0.2'' sample_nets = ''10.0.0.2''"
proof -
  have "xff_ips ''10.0.0.1, 10.0.0.2'' = [[0, 0, 0, 0, 0, 65535, 2560, 1]] @ [[0, 0, 0, 0, 0, 65535, 2560, 2]]"
    "list_all (trusts sample_nets) ([[0, 0, 0, 0, 0, 65535, 2560, 1]] @ [[0, 0, 0, 0, 0, 65535, 2560, 2]])"
    by code_simp+
  from rightmostUntrusted_all_trusted [OF this]
  have "rightmostUntrusted ''10.0.0.1, 10.0.0.2'' sample_nets = IPString [0, 0, 0, 0, 0, 65535, 2560, 2]" .
  also have "\<dots> = ''10.0.0.2''" by code_simp
  finally show ?thesis .
qed

text \<open>What \<open>ClientIP\<close> returns has no brackets, so it can be joined with a port and split off again.\<close>

lemma remoteHost_no_brackets:
  "SplitHostPort (RemoteAddr r) \<noteq> None \<Longrightarrow>
   CHR ''['' \<notin> set (remoteHost r) \<and> CHR '']'' \<notin> set (remoteHost r)"
  by (auto simp: remoteHost_def dest: SplitHostPort_parts split: option.splits)

lemma xff_ips_ok: "ip \<in> set (xff_ips s) \<Longrightarrow> ip_ok ip"
  by (auto simp: xff_ips_def List.map_filter_def intro: ParseIP_ok)

lemma rightmostUntrusted_cases:
  "rightmostUntrusted xff trusted = [] \<or>
   (\<exists>ip. ip_ok ip \<and> rightmostUntrusted xff trusted = IPString ip)"
proof -
  let ?ips = "rev (xff_ips xff)"
  have "ip_ok ip" if "filter (\<lambda>ip. \<not> trusts trusted ip) ?ips = ip # ips" for ip ips
    using arg_cong [OF that, of set] xff_ips_ok [of ip xff] by auto
  moreover have "ip_ok ip" if "?ips = ip # ips" for ip ips
    using arg_cong [OF that, of set] xff_ips_ok [of ip xff] by auto
  ultimately show ?thesis
    unfolding rightmostUntrusted_spec by (auto split: list.split)
qed

text \<open>The address returned: the peer, or the text of an address.\<close>

lemma ClientIP_cases:
  "ClientIP r trusted = remoteHost r \<or> (\<exists>ip. ParseIP (ClientIP r trusted) = Some ip)"
  using rightmostUntrusted_cases [of "hget (ReqHeader r) ''X-Forwarded-For''" trusted]
  by (auto simp: ClientIP_def Let_def ParseIP_IPString)

lemma ClientIP_no_brackets:
  assumes "SplitHostPort (RemoteAddr r) \<noteq> None"
  shows "CHR ''['' \<notin> set (ClientIP r trusted) \<and> CHR '']'' \<notin> set (ClientIP r trusted)"
  using ClientIP_cases [of r trusted] remoteHost_no_brackets [OF assms]
  by (auto dest: ParseIP_no_brackets)

text \<open>\<open>RealIP\<close> makes the client address the host part of \<open>RemoteAddr\<close>.\<close>

lemma remoteHost_real_ip_request:
  assumes "SplitHostPort (RemoteAddr r) \<noteq> None"
  shows "remoteHost (real_ip_request trusted r) = ClientIP r trusted"
proof -
  obtain h p where hp: "SplitHostPort (RemoteAddr r) = Some (h, p)" using assms by auto
  have "SplitHostPort (JoinHostPort (ClientIP r trusted) (if p \<noteq> [] then p else ''0''))
      = Some (ClientIP r trusted, if p \<noteq> [] then p else ''0'')"
    by (rule SplitHostPort_JoinHostPort)
      (use ClientIP_no_brackets [OF assms] SplitHostPort_parts [OF hp] in auto)
  then show ?thesis
    by (simp add: remoteHost_def real_ip_request_def Let_def hp)
qed

text \<open>C28: the middlewares after \<open>RealIP\<close> (the rate limiter) ask for the client address of the
  rewritten request, with the rewritten \<open>RemoteAddr\<close> as the peer; they get the same address,
  and the \<open>X-Real-IP\<close> header that goes downstream carries it too.\<close>

theorem RealIP_stable:
  assumes "SplitHostPort (RemoteAddr r) \<noteq> None"
  shows "ClientIP (real_ip_request trusted r) trusted = ClientIP r trusted
       \<and> hget (ReqHeader (real_ip_request trusted r)) ''X-Real-IP'' = ClientIP r trusted"
proof
  let ?c = "ClientIP r trusted" and ?r = "real_ip_request trusted r"
  let ?x = "hget (ReqHeader r) ''X-Forwarded-For''"
  note peer = remoteHost_real_ip_request [OF assms, of trusted]
  have hdr: "hget (ReqHeader ?r) ''X-Forwarded-For'' = ?x" "hget (ReqHeader ?r) ''X-Real-IP'' = ?c"
    by (simp_all add: real_ip_request_def Let_def)
  then show "hget (ReqHeader ?r) ''X-Real-IP'' = ?c" by simp
  show "ClientIP ?r trusted = ?c"
  proof (cases "isTrustedIP ?c trusted")
    case False
    with peer show ?thesis by (simp add: ClientIP_def [of ?r] Let_def)
  next
    case True
    then obtain ip where p: "ParseIP ?c = Some ip" by (auto simp: isTrustedIP_def split: option.splits)
    note ne = ParseIP_TrimSpace [OF p]
    have "?c \<noteq> []" using p by (auto simp: ParseIP_def)
    moreover have "?x \<noteq> [] \<Longrightarrow> rightmostUntrusted ?x trusted \<noteq> [] \<Longrightarrow> ?c = rightmostUntrusted ?x trusted"
      using True by (auto simp: ClientIP_def [of r] Let_def)
    ultimately show ?thesis
      using True peer hdr p ne by (auto simp: ClientIP_def [of ?r] Let_def)
  qed
qed

lemma RealIP_stable_witness:
  "ClientIP (real_ip_request sample_nets (blank_request\<lparr>RemoteAddr := ''10.1.2.3:80'',
      ReqHeader := hset no_header ''X-Forwarded-For'' ''203.0.113.9, 10.0.0.1''\<rparr>)) sample_nets
    = ''203.0.113.9''"
proof -
  let ?r = "blank_request\<lparr>RemoteAddr := ''10.1.2.3:80'',
      ReqHeader := hset no_header ''X-Forwarded-For'' ''203.0.113.9, 10.0.0.1''\<rparr>"
  have "SplitHostPort (RemoteAddr ?r) \<noteq> None" by code_simp
  from RealIP_stable [OF this, of sample_nets]
  have "ClientIP (real_ip_request sample_nets ?r) sample_nets = ClientIP ?r sample_nets" ..
  also have "\<dots> = ''203.0.113.9''" by code_simp
  finally show ?thesis .
qed

end
