(* ===== verification/Gw_RateLimit.thy ===== *)
theory Gw_RateLimit
  imports Gw_ClientIP Gw_Cors
begin

text \<open>
  \<open>services/gateway/internal/middleware/ratelimit.go\<close>: the fixed-window rate limiter on Redis.
  Redis is not part of the repository: its commands are a parameter, with their documented
  effect as the hypothesis \<open>redis_counts\<close>; the Lua script that runs in it is part of the source
  and is modelled over them. The main result counts: of the requests of one client in one
  window exactly the first \<open>burst\<close> pass, in whatever order the requests of all clients arrive.
  Times are in nanoseconds since the epoch.
\<close>

subsection \<open>Redis\<close>

text \<open>
  The commands the script calls, at a time in milliseconds, over the server's state \<open>'s\<close>, and
  whether a run of the script fails (\<open>nil\<close> error or not).
\<close>

record 's redis =
  INCR :: "int \<Rightarrow> string \<Rightarrow> 's \<Rightarrow> int \<times> 's"
  PEXPIRE :: "int \<Rightarrow> string \<Rightarrow> int \<Rightarrow> 's \<Rightarrow> 's"
  run_err :: "'s \<Rightarrow> go_error option"

text \<open>The value and the deadline of a key; a key whose deadline has passed does not exist.\<close>

type_synonym redis_db = "string \<Rightarrow> (int \<times> int option) option"

definition live :: "int \<Rightarrow> (int \<times> int option) option \<Rightarrow> (int \<times> int option) option" where
  "live now e = (case e of Some (n, Some d) \<Rightarrow> if now < d then e else None | _ \<Rightarrow> e)"

text \<open>
  The documentation of the two commands, with \<open>db\<close> the stored keys of a state: \<open>INCR\<close> adds one
  to the value of a key, taken as 0 when the key does not exist, keeps its deadline and returns
  the new value; \<open>PEXPIRE\<close> sets the deadline of an existing key.
\<close>

definition redis_counts :: "'s redis \<Rightarrow> ('s \<Rightarrow> redis_db) \<Rightarrow> bool" where
  "redis_counts R db \<longleftrightarrow>
     (\<forall>now k s. let (n, d) = (case live now (db s k) of Some e \<Rightarrow> e | None \<Rightarrow> (0, None))
                in fst (INCR R now k s) = n + 1 \<and>
                   db (snd (INCR R now k s)) = (db s)(k \<mapsto> (n + 1, d))) \<and>
     (\<forall>now k ms s n d. live now (db s k) = Some (n, d) \<longrightarrow>
                db (PEXPIRE R now k ms s) = (db s)(k \<mapsto> (n, Some (now + ms))))"

subsection \<open>The limiter\<close>

definition tonumber :: "string \<Rightarrow> int" where
  "tonumber s = fst (ParseInt s)"

text \<open>The Lua script: 1 to pass, 0 over the limit.\<close>

definition rateLimitScript ::
  "'s redis \<Rightarrow> int \<Rightarrow> string \<Rightarrow> string \<Rightarrow> string \<Rightarrow> 's \<Rightarrow> int \<times> 's" where
  "rateLimitScript R now key windowMs limit s =
     (let (cnt, s) = INCR R now key s;
          s = (if cnt = 1 then PEXPIRE R now key (tonumber windowMs) s else s)
      in (if cnt > tonumber limit then 0 else 1, s))"

text \<open>
  The limiter's state: the Redis server, the time of the last warning (\<open>None\<close>: the zero time)
  and the log of warnings. It extends to the world of the handlers behind the limiter.
\<close>

record 's rl_world =
  redis_st :: 's
  last_warn :: "int option"
  warn_log :: "string list"

definition time_Second :: int where "time_Second = 1000000000"

definition time_Minute :: int where "time_Minute = 60 * time_Second"

definition time_Millisecond :: int where "time_Millisecond = 1000000"

definition rl_defaults :: "int \<Rightarrow> int \<Rightarrow> int \<times> int" where
  "rl_defaults rps burst = (if rps \<le> 0 then 20 else rps, if burst \<le> 0 then 40 else burst)"

text \<open>\<open>window.Milliseconds()\<close>.\<close>

definition rl_window_ms :: "int \<Rightarrow> int \<Rightarrow> int" where
  "rl_window_ms rps burst =
     (let (rps, burst) = rl_defaults rps burst;
          window = burst div rps * time_Second;
          window = (if window < time_Second then time_Second else window)
      in window div time_Millisecond)"

definition rl_key :: "string \<Rightarrow> int \<Rightarrow> string" where
  "rl_key ip bucket = ''ratelimit:'' @ ip @ '':'' @ Itoa bucket"

definition warnOpen :: "int \<Rightarrow> go_error \<Rightarrow> ('s, 'm) rl_world_scheme \<Rightarrow> ('s, 'm) rl_world_scheme" where
  "warnOpen now err w =
     (if (case last_warn w of None \<Rightarrow> True | Some t \<Rightarrow> now - t > time_Minute)
      then w\<lparr>last_warn := Some now, warn_log := warn_log w @ [Error err]\<rparr> else w)"

definition RateLimit ::
  "int \<Rightarrow> int \<Rightarrow> 's redis option \<Rightarrow> ipnet list \<Rightarrow> int
   \<Rightarrow> ('s, 'm) rl_world_scheme handler \<Rightarrow> ('s, 'm) rl_world_scheme handler" where
  "RateLimit rps burst rdb trusted now next r wh w =
     (let ms = rl_window_ms rps burst;
          windowMs = Itoa ms;
          limit = Itoa (snd (rl_defaults rps burst))
      in if URLPath r = ''/health'' \<or> URLPath r = ''/healthz'' then next r wh w
         else (case rdb of None \<Rightarrow> next r wh w
           | Some R \<Rightarrow>
             let ip = ClientIP r trusted;
                 bucket = now div time_Millisecond div ms;
                 key = rl_key ip bucket
             in (case run_err R (redis_st w) of
                   Some err \<Rightarrow> next r wh (warnOpen now err w)
                 | None \<Rightarrow>
                   let (allowed, s) = rateLimitScript R (now div time_Millisecond) key windowMs limit (redis_st w);
                       w = w\<lparr>redis_st := s\<rparr>
                   in if allowed = 0
                      then (http_Error (hset (hset wh ''Content-Type'' ''application/json; charset=utf-8'')
                              ''Retry-After'' ''1'') ''{\"error\":\"too many requests\"}'' 429, w)
                      else next r wh w)))"

lemma canon_retry [simp]:
  "canon ''Retry-After'' = ''Retry-After''"
  "canon ''X-Content-Type-Options'' = ''X-Content-Type-Options''"
  by code_simp+

subsection \<open>One step of the counter\<close>

lemma rl_defaults_pos: "0 < fst (rl_defaults rps burst)" "0 < snd (rl_defaults rps burst)"
  by (simp_all add: rl_defaults_def)

lemma rl_window_pos: "1000 \<le> rl_window_ms rps burst"
  by (auto simp: rl_window_ms_def time_Second_def time_Millisecond_def Let_def zdiv_mono1
      split: prod.split)

text \<open>
  The key of a window after \<open>c\<close> counted requests: absent at first, later the count with a
  deadline not before the end of the window.
\<close>

definition counted :: "redis_db \<Rightarrow> string \<Rightarrow> int \<Rightarrow> nat \<Rightarrow> bool" where
  "counted d key fin c \<longleftrightarrow>
     (if c = 0 then d key = None else (\<exists>e. d key = Some (int c, Some e) \<and> fin \<le> e))"

lemma script_counts:
  assumes R: "redis_counts R db" and c: "counted (db s) key fin c"
    and now: "now < fin" "fin \<le> now + tonumber windowMs"
    and step: "rateLimitScript R now key windowMs limit s = (a, s')"
  shows "a = (if int (c + 1) > tonumber limit then 0 else 1)"
    and "counted (db s') key fin (c + 1)"
    and "k \<noteq> key \<Longrightarrow> db s' k = db s k"
proof -
  obtain cnt s1 where i: "INCR R now key s = (cnt, s1)" by (cases "INCR R now key s") auto
  have lv: "live now (db s key) = db s key"
    using c now(1) by (auto simp: counted_def live_def split: if_splits)
  from R have "let (n, d) = (case live now (db s key) of Some e \<Rightarrow> e | None \<Rightarrow> (0, None))
     in fst (INCR R now key s) = n + 1 \<and> db (snd (INCR R now key s)) = (db s)(key \<mapsto> (n + 1, d))"
    unfolding redis_counts_def by blast
  then have incr: "cnt = int c + 1"
    "db s1 = (db s)(key \<mapsto> (cnt, case db s key of Some (_, d) \<Rightarrow> d | None \<Rightarrow> None))"
    using c by (auto simp: lv i counted_def split: if_splits)
  show "a = (if int (c + 1) > tonumber limit then 0 else 1)"
    using step by (auto simp: rateLimitScript_def i incr(1) Let_def)
  have s': "s' = (if c = 0 then PEXPIRE R now key (tonumber windowMs) s1 else s1)"
    using step by (auto simp: rateLimitScript_def i incr(1) Let_def)
  have pexp: "db (PEXPIRE R now key (tonumber windowMs) s1)
      = (db s1)(key \<mapsto> (cnt, Some (now + tonumber windowMs)))" if "c = 0"
  proof -
    have "live now (db s1 key) = Some (cnt, None)"
      using c that by (simp add: incr(2) counted_def live_def)
    with R show ?thesis unfolding redis_counts_def by blast
  qed
  show "counted (db s') key fin (c + 1)"
    using c now(2) pexp incr by (auto simp: s' counted_def split: if_splits)
  show "db s' k = db s k" if "k \<noteq> key"
    using that pexp incr(2) by (auto simp: s')
qed

lemma script_other:
  assumes R: "redis_counts R db" and k: "k \<noteq> key"
    and step: "rateLimitScript R now key windowMs limit s = (a, s')"
  shows "db s' k = db s k"
proof -
  obtain cnt s1 where i: "INCR R now key s = (cnt, s1)" by (cases "INCR R now key s") auto
  obtain n d where nd: "(case live now (db s key) of Some e \<Rightarrow> e | None \<Rightarrow> (0, None)) = (n, d)"
    by (metis prod.exhaust)
  from R have "let (n, d) = (case live now (db s key) of Some e \<Rightarrow> e | None \<Rightarrow> (0, None))
     in fst (INCR R now key s) = n + 1 \<and> db (snd (INCR R now key s)) = (db s)(key \<mapsto> (n + 1, d))"
    unfolding redis_counts_def by blast
  then have incr: "cnt = n + 1" "db s1 = (db s)(key \<mapsto> (cnt, d))" by (simp_all add: nd i)
  have d: "d = None" if "cnt = 1 \<and> live now (db s key) = None" using nd that by simp
  have lv: "\<exists>n' d'. live now (db s1 key) = Some (n', d')"
    using nd by (auto simp: incr live_def split: option.splits if_splits prod.splits)
  then obtain n' d' where "live now (db s1 key) = Some (n', d')" by blast
  with R have "db (PEXPIRE R now key ms s1) = (db s1)(key \<mapsto> (n', Some (now + ms)))" for ms
    unfolding redis_counts_def by blast
  then show ?thesis using step k incr(2) by (auto simp: rateLimitScript_def i Let_def split: if_splits)
qed

text \<open>The client and the window can be read off the key.\<close>

lemma split_at_last:
  fixes s t x y :: string
  assumes "s @ c # x = t @ c # y" "c \<notin> set x" "c \<notin> set y"
  shows "s = t \<and> x = y"
proof -
  have "length s = length t"
    using LastIndexByte_append [OF assms(2), of s] LastIndexByte_append [OF assms(3), of t] assms(1)
    by simp
  with assms(1) show ?thesis by simp
qed

lemma Itoa_inj:
  assumes "0 \<le> a" "0 \<le> b" "Itoa a = Itoa b"
  shows "a = b"
proof -
  have "digits_val (Itoa n) = n" if "0 \<le> n" for n
    using that dec_digits_correct [OF that] by (simp add: Itoa_def)
  from this [OF assms(1)] this [OF assms(2)] assms(3) show ?thesis by metis
qed

lemma rl_key_inj:
  assumes "rl_key ip b = rl_key ip' b'" "0 \<le> b" "0 \<le> b'"
  shows "ip = ip' \<and> b = b'"
proof -
  have no: "CHR '':'' \<notin> set (Itoa b)" "CHR '':'' \<notin> set (Itoa b')"
    using assms by (simp_all add: Itoa_no)
  have "(''ratelimit:'' @ ip) @ CHR '':'' # Itoa b = (''ratelimit:'' @ ip') @ CHR '':'' # Itoa b'"
    using assms(1) by (simp add: rl_key_def)
  from split_at_last [OF this no] have "ip = ip' \<and> Itoa b = Itoa b'" by simp
  with assms(2,3) Itoa_inj show ?thesis by blast
qed

subsection \<open>Many requests\<close>

text \<open>
  The requests of all clients, in the order in which the limiter decides them (one Lua script
  at a time), each with its time; the statuses they get from a handler that answers 200.
\<close>

fun serve_all ::
  "int \<Rightarrow> int \<Rightarrow> 's redis option \<Rightarrow> ipnet list \<Rightarrow> (int \<times> request) list \<Rightarrow> ('s, 'm) rl_world_scheme \<Rightarrow> nat list" where
  "serve_all rps burst rdb trusted [] w = []"
| "serve_all rps burst rdb trusted ((now, r) # evs) w =
     (let (res, w) = RateLimit rps burst rdb trusted now echo_handler r no_header w
      in Status res # serve_all rps burst rdb trusted evs w)"

definition in_window :: "int \<Rightarrow> int \<Rightarrow> ipnet list \<Rightarrow> string \<Rightarrow> int \<Rightarrow> int \<times> request \<Rightarrow> bool" where
  "in_window rps burst trusted ip b e \<longleftrightarrow>
     URLPath (snd e) \<noteq> ''/health'' \<and> URLPath (snd e) \<noteq> ''/healthz'' \<and> ClientIP (snd e) trusted = ip \<and>
     fst e div time_Millisecond div rl_window_ms rps burst = b"

definition passed :: "int \<Rightarrow> int \<Rightarrow> ipnet list \<Rightarrow> string \<Rightarrow> int \<Rightarrow> (int \<times> request) list \<Rightarrow> nat list \<Rightarrow> nat" where
  "passed rps burst trusted ip b evs sts =
     length (filter (\<lambda>(e, st). in_window rps burst trusted ip b e \<and> st = 200) (zip evs sts))"

lemma tonumber_Itoa: "0 \<le> n \<Longrightarrow> n \<le> MaxInt64 \<Longrightarrow> tonumber (Itoa n) = n"
  by (simp add: tonumber_def ParseInt_Itoa)

text \<open>One request of the window, and one of another window, client or path.\<close>

lemma RateLimit_in_window:
  fixes w :: "('s, 'm) rl_world_scheme"
  assumes R: "redis_counts R db" and ok: "\<And>s. run_err R s = None"
    and small: "burst \<le> MaxInt64" "rl_window_ms rps burst \<le> MaxInt64"
    and e: "in_window rps burst trusted ip b (now, r)"
    and c: "counted (db (redis_st w)) (rl_key ip b) ((b + 1) * rl_window_ms rps burst) c"
    and step: "RateLimit rps burst (Some R) trusted now echo_handler r no_header w = (res, w')"
  shows "Status res = (if int c < snd (rl_defaults rps burst) then 200 else 429)"
    and "counted (db (redis_st w')) (rl_key ip b) ((b + 1) * rl_window_ms rps burst) (c + 1)"
proof -
  let ?ms = "rl_window_ms rps burst" and ?t = "now div time_Millisecond"
  let ?lim = "snd (rl_defaults rps burst)"
  have pos: "0 < ?ms" using rl_window_pos [of rps burst] by simp
  have b: "?t div ?ms = b" and ip: "ClientIP r trusted = ip" and p: "URLPath r \<noteq> ''/health''" "URLPath r \<noteq> ''/healthz''"
    using e by (simp_all add: in_window_def)
  have "?t = b * ?ms + ?t mod ?ms" using b by (metis div_mult_mod_eq)
  then have t: "?t < (b + 1) * ?ms" "(b + 1) * ?ms \<le> ?t + ?ms"
    using pos_mod_bound [OF pos, of ?t] pos_mod_sign [OF pos, of ?t]
    unfolding distrib_right by linarith+
  have n: "tonumber (Itoa ?ms) = ?ms" "tonumber (Itoa ?lim) = ?lim"
    using small pos rl_defaults_pos(2) [of rps burst]
    by (auto intro!: tonumber_Itoa simp: rl_defaults_def MaxInt64_def)
  obtain a s' where s: "rateLimitScript R ?t (rl_key ip b) (Itoa ?ms) (Itoa ?lim) (redis_st w) = (a, s')"
    by (metis prod.exhaust)
  have t2: "(b + 1) * ?ms \<le> ?t + tonumber (Itoa ?ms)" using t n by simp
  note k = script_counts [OF R c t(1) t2 s]
  have w': "redis_st w' = s'" "Status res = (if a = 0 then 429 else 200)"
    using step ok p b s unfolding RateLimit_def ip
    by (auto simp: Let_def echo_handler_def ip split: if_splits)
  show "Status res = (if int c < ?lim then 200 else 429)" using w'(2) k(1) n(2) by auto
  show "counted (db (redis_st w')) (rl_key ip b) ((b + 1) * ?ms) (c + 1)" using w'(1) k(2) by simp
qed

lemma RateLimit_other:
  fixes w :: "('s, 'm) rl_world_scheme"
  assumes R: "redis_counts R db" and ok: "\<And>s. run_err R s = None"
    and e: "\<not> in_window rps burst trusted ip b (now, r)" "0 \<le> now" "0 \<le> b"
    and step: "RateLimit rps burst (Some R) trusted now echo_handler r no_header w = (res, w')"
  shows "db (redis_st w') (rl_key ip b) = db (redis_st w) (rl_key ip b)"
proof (cases "URLPath r = ''/health'' \<or> URLPath r = ''/healthz''")
  case True
  with step show ?thesis by (auto simp: RateLimit_def Let_def echo_handler_def)
next
  case False
  let ?ms = "rl_window_ms rps burst" and ?t = "now div time_Millisecond"
  let ?k = "rl_key (ClientIP r trusted) (?t div ?ms)"
  obtain a s' where s: "rateLimitScript R ?t ?k (Itoa ?ms) (Itoa (snd (rl_defaults rps burst))) (redis_st w) = (a, s')"
    by (metis prod.exhaust)
  have "0 \<le> ?t div ?ms" using e(2) rl_window_pos [of rps burst]
    by (simp add: time_Millisecond_def pos_imp_zdiv_nonneg_iff)
  with e False have "rl_key ip b \<noteq> ?k" by (auto simp: in_window_def dest: rl_key_inj)
  from script_other [OF R this s] show ?thesis
    using step ok False s by (auto simp: RateLimit_def Let_def echo_handler_def split: if_splits)
qed

lemma serve_all_passed:
  assumes R: "redis_counts R db" and ok: "\<And>s. run_err R s = None"
    and small: "burst \<le> MaxInt64" "rl_window_ms rps burst \<le> MaxInt64"
    and pos: "\<forall>e \<in> set evs. 0 \<le> fst e" "0 \<le> b"
    and c: "counted (db (redis_st w)) (rl_key ip b) ((b + 1) * rl_window_ms rps burst) c"
  shows "passed rps burst trusted ip b evs (serve_all rps burst (Some R) trusted evs w)
    = min (length (filter (in_window rps burst trusted ip b) evs)) (nat (snd (rl_defaults rps burst)) - c)"
  using pos(1) c
proof (induction evs arbitrary: w c)
  case (Cons e evs)
  obtain now r where e: "e = (now, r)" by (cases e) auto
  obtain res w' where st: "RateLimit rps burst (Some R) trusted now echo_handler r no_header w = (res, w')"
    by (metis prod.exhaust)
  show ?case
  proof (cases "in_window rps burst trusted ip b (now, r)")
    case True
    note k = RateLimit_in_window [OF R ok small True Cons.prems(2) st]
    have IH: "passed rps burst trusted ip b evs (serve_all rps burst (Some R) trusted evs w')
      = min (length (filter (in_window rps burst trusted ip b) evs))
          (nat (snd (rl_defaults rps burst)) - (c + 1))"
      using Cons.prems k(2) by (intro Cons.IH) simp_all
    show ?thesis
      using True k(1) IH rl_defaults_pos(2) [of rps burst]
      by (auto simp: e st passed_def min_def split: if_splits; linarith)
  next
    case False
    have "db (redis_st w') (rl_key ip b) = db (redis_st w) (rl_key ip b)"
      using False Cons.prems(1) pos(2) st by (intro RateLimit_other [OF R ok]) (auto simp: e)
    then have "counted (db (redis_st w')) (rl_key ip b) ((b + 1) * rl_window_ms rps burst) c"
      using Cons.prems(2) by (simp add: counted_def)
    from Cons.IH [OF _ this] Cons.prems(1) False show ?thesis
      by (simp add: e st passed_def)
  qed
qed (simp add: passed_def)

lemma rl_window_bound:
  assumes "burst * time_Second \<le> MaxInt64"
  shows "burst \<le> MaxInt64" "rl_window_ms rps burst \<le> MaxInt64"
proof -
  let ?b = "snd (rl_defaults rps burst)" and ?r = "fst (rl_defaults rps burst)"
  note pos = rl_defaults_pos [of rps burst]
  have "?b div ?r \<le> ?b div 1" using pos by (intro zdiv_mono2) simp_all
  moreover have "?b * time_Second \<le> MaxInt64"
    using assms by (auto simp: rl_defaults_def MaxInt64_def time_Second_def)
  ultimately have b: "?b div ?r * time_Second \<le> MaxInt64"
    by (simp add: time_Second_def)
  show "burst \<le> MaxInt64" using assms by (simp add: MaxInt64_def time_Second_def)
  have d: "x div time_Millisecond \<le> MaxInt64" if "x \<le> MaxInt64" for x
    using zdiv_mono1 [OF that, of time_Millisecond] by (simp add: time_Millisecond_def MaxInt64_def)
  have "(if ?b div ?r * time_Second < time_Second then time_Second else ?b div ?r * time_Second) \<le> MaxInt64"
    using b by (simp add: time_Second_def MaxInt64_def)
  from d [OF this] show "rl_window_ms rps burst \<le> MaxInt64"
    by (simp add: rl_window_ms_def case_prod_unfold Let_def)
qed

subsection \<open>A Redis in memory\<close>

text \<open>The documented commands on a plain map, for the samples.\<close>

definition memory_redis :: "redis_db redis" where
  "memory_redis =
     \<lparr>INCR = (\<lambda>now k s. let (n, d) = (case live now (s k) of Some e \<Rightarrow> e | None \<Rightarrow> (0, None))
                        in (n + 1, s(k \<mapsto> (n + 1, d)))),
      PEXPIRE = (\<lambda>now k ms s. case live now (s k) of Some (n, _) \<Rightarrow> s(k \<mapsto> (n, Some (now + ms))) | None \<Rightarrow> s),
      run_err = (\<lambda>_. None)\<rparr>"

lemma memory_redis_counts: "redis_counts memory_redis (\<lambda>s. s)"
  by (simp add: redis_counts_def memory_redis_def split: prod.split)

definition empty_world :: "redis_db rl_world" where
  "empty_world = \<lparr>redis_st = (\<lambda>_. None), last_warn = None, warn_log = []\<rparr>"

subsection \<open>Properties\<close>


definition sample_evs :: "(int \<times> request) list" where
  "sample_evs = map (\<lambda>t. (t * time_Millisecond, blank_request\<lparr>RemoteAddr := ''192.0.2.1:9''\<rparr>))
     [5000, 5100, 5200, 7000]"


text \<open>The limiter fails open: without Redis, or when the script cannot be run, every request
  reaches the handler behind it with its headers as they were; only the log can change, and at
  most one warning is written per minute.\<close>

lemma RateLimit_fail_open:
  assumes "rdb = None \<or> (\<exists>R. rdb = Some R \<and> run_err R (redis_st w) \<noteq> None)"
  shows "\<exists>w'. RateLimit rps burst rdb trusted now next r wh w = next r wh w' \<and>
     redis_st w' = redis_st w \<and> length (warn_log w') \<le> length (warn_log w) + 1 \<and>
     (\<forall>t. last_warn w = Some t \<longrightarrow> now - t \<le> time_Minute \<longrightarrow> w' = w)"
proof (cases "URLPath r = ''/health'' \<or> URLPath r = ''/healthz'' \<or> rdb = None")
  case True
  then have "RateLimit rps burst rdb trusted now next r wh w = next r wh w"
    by (auto simp: RateLimit_def Let_def)
  then show ?thesis by (intro exI [of _ w]) simp
next
  case False
  with assms obtain R e where R: "rdb = Some R" "run_err R (redis_st w) = Some e" by auto
  with False have "RateLimit rps burst rdb trusted now next r wh w = next r wh (warnOpen now e w)"
    by (simp add: RateLimit_def Let_def)
  then show ?thesis by (intro exI [of _ "warnOpen now e w"]) (simp add: warnOpen_def)
qed

lemma RateLimit_fail_open_witness:
  "\<exists>w'. RateLimit 20 40 (None :: redis_db redis option) [] 0 echo_handler blank_request no_header empty_world
      = echo_handler blank_request no_header w' \<and> redis_st w' = redis_st empty_world"
  using RateLimit_fail_open [of "None :: redis_db redis option" empty_world 20 40 "[]" 0 echo_handler
      blank_request no_header] by auto

text \<open>The refusal is labelled plain text: the code sets the JSON content type before it calls
  \<open>http.Error\<close>, which sets its own, so the JSON text of the 429 goes out as \<open>text/plain\<close>; the
  \<open>Retry-After\<close> header stays.\<close>

theorem RateLimit_refusal_type:
  assumes "Status (fst (RateLimit rps burst rdb trusted now echo_handler r wh w)) = 429"
  shows "let h = RespHeader (fst (RateLimit rps burst rdb trusted now echo_handler r wh w)) in
     hget h ''Content-Type'' = ''text/plain; charset=utf-8'' \<and> hget h ''Retry-After'' = ''1''"
  using assms
  by (auto simp: RateLimit_def echo_handler_def http_Error_def Let_def
      split: if_splits option.splits prod.splits)

lemma RateLimit_refusal_type_witness:
  "let res = fst (RateLimit 20 40 (Some memory_redis) [] 0 echo_handler
          (blank_request\<lparr>RemoteAddr := ''192.0.2.1:9''\<rparr>) no_header
          (empty_world\<lparr>redis_st := [rl_key ''192.0.2.1'' 0 \<mapsto> (40, Some 2000)]\<rparr>))
   in Status res = 429 \<and> hget (RespHeader res) ''Content-Type'' = ''text/plain; charset=utf-8''"
proof -
  let ?res = "fst (RateLimit 20 40 (Some memory_redis) [] 0 echo_handler
          (blank_request\<lparr>RemoteAddr := ''192.0.2.1:9''\<rparr>) no_header
          (empty_world\<lparr>redis_st := [rl_key ''192.0.2.1'' 0 \<mapsto> (40, Some 2000)]\<rparr>))"
  have "Status ?res = 429" by code_simp
  with RateLimit_refusal_type [OF this] show ?thesis by (simp add: Let_def)
qed

end
