(* ===== verification/Gw_Proxy.thy ===== *)
theory Gw_Proxy
  imports Pkg_Auth Gw_ClientIP Gw_Cors
begin

text \<open>
  \<open>services/gateway/internal/proxy/proxy.go\<close>: the reverse proxies to the services. The code
  configures \<open>httputil.ReverseProxy\<close> of the standard library with a director, a response
  modifier and an error handler; \<open>ServeProxy\<close> puts the three where the library calls them.
  The round trip to the upstream is a parameter. The lemmas show what an upstream can rely on
  in the headers of a proxied request, and which response headers are the gateway's alone.
\<close>

subsection \<open>Operations\<close>

record target_url =
  u_scheme :: string
  u_host :: string
  u_path :: string

text \<open>The outgoing request: the URL's scheme and host, and the rest as in the incoming one.\<close>

record outreq =
  o_scheme :: string
  o_host :: string
  o_req :: request

text \<open>The library's \<open>NewSingleHostReverseProxy\<close>; \<open>r.Host\<close> is not touched.\<close>

definition singleJoiningSlash :: "string \<Rightarrow> string \<Rightarrow> string" where
  "singleJoiningSlash a b =
     (if HasSuffix a ''/'' \<and> HasPrefix b ''/'' then a @ drop 1 b
      else if \<not> HasSuffix a ''/'' \<and> \<not> HasPrefix b ''/'' then a @ ''/'' @ b
      else a @ b)"

definition singleHostDirector :: "target_url \<Rightarrow> request \<Rightarrow> outreq" where
  "singleHostDirector target r =
     \<lparr>o_scheme = u_scheme target, o_host = u_host target,
      o_req = r\<lparr>URLPath := singleJoiningSlash (u_path target) (URLPath r),
                ReqHeader := (if ReqHeader r ''User-Agent'' = [] then hset (ReqHeader r) ''User-Agent'' []
                              else ReqHeader r)\<rparr>\<rparr>"

text \<open>The header edits of \<open>New\<close>'s director, in its order.\<close>

definition forward_request_id :: "header \<Rightarrow> header" where
  "forward_request_id h =
     (let h = (if hget h ''X-Request-Id'' \<noteq> [] then hset h ''X-Request-ID'' (hget h ''X-Request-Id'') else h)
      in if hget h ''X-Request-ID'' \<noteq> [] then hset h ''X-Request-ID'' (hget h ''X-Request-ID'') else h)"

definition forward_for :: "string \<Rightarrow> header \<Rightarrow> header" where
  "forward_for host h =
     (if host \<noteq> [] then
        (let xff = hget h ''X-Forwarded-For'' in
         if xff \<noteq> [] then
           (if \<not> Contains xff host then hset h ''X-Forwarded-For'' (xff @ '', '' @ host) else h)
         else hset h ''X-Forwarded-For'' host)
      else h)"

definition forward_proto :: "bool \<Rightarrow> header \<Rightarrow> header" where
  "forward_proto tls h =
     (if tls then hset h ''X-Forwarded-Proto'' ''https''
      else if hget h ''X-Forwarded-Proto'' = [] then hset h ''X-Forwarded-Proto'' ''http''
      else h)"

definition forward_headers :: "request \<Rightarrow> header" where
  "forward_headers r =
     forward_proto (TLS r) (forward_for (remoteHost r)
       (forward_request_id (hset (ReqHeader r) ''X-Forwarded-Host'' (ReqHost r))))"

definition Director :: "target_url \<Rightarrow> request \<Rightarrow> outreq" where
  "Director target r =
     (let q = singleHostDirector target r
      in q\<lparr>o_req := (o_req q)\<lparr>ReqHeader := forward_headers (o_req q)\<rparr>\<rparr>)"

text \<open>\<open>NewWithPrefix\<close>: the prefix is cut after the director has run.\<close>

definition DirectorWithPrefix :: "target_url \<Rightarrow> string \<Rightarrow> request \<Rightarrow> outreq" where
  "DirectorWithPrefix target prefix r =
     (let q = Director target r; p = URLPath (o_req q) in
      if prefix = [] then q
      else if HasPrefix p prefix
      then q\<lparr>o_req := (o_req q)\<lparr>URLPath :=
             (if TrimPrefix p prefix = [] then ''/'' else TrimPrefix p prefix)\<rparr>\<rparr>
      else q)"

text \<open>\<open>newRouter\<close> wraps the director of two proxies once more.\<close>

definition InternalDirector :: "string \<Rightarrow> (request \<Rightarrow> outreq) \<Rightarrow> request \<Rightarrow> outreq" where
  "InternalDirector internalToken dir r =
     (if internalToken = [] then dir r
      else let q = dir r
        in q\<lparr>o_req := (o_req q)\<lparr>ReqHeader := hset (ReqHeader (o_req q)) ''X-Internal-Token'' internalToken\<rparr>\<rparr>)"

definition ModifyResponse :: "header \<Rightarrow> header" where
  "ModifyResponse h =
     fold (\<lambda>k h. hdel h k)
       [''Access-Control-Allow-Origin'', ''Access-Control-Allow-Credentials'',
        ''Access-Control-Allow-Methods'', ''Access-Control-Allow-Headers'',
        ''Access-Control-Expose-Headers'', ''Access-Control-Max-Age'', ''Vary'', ''X-Request-Id''] h"

definition ErrorHandler :: "header \<Rightarrow> go_error \<Rightarrow> response" where
  "ErrorHandler wh err =
     (case err of
        MaxBytesError limit \<Rightarrow>
          http_Error wh (''{\"error\":\"file too large (max '' @ Itoa limit @ '' bytes)\"}'') 413
      | _ \<Rightarrow>
          http_Error (hset wh ''Content-Type'' ''application/json; charset=utf-8'')
            ''{\"error\":\"upstream unavailable\"}'' 502)"

subsection \<open>The library's proxy around them\<close>

text \<open>
  \<open>ReverseProxy.ServeHTTP\<close>: after the director the hop-by-hop headers go, the ones that the
  client names in \<open>Connection\<close> first, then the host part of \<open>RemoteAddr\<close> is appended to
  \<open>X-Forwarded-For\<close>; the upstream's headers are added to those already set.
\<close>

definition hop_headers :: "string list" where
  "hop_headers = [''Connection'', ''Proxy-Connection'', ''Keep-Alive'', ''Proxy-Authenticate'',
     ''Proxy-Authorization'', ''Te'', ''Trailer'', ''Transfer-Encoding'', ''Upgrade'']"

definition connection_tokens :: "header \<Rightarrow> string list" where
  "connection_tokens h =
     filter (\<lambda>t. t \<noteq> []) (map TrimSpace (concat (map (Split CHR '','') (h ''Connection''))))"

definition removeHopByHopHeaders :: "header \<Rightarrow> header" where
  "removeHopByHopHeaders h =
     fold (\<lambda>k h. hdel h k) hop_headers (fold (\<lambda>k h. hdel h k) (connection_tokens h) h)"

definition append_xff :: "string \<Rightarrow> header \<Rightarrow> header" where
  "append_xff remote h =
     (case SplitHostPort remote of None \<Rightarrow> h
      | Some (ip, _) \<Rightarrow>
        hset h ''X-Forwarded-For''
          (if h ''X-Forwarded-For'' \<noteq> [] then join (h ''X-Forwarded-For'') '', '' @ '', '' @ ip else ip))"

definition proxied :: "(request \<Rightarrow> outreq) \<Rightarrow> request \<Rightarrow> outreq" where
  "proxied dir r =
     (let q = dir r
      in q\<lparr>o_req := (o_req q)\<lparr>ReqHeader :=
             append_xff (RemoteAddr r) (removeHopByHopHeaders (ReqHeader (o_req q)))\<rparr>\<rparr>)"

definition add_headers :: "header \<Rightarrow> header \<Rightarrow> header" where
  "add_headers wh h k = wh k @ h k"

type_synonym 'w transport = "outreq \<Rightarrow> 'w \<Rightarrow> (go_error + response) \<times> 'w"

definition ServeProxy :: "(request \<Rightarrow> outreq) \<Rightarrow> 'w transport \<Rightarrow> 'w handler" where
  "ServeProxy dir rt r wh w =
     (case rt (proxied dir r) w of
        (Inl err, w) \<Rightarrow> (ErrorHandler wh err, w)
      | (Inr res, w) \<Rightarrow>
          (res\<lparr>RespHeader := add_headers wh (ModifyResponse (removeHopByHopHeaders (RespHeader res)))\<rparr>, w))"

subsection \<open>Deleting headers\<close>

lemma fold_hdel: "fold (\<lambda>k h. hdel h k) ks h = (\<lambda>k. if k \<in> canon ` set ks then [] else h k)"
  by (induction ks arbitrary: h) (auto simp: hdel_def fun_eq_iff)

lemma hop_canon [simp]:
  "map canon hop_headers = hop_headers"
  by code_simp

lemma hop_set: "canon ` set hop_headers = set hop_headers"
  unfolding set_map [symmetric] hop_canon ..

text \<open>Which headers of the director's survive: not the hop-by-hop ones, not those the client listed.\<close>

lemma removeHopByHopHeaders_eq:
  "removeHopByHopHeaders h =
     (\<lambda>k. if k \<in> set hop_headers \<or> k \<in> canon ` set (connection_tokens h) then [] else h k)"
  by (auto simp: removeHopByHopHeaders_def fold_hdel hop_set fun_eq_iff)

lemma hget_eqI: "h (canon k) = h' (canon k) \<Longrightarrow> hget h k = hget h' k"
  by (simp add: hget_def)

lemma forward_steps_other:
  "k \<noteq> ''X-Request-Id'' \<Longrightarrow> forward_request_id h k = h k"
  "k \<noteq> ''X-Forwarded-For'' \<Longrightarrow> forward_for host h k = h k"
  "k \<noteq> ''X-Forwarded-Proto'' \<Longrightarrow> forward_proto tls h k = h k"
  by (simp_all add: forward_request_id_def forward_for_def forward_proto_def Let_def hset_def)

lemma forward_headers_other:
  assumes "k \<notin> {''X-Forwarded-Host'', ''X-Request-Id'', ''X-Forwarded-For'', ''X-Forwarded-Proto''}"
  shows "forward_headers r k = ReqHeader r k"
  using assms by (simp add: forward_headers_def forward_steps_other) (simp add: hset_def)

lemma Director_req:
  "ReqHeader (o_req (Director target r)) = forward_headers (o_req (singleHostDirector target r))"
  "RemoteAddr (o_req (Director target r)) = RemoteAddr r"
  "ReqHost (o_req (Director target r)) = ReqHost r"
  by (simp_all add: Director_def singleHostDirector_def Let_def)

lemma append_xff_other: "k \<noteq> ''X-Forwarded-For'' \<Longrightarrow> append_xff remote h k = h k"
  by (auto simp: append_xff_def hset_def split: option.splits)

text \<open>A header that the proxy itself does not write reaches the upstream as it was, unless the
  client named it in \<open>Connection\<close>.\<close>

lemma proxied_other:
  assumes "k \<notin> {''X-Forwarded-Host'', ''X-Request-Id'', ''X-Forwarded-For'', ''X-Forwarded-Proto'', ''User-Agent''}"
    and "k \<notin> set hop_headers"
  shows "ReqHeader (o_req (proxied (Director target) r)) k =
    (if k \<in> canon ` set (connection_tokens (ReqHeader r)) then [] else ReqHeader r k)"
proof -
  have ua: "canon ''User-Agent'' = ''User-Agent''" by code_simp
  have fwd: "forward_headers (o_req (singleHostDirector target r)) j = ReqHeader r j"
    if "j \<notin> {''X-Forwarded-Host'', ''X-Request-Id'', ''X-Forwarded-For'', ''X-Forwarded-Proto'', ''User-Agent''}" for j
    using that forward_headers_other [of j] by (auto simp: singleHostDirector_def hset_def ua)
  have ct: "connection_tokens (ReqHeader (o_req (Director target r))) = connection_tokens (ReqHeader r)"
    using fwd [of "''Connection''"] by (simp add: connection_tokens_def Director_req)
  show ?thesis
    using assms fwd [of k] ct
    by (simp add: proxied_def append_xff_other removeHopByHopHeaders_eq Director_req Let_def)
qed

lemma not_hop [simp]:
  "''X-User-Id'' \<notin> set hop_headers" "''X-Real-Ip'' \<notin> set hop_headers" "''X-Internal-Token'' \<notin> set hop_headers"
  by (simp_all add: hop_headers_def)

subsection \<open>Properties\<close>

text \<open>The last entry of the \<open>X-Forwarded-For\<close> that an upstream receives is the host of the
  connection (after \<open>RealIP\<close>, the client address), whatever the client sent in that header or
  listed in \<open>Connection\<close>; so an upstream that reads the rightmost address is not misled.\<close>

lemma proxied_xff_last:
  assumes "SplitHostPort (RemoteAddr r) = Some (host, p)"
  shows "hget (ReqHeader (o_req (proxied dir r))) ''X-Forwarded-For'' = host \<or>
    (\<exists>chain. hget (ReqHeader (o_req (proxied dir r))) ''X-Forwarded-For'' = chain @ '', '' @ host)"
  using assms by (simp add: proxied_def append_xff_def Let_def)

lemma proxied_xff_last_witness:
  "hget (ReqHeader (o_req (proxied (Director \<lparr>u_scheme = ''http'', u_host = ''m:8002'', u_path = []\<rparr>)
      (blank_request\<lparr>RemoteAddr := ''192.0.2.1:9''\<rparr>)))) ''X-Forwarded-For'' = ''192.0.2.1''
   \<or> (\<exists>chain. hget (ReqHeader (o_req (proxied (Director \<lparr>u_scheme = ''http'', u_host = ''m:8002'', u_path = []\<rparr>)
      (blank_request\<lparr>RemoteAddr := ''192.0.2.1:9''\<rparr>)))) ''X-Forwarded-For'' = chain @ '', '' @ ''192.0.2.1'')"
proof (rule proxied_xff_last)
  show "SplitHostPort (RemoteAddr (blank_request\<lparr>RemoteAddr := ''192.0.2.1:9''\<rparr>)) = Some (''192.0.2.1'', ''9'')"
    by code_simp
qed

text \<open>A request that came without \<open>X-Forwarded-For\<close> (and without a \<open>Connection\<close> header) goes
  upstream with the client address in it twice: the director sets the header although the
  library's proxy appends the address itself, so the check "do not duplicate" in the director
  does not keep the entry single.\<close>

theorem proxied_xff_twice:
  assumes "SplitHostPort (RemoteAddr r) = Some (host, p)" "host \<noteq> []"
    and "ReqHeader r ''X-Forwarded-For'' = []" "ReqHeader r ''Connection'' = []"
  shows "hget (ReqHeader (o_req (proxied (Director target) r))) ''X-Forwarded-For'' = host @ '', '' @ host"
proof -
  have rh: "remoteHost (o_req (singleHostDirector target r)) = host"
    using assms(1) by (simp add: remoteHost_def singleHostDirector_def)
  have ua: "canon ''User-Agent'' = ''User-Agent''" by code_simp
  have "hget (forward_request_id (hset h ''X-Forwarded-Host'' v)) ''X-Forwarded-For'' = []"
    if "h ''X-Forwarded-For'' = []" for h v
    using that by (simp add: hget_def forward_steps_other) (simp add: hset_def)
  then have "forward_for host (forward_request_id (hset h ''X-Forwarded-Host'' v)) ''X-Forwarded-For'' = [host]"
    if "h ''X-Forwarded-For'' = []" for h v
    using that assms(2) by (simp add: forward_for_def Let_def) (simp add: hset_def)
  moreover have "ReqHeader (o_req (singleHostDirector target r)) ''X-Forwarded-For'' = []"
    using assms(3) by (simp add: singleHostDirector_def hset_def ua)
  ultimately have "forward_headers (o_req (singleHostDirector target r)) ''X-Forwarded-For'' = [host]"
    by (simp add: forward_headers_def forward_steps_other rh)
  moreover have "forward_headers (o_req (singleHostDirector target r)) ''Connection'' = []"
    using assms(4) forward_headers_other [of "''Connection''"]
    by (simp add: singleHostDirector_def hset_def ua)
  ultimately have f: "forward_headers (o_req (singleHostDirector target r)) ''X-Forwarded-For'' = [host]"
    "forward_headers (o_req (singleHostDirector target r)) ''Connection'' = []" by simp_all
  have "removeHopByHopHeaders (forward_headers (o_req (singleHostDirector target r))) ''X-Forwarded-For'' = [host]"
    using f by (simp add: removeHopByHopHeaders_eq connection_tokens_def hop_headers_def)
  with assms(1) show ?thesis
    by (simp add: proxied_def append_xff_def Director_req Let_def join_def)
qed

lemma proxied_xff_twice_witness:
  "hget (ReqHeader (o_req (proxied (Director \<lparr>u_scheme = ''http'', u_host = ''m:8002'', u_path = []\<rparr>)
      (blank_request\<lparr>RemoteAddr := ''192.0.2.1:9''\<rparr>)))) ''X-Forwarded-For'' = ''192.0.2.1'' @ '', '' @ ''192.0.2.1''"
  by (rule proxied_xff_twice) (code_simp | simp add: blank_request_def no_header_def)+

text \<open>What the services behind the gateway learn of the client: the \<open>X-Real-IP\<close> set by
  \<open>RealIP\<close> and the host of the request pass the proxy unchanged (the director does not put the
  upstream's name into \<open>Host\<close>, as its comment says), except that a client that names
  \<open>X-Real-IP\<close> in its \<open>Connection\<close> header makes the proxy drop it.\<close>

lemma proxied_real_ip:
  "let q = o_req (proxied (Director target) (real_ip_request trusted r)) in
     ReqHost q = ReqHost r \<and>
     hget (ReqHeader q) ''X-Real-IP'' =
       (if ''X-Real-Ip'' \<in> canon ` set (connection_tokens (ReqHeader r)) then [] else ClientIP r trusted)"
proof -
  let ?r = "real_ip_request trusted r"
  have "connection_tokens (ReqHeader ?r) = connection_tokens (ReqHeader r)"
    by (simp add: real_ip_request_def connection_tokens_def Let_def hset_def)
  moreover have "ReqHeader ?r ''X-Real-Ip'' = [ClientIP r trusted]" "ReqHost ?r = ReqHost r"
    by (simp_all add: real_ip_request_def Let_def hset_def)
  ultimately show ?thesis
    using proxied_other [of "''X-Real-Ip''" target ?r]
    by (simp add: Let_def hget_def) (simp add: proxied_def Director_req Let_def)
qed

text \<open>The gateway alone decides the CORS headers, \<open>Vary\<close> and \<open>X-Request-Id\<close> of a proxied
  response: whatever the upstream sends, the client sees the values set by the gateway.\<close>

lemma ServeProxy_headers:
  assumes "rt (proxied dir r) w = (Inr res, w')"
    and "k \<in> {''Access-Control-Allow-Origin'', ''Access-Control-Allow-Credentials'',
       ''Access-Control-Allow-Methods'', ''Access-Control-Allow-Headers'',
       ''Access-Control-Expose-Headers'', ''Access-Control-Max-Age'', ''Vary'', ''X-Request-Id''}"
  shows "RespHeader (fst (ServeProxy dir rt r wh w)) k = wh k"
  using assms
  by (auto simp: ServeProxy_def ModifyResponse_def add_headers_def hdel_def)

lemma ServeProxy_headers_witness:
  "let up = (\<lambda>q w. (Inr (WriteHeader (hset no_header ''Access-Control-Allow-Origin'' ''*'') 200), w));
       res = fst (ServeProxy (Director \<lparr>u_scheme = ''http'', u_host = ''m:8002'', u_path = []\<rparr>) up
                    blank_request (hset no_header ''Access-Control-Allow-Origin'' ''https://a'') ())
   in RespHeader res ''Access-Control-Allow-Origin'' = [''https://a'']"
  unfolding Let_def
  by (subst ServeProxy_headers [where res = "WriteHeader (hset no_header ''Access-Control-Allow-Origin'' ''*'') 200" and w' = "()"])
    (simp_all add: hset_def)



end
