(* ===== verification/Gw_MetaCache.thy ===== *)
theory Gw_MetaCache
  imports Flowix_Http
begin

text \<open>
  The cache of \<open>services/gateway/internal/middleware/hlsauth.go\<close>: a bounded LRU with an expiry
  per entry, a map of pointers into a doubly linked list. It is modelled with the pointers the
  code keeps, proved to keep them consistent and to implement a plain list of entries, and
  offered to its client, the HLS gate, as an interpretation of the interface \<open>meta_cache\<close>.
\<close>

subsection \<open>Data\<close>

record videoMeta =
  ID :: string
  OwnerID :: string
  Visibility :: string
  vm_Status :: string

record metaCacheEntry =
  e_key :: string
  e_meta :: "videoMeta option"
  e_errStatus :: nat
  e_expires :: int

text \<open>
  The cache object. The list elements are pointers (natural numbers), \<open>mc_heap\<close> gives the entry
  an element points to, \<open>mc_lru\<close> the elements from front to back, \<open>mc_next\<close> the next fresh
  pointer. The mutex makes each method one step.
\<close>

record metaCache =
  mc_max :: nat
  mc_ttl :: int
  mc_negTTL :: int
  mc_entries :: "(string \<times> nat) list"
  mc_lru :: "nat list"
  mc_heap :: "nat \<Rightarrow> metaCacheEntry"
  mc_next :: nat

definition no_entry :: metaCacheEntry where
  "no_entry = \<lparr>e_key = [], e_meta = None, e_errStatus = 0, e_expires = 0\<rparr>"

subsection \<open>Operations\<close>

definition newMetaCache :: "nat \<Rightarrow> int \<Rightarrow> int \<Rightarrow> metaCache" where
  "newMetaCache maxn ttl negTTL =
     \<lparr>mc_max = maxn, mc_ttl = ttl, mc_negTTL = negTTL, mc_entries = [], mc_lru = [],
      mc_heap = (\<lambda>_. no_entry), mc_next = 0\<rparr>"

definition list_Remove :: "nat \<Rightarrow> nat list \<Rightarrow> nat list" where
  "list_Remove el l = remove1 el l"

definition list_MoveToFront :: "nat \<Rightarrow> nat list \<Rightarrow> nat list" where
  "list_MoveToFront el l = el # remove1 el l"

definition cache_get :: "int \<Rightarrow> string \<Rightarrow> metaCache \<Rightarrow> metaCacheEntry option \<times> metaCache" where
  "cache_get now videoID c =
     (case map_of (mc_entries c) videoID of None \<Rightarrow> (None, c)
      | Some el \<Rightarrow>
        let e = mc_heap c el in
        if now > e_expires e
        then (None, c\<lparr>mc_lru := list_Remove el (mc_lru c), mc_entries := gmap_del videoID (mc_entries c)\<rparr>)
        else (Some e, c\<lparr>mc_lru := list_MoveToFront el (mc_lru c)\<rparr>))"

text \<open>The end of \<open>put\<close>: over the bound, the element at the back goes.\<close>

definition cache_evict :: "metaCache \<Rightarrow> metaCache" where
  "cache_evict c =
     (if length (mc_entries c) > mc_max c then
        (if mc_lru c \<noteq> [] then
           let back = last (mc_lru c)
           in c\<lparr>mc_entries := gmap_del (e_key (mc_heap c back)) (mc_entries c),
                mc_lru := list_Remove back (mc_lru c)\<rparr>
         else c)
      else c)"

definition cache_put ::
  "int \<Rightarrow> string \<Rightarrow> videoMeta option \<Rightarrow> nat \<Rightarrow> metaCache \<Rightarrow> metaCache" where
  "cache_put now videoID meta errStatus c =
     (let ttl = (if errStatus \<noteq> 0 then mc_negTTL c else mc_ttl c) in
      case map_of (mc_entries c) videoID of
        Some el \<Rightarrow>
          c\<lparr>mc_heap := (mc_heap c)(el := (mc_heap c el)
               \<lparr>e_meta := meta, e_errStatus := errStatus, e_expires := now + ttl\<rparr>),
            mc_lru := list_MoveToFront el (mc_lru c)\<rparr>
      | None \<Rightarrow>
          let el = mc_next c in
          cache_evict
            (c\<lparr>mc_heap := (mc_heap c)(el := \<lparr>e_key = videoID, e_meta = meta,
                  e_errStatus = errStatus, e_expires = now + ttl\<rparr>),
               mc_next := el + 1,
               mc_lru := el # mc_lru c,
               mc_entries := gmap_set videoID el (mc_entries c)\<rparr>))"

subsection \<open>The invariant\<close>

text \<open>
  The list has no element twice, only allocated ones; the map's entries are exactly the pairs
  of an element of the list and its key, each key once; the size is within the bound.
\<close>

definition cache_ok :: "metaCache \<Rightarrow> bool" where
  "cache_ok c \<longleftrightarrow>
     distinct (mc_lru c) \<and> (\<forall>el \<in> set (mc_lru c). el < mc_next c) \<and>
     distinct (map fst (mc_entries c)) \<and>
     set (mc_entries c) = (\<lambda>el. (e_key (mc_heap c el), el)) ` set (mc_lru c) \<and>
     length (mc_lru c) \<le> mc_max c \<and> 0 < mc_max c"

text \<open>The abstract cache: the entries, most recently used first.\<close>

definition cache_abs :: "metaCache \<Rightarrow> metaCacheEntry list" where
  "cache_abs c = map (mc_heap c) (mc_lru c)"

definition abs_lookup :: "metaCacheEntry list \<Rightarrow> string \<Rightarrow> metaCacheEntry option" where
  "abs_lookup es k = find (\<lambda>e. e_key e = k) es"

definition abs_without :: "string \<Rightarrow> metaCacheEntry list \<Rightarrow> metaCacheEntry list" where
  "abs_without k es = filter (\<lambda>e. e_key e \<noteq> k) es"

definition abs_get ::
  "int \<Rightarrow> string \<Rightarrow> metaCacheEntry list \<Rightarrow> metaCacheEntry option \<times> metaCacheEntry list" where
  "abs_get now k es =
     (case abs_lookup es k of None \<Rightarrow> (None, es)
      | Some e \<Rightarrow> if now > e_expires e then (None, abs_without k es) else (Some e, e # abs_without k es))"

definition abs_put :: "nat \<Rightarrow> metaCacheEntry \<Rightarrow> metaCacheEntry list \<Rightarrow> metaCacheEntry list" where
  "abs_put maxn e es = take maxn (e # abs_without (e_key e) es)"

lemma cache_ok_entry:
  assumes "cache_ok c"
  shows "map_of (mc_entries c) k = Some el \<longleftrightarrow> el \<in> set (mc_lru c) \<and> e_key (mc_heap c el) = k"
  using assms by (auto simp: cache_ok_def)

lemma cache_ok_inj:
  assumes "cache_ok c"
  shows "inj_on (\<lambda>el. e_key (mc_heap c el)) (set (mc_lru c))"
proof (rule inj_onI)
  fix a b assume ab: "a \<in> set (mc_lru c)" "b \<in> set (mc_lru c)" "e_key (mc_heap c a) = e_key (mc_heap c b)"
  with cache_ok_entry [OF assms, of "e_key (mc_heap c a)" a] cache_ok_entry [OF assms, of "e_key (mc_heap c a)" b]
  show "a = b" by simp
qed

text \<open>The element of a key is the one entry of the list with that key.\<close>

lemma abs_lookup_entry:
  assumes "cache_ok c"
  shows "abs_lookup (cache_abs c) k = map_option (mc_heap c) (map_of (mc_entries c) k)"
proof (cases "map_of (mc_entries c) k")
  case None
  with assms have "\<forall>el \<in> set (mc_lru c). e_key (mc_heap c el) \<noteq> k"
    by (metis cache_ok_entry option.distinct(1))
  with None show ?thesis by (auto simp: abs_lookup_def cache_abs_def find_None_iff)
next
  case (Some el)
  with cache_ok_entry [OF assms] have el: "el \<in> set (mc_lru c)" "e_key (mc_heap c el) = k" by auto
  have "find (\<lambda>e. e_key e = k) (map (mc_heap c) xs) = Some (mc_heap c el)"
    if "el \<in> set xs" "set xs \<subseteq> set (mc_lru c)" for xs
    using that
  proof (induction xs)
    case (Cons x xs)
    then show ?case using cache_ok_inj [OF assms] el by (auto dest: inj_onD)
  qed simp
  with el Some show ?thesis by (auto simp: abs_lookup_def cache_abs_def)
qed

text \<open>Removing the element of a key is removing the key.\<close>

lemma remove1_filter: "distinct xs \<Longrightarrow> remove1 x xs = filter (\<lambda>y. y \<noteq> x) xs"
  by (simp add: distinct_remove1_removeAll removeAll_filter_not_eq) (metis)

lemma abs_without_entry:
  assumes "cache_ok c" "map_of (mc_entries c) k = Some el"
  shows "map (mc_heap c) (remove1 el (mc_lru c)) = abs_without k (cache_abs c)"
proof -
  have "filter (\<lambda>y. y \<noteq> el) (mc_lru c) = filter (\<lambda>y. e_key (mc_heap c y) \<noteq> k) (mc_lru c)"
    using cache_ok_entry [OF assms(1), of k] assms(2) cache_ok_inj [OF assms(1)]
    by (intro filter_cong) (auto dest: inj_onD)
  then show ?thesis
    using assms(1) by (simp add: abs_without_def cache_abs_def remove1_filter cache_ok_def filter_map comp_def)
qed

lemma cache_ok_length:
  assumes "cache_ok c"
  shows "length (mc_entries c) = length (mc_lru c)"
proof -
  have "length (mc_entries c) = card (set (mc_entries c))"
    using assms by (metis cache_ok_def distinct_card distinct_map)
  also have "\<dots> = card (set (mc_lru c))"
    using assms by (auto simp: cache_ok_def intro!: card_image inj_onI)
  finally show ?thesis using assms by (simp add: cache_ok_def distinct_card)
qed

lemma mem_gmap_del: "p \<in> set (gmap_del k m) \<longleftrightarrow> p \<in> set m \<and> fst p \<noteq> k"
  by (auto simp: gmap_del_def)

subsection \<open>The operations keep the invariant and implement the list\<close>

lemma cache_ok_new: "0 < n \<Longrightarrow> cache_ok (newMetaCache n ttl neg)"
  by (simp add: cache_ok_def newMetaCache_def)

text \<open>Dropping an element of the list together with its key.\<close>

lemma cache_ok_drop:
  assumes ok: "cache_ok c" and el: "el \<in> set (mc_lru c)"
  shows "cache_ok (c\<lparr>mc_lru := remove1 el (mc_lru c), mc_entries := gmap_del (e_key (mc_heap c el)) (mc_entries c)\<rparr>)"
proof -
  have "set (gmap_del (e_key (mc_heap c el)) (mc_entries c))
      = (\<lambda>el. (e_key (mc_heap c el), el)) ` (set (mc_lru c) - {el})"
    using ok el cache_ok_inj [OF ok] by (auto simp: mem_gmap_del cache_ok_def dest: inj_onD)
  then show ?thesis
    using ok el by (auto simp: cache_ok_def length_remove1)
qed

lemma cache_ok_front:
  "cache_ok c \<Longrightarrow> el \<in> set (mc_lru c) \<Longrightarrow> cache_ok (c\<lparr>mc_lru := list_MoveToFront el (mc_lru c)\<rparr>)"
  by (auto simp: cache_ok_def list_MoveToFront_def insert_absorb length_remove1)

lemma cache_get_ok:
  assumes "cache_ok c"
  shows "cache_ok (snd (cache_get now k c))"
proof (cases "map_of (mc_entries c) k")
  case (Some el)
  with cache_ok_entry [OF assms] have el: "el \<in> set (mc_lru c)" "e_key (mc_heap c el) = k" by auto
  then show ?thesis
    using assms cache_ok_drop [OF assms el(1)] cache_ok_front [OF assms el(1)]
    by (simp add: cache_get_def Some Let_def list_Remove_def)
qed (simp add: cache_get_def assms)

lemma cache_get_abs:
  assumes "cache_ok c"
  shows "abs_get now k (cache_abs c) = (fst (cache_get now k c), cache_abs (snd (cache_get now k c)))"
proof (cases "map_of (mc_entries c) k")
  case None
  then show ?thesis by (simp add: abs_get_def abs_lookup_entry [OF assms] cache_get_def)
next
  case (Some el)
  with abs_without_entry [OF assms Some] show ?thesis
    by (simp add: abs_get_def abs_lookup_entry [OF assms] cache_get_def Let_def)
      (simp add: cache_abs_def list_Remove_def list_MoveToFront_def)
qed

text \<open>Overwriting the entry of an element without changing its key.\<close>

lemma cache_ok_overwrite:
  assumes "cache_ok c" "e_key e = e_key (mc_heap c el)"
  shows "cache_ok (c\<lparr>mc_heap := (mc_heap c)(el := e)\<rparr>)"
proof -
  have "e_key (if x = el then e else mc_heap c x) = e_key (mc_heap c x)" for x
    using assms(2) by simp
  with assms(1) show ?thesis by (simp add: cache_ok_def)
qed

text \<open>Pushing a fresh element.\<close>

lemma cache_ok_push:
  assumes ok: "cache_ok c" and new: "map_of (mc_entries c) (e_key e) = None"
  defines "el \<equiv> mc_next c"
  shows "cache_ok (c\<lparr>mc_heap := (mc_heap c)(el := e), mc_next := el + 1, mc_lru := el # mc_lru c,
      mc_entries := gmap_set (e_key e) el (mc_entries c), mc_max := Suc (mc_max c)\<rparr>)"
proof -
  have el: "el \<notin> set (mc_lru c)" using ok by (auto simp: cache_ok_def el_def)
  have "gmap_del (e_key e) (mc_entries c) = mc_entries c"
    using new by (force simp: gmap_del_def filter_id_conv map_of_eq_None_iff)
  moreover have "(\<lambda>x. (e_key (if x = el then e else mc_heap c x), x)) ` set (mc_lru c)
      = (\<lambda>x. (e_key (mc_heap c x), x)) ` set (mc_lru c)"
    by (rule image_cong) (use el in auto)
  ultimately show ?thesis
    using el ok new by (auto simp: cache_ok_def gmap_set_def el_def map_of_eq_None_iff less_Suc_eq)
qed

lemma cache_put_old:
  assumes ok: "cache_ok c" and el: "map_of (mc_entries c) k = Some el"
  shows "cache_ok (cache_put now k m st c) \<and>
    cache_abs (cache_put now k m st c)
      = abs_put (mc_max c) \<lparr>e_key = k, e_meta = m, e_errStatus = st,
          e_expires = now + (if st \<noteq> 0 then mc_negTTL c else mc_ttl c)\<rparr> (cache_abs c)"
proof -
  let ?e = "\<lparr>e_key = k, e_meta = m, e_errStatus = st,
          e_expires = now + (if st \<noteq> 0 then mc_negTTL c else mc_ttl c)\<rparr>"
  from cache_ok_entry [OF ok] el have l: "el \<in> set (mc_lru c)" "e_key (mc_heap c el) = k" by auto
  let ?c = "c\<lparr>mc_heap := (mc_heap c)(el := ?e)\<rparr>"
  have e: "(mc_heap c el)\<lparr>e_meta := m, e_errStatus := st, e_expires := e_expires ?e\<rparr> = ?e"
    using l by (simp add: metaCacheEntry.equality)
  have put: "cache_put now k m st c = ?c\<lparr>mc_lru := list_MoveToFront el (mc_lru c)\<rparr>"
    using e by (simp add: cache_put_def el Let_def)
  have ok': "cache_ok ?c" using ok l by (intro cache_ok_overwrite) simp_all
  have "distinct (mc_lru c)" using ok by (simp add: cache_ok_def)
  then have "map (mc_heap ?c) (remove1 el (mc_lru c)) = map (mc_heap c) (remove1 el (mc_lru c))" by auto
  with abs_without_entry [OF ok el] have w: "map (mc_heap ?c) (remove1 el (mc_lru c)) = abs_without k (cache_abs c)"
    by simp
  have "Suc (length (remove1 el (mc_lru c))) = length (mc_lru c)"
    using length_pos_if_in_set [OF l(1)] l(1) by (simp add: length_remove1)
  then have "Suc (length (abs_without k (cache_abs c))) \<le> mc_max c"
    using ok arg_cong [OF w, of length] by (simp add: cache_ok_def)
  then have "cache_abs (?c\<lparr>mc_lru := list_MoveToFront el (mc_lru c)\<rparr>) = abs_put (mc_max c) ?e (cache_abs c)"
    using w by (simp add: cache_abs_def list_MoveToFront_def abs_put_def)
  with cache_ok_front [OF ok'] l put show ?thesis by simp
qed

text \<open>Dropping the last element.\<close>

lemma remove1_last: "distinct xs \<Longrightarrow> xs \<noteq> [] \<Longrightarrow> remove1 (last xs) xs = butlast xs"
  by (induction xs) auto

lemma cache_evict_correct:
  assumes ok: "cache_ok (c\<lparr>mc_max := Suc (mc_max c)\<rparr>)" and pos: "0 < mc_max c"
  shows "cache_ok (cache_evict c) \<and> mc_max (cache_evict c) = mc_max c \<and>
    cache_abs (cache_evict c) = take (mc_max c) (cache_abs c)"
proof -
  have len: "length (mc_entries c) = length (mc_lru c)" using cache_ok_length [OF ok] by simp
  have d: "distinct (mc_lru c)" "length (mc_lru c) \<le> Suc (mc_max c)" using ok by (simp_all add: cache_ok_def)
  show ?thesis
  proof (cases "mc_max c < length (mc_lru c)")
    case False
    then show ?thesis using ok pos by (simp add: cache_evict_def len cache_ok_def) (simp add: cache_abs_def)
  next
    case True
    then have ne: "mc_lru c \<noteq> []" and n: "length (mc_lru c) = Suc (mc_max c)" using d by auto
    let ?b = "last (mc_lru c)"
    let ?c = "c\<lparr>mc_entries := gmap_del (e_key (mc_heap c ?b)) (mc_entries c), mc_lru := remove1 ?b (mc_lru c)\<rparr>"
    have ev: "cache_evict c = ?c" using True ne by (simp add: cache_evict_def len list_Remove_def Let_def)
    have b: "?b \<in> set (mc_lru (c\<lparr>mc_max := Suc (mc_max c)\<rparr>))" using ne by simp
    have bl: "remove1 ?b (mc_lru c) = butlast (mc_lru c)" by (rule remove1_last [OF d(1) ne])
    have "cache_ok ?c" using cache_ok_drop [OF ok b] pos n bl by (simp add: cache_ok_def)
    moreover have "cache_abs ?c = take (mc_max c) (cache_abs c)"
      using bl n by (simp add: cache_abs_def butlast_conv_take take_map)
    ultimately show ?thesis using ev by simp
  qed
qed

lemma cache_put_new:
  assumes ok: "cache_ok c" and new: "map_of (mc_entries c) k = None"
  shows "cache_ok (cache_put now k m st c) \<and>
    cache_abs (cache_put now k m st c)
      = abs_put (mc_max c) \<lparr>e_key = k, e_meta = m, e_errStatus = st,
          e_expires = now + (if st \<noteq> 0 then mc_negTTL c else mc_ttl c)\<rparr> (cache_abs c)"
proof -
  let ?e = "\<lparr>e_key = k, e_meta = m, e_errStatus = st,
          e_expires = now + (if st \<noteq> 0 then mc_negTTL c else mc_ttl c)\<rparr>"
  let ?el = "mc_next c"
  define cc where "cc = c\<lparr>mc_heap := (mc_heap c)(?el := ?e), mc_next := ?el + 1, mc_lru := ?el # mc_lru c,
      mc_entries := gmap_set k ?el (mc_entries c)\<rparr>"
  have put: "cache_put now k m st c = cache_evict cc"
    unfolding cache_put_def Let_def new option.case cc_def ..
  have "cache_ok (cc\<lparr>mc_max := Suc (mc_max cc)\<rparr>)"
    using cache_ok_push [OF ok, of ?e] new by (simp add: cc_def)
  moreover have "0 < mc_max cc" "mc_max cc = mc_max c" using ok by (simp_all add: cc_def cache_ok_def)
  moreover have "?el \<notin> set (mc_lru c)" using ok by (auto simp: cache_ok_def)
  then have "cache_abs cc = ?e # cache_abs c" by (auto simp: cache_abs_def cc_def)
  moreover have "abs_without k (cache_abs c) = cache_abs c"
    using new cache_ok_entry [OF ok, of k] by (auto simp: abs_without_def cache_abs_def filter_id_conv)
  ultimately show ?thesis using cache_evict_correct [of cc] by (simp add: put abs_put_def)
qed

definition fresh_entry :: "int \<Rightarrow> string \<Rightarrow> videoMeta option \<Rightarrow> nat \<Rightarrow> metaCache \<Rightarrow> metaCacheEntry" where
  "fresh_entry now k m st c =
     \<lparr>e_key = k, e_meta = m, e_errStatus = st,
      e_expires = now + (if st \<noteq> 0 then mc_negTTL c else mc_ttl c)\<rparr>"

lemma cache_put_correct:
  assumes "cache_ok c"
  shows "cache_ok (cache_put now k m st c)"
    and "cache_abs (cache_put now k m st c) = abs_put (mc_max c) (fresh_entry now k m st c) (cache_abs c)"
  using cache_put_old [OF assms, of k] cache_put_new [OF assms, of k]
  by (cases "map_of (mc_entries c) k"; simp add: fresh_entry_def)+

lemma cache_consts:
  "mc_max (snd (cache_get now k c)) = mc_max c \<and> mc_ttl (snd (cache_get now k c)) = mc_ttl c \<and>
   mc_negTTL (snd (cache_get now k c)) = mc_negTTL c"
  "mc_max (cache_put now k m st c) = mc_max c \<and> mc_ttl (cache_put now k m st c) = mc_ttl c \<and>
   mc_negTTL (cache_put now k m st c) = mc_negTTL c"
  by (auto simp: cache_get_def cache_put_def cache_evict_def Let_def split: option.split)

subsection \<open>The interface\<close>

text \<open>
  What a client of the cache relies on: \<open>look\<close> is the entry stored under a key, expired or not.
  A hit is the stored entry before its deadline; no operation makes up an entry, and a \<open>put\<close>
  stores the one it is given.
\<close>

locale meta_cache =
  fixes get :: "int \<Rightarrow> string \<Rightarrow> 'c \<Rightarrow> metaCacheEntry option \<times> 'c"
    and put :: "int \<Rightarrow> string \<Rightarrow> videoMeta option \<Rightarrow> nat \<Rightarrow> 'c \<Rightarrow> 'c"
    and look :: "'c \<Rightarrow> string \<Rightarrow> metaCacheEntry option"
    and ok :: "'c \<Rightarrow> bool"
    and entry :: "int \<Rightarrow> string \<Rightarrow> videoMeta option \<Rightarrow> nat \<Rightarrow> 'c \<Rightarrow> metaCacheEntry"
  assumes get_ok: "ok c \<Longrightarrow> ok (snd (get now k c))"
    and put_ok: "ok c \<Longrightarrow> ok (put now k m st c)"
    and hit: "ok c \<Longrightarrow> fst (get now k c) = Some e \<longleftrightarrow> look c k = Some e \<and> now \<le> e_expires e"
    and get_keeps: "ok c \<Longrightarrow> look (snd (get now k c)) k' = Some e \<Longrightarrow> look c k' = Some e"
    and put_stores: "ok c \<Longrightarrow> look (put now k m st c) k = Some (entry now k m st c)"
    and put_keeps: "ok c \<Longrightarrow> k' \<noteq> k \<Longrightarrow> look (put now k m st c) k' = Some e \<Longrightarrow> look c k' = Some e"
begin

text \<open>A property of all stored entries survives a \<open>get\<close>, and a \<open>put\<close> of an entry that has it.\<close>

definition all_entries :: "(string \<Rightarrow> metaCacheEntry \<Rightarrow> bool) \<Rightarrow> 'c \<Rightarrow> bool" where
  "all_entries P c \<longleftrightarrow> ok c \<and> (\<forall>k e. look c k = Some e \<longrightarrow> P k e)"

lemma all_entries_get: "all_entries P c \<Longrightarrow> all_entries P (snd (get now k c))"
  by (auto simp: all_entries_def get_ok dest: get_keeps)

lemma all_entries_put:
  assumes "all_entries P c" "P k (entry now k m st c)"
  shows "all_entries P (put now k m st c)"
  unfolding all_entries_def
proof (intro conjI allI impI)
  show "ok (put now k m st c)" using assms(1) by (simp add: all_entries_def put_ok)
  fix k' e
  assume "look (put now k m st c) k' = Some e"
  with assms show "P k' e"
    by (cases "k' = k") (auto simp: all_entries_def put_stores dest: put_keeps)
qed

lemma hit_entry: "all_entries P c \<Longrightarrow> fst (get now k c) = Some e \<Longrightarrow> P k e \<and> now \<le> e_expires e"
  by (simp add: all_entries_def hit)

text \<open>Right after a \<open>put\<close> the entry is a hit until it expires.\<close>

lemma put_then_get:
  "ok c \<Longrightarrow> now' \<le> e_expires (entry now k m st c) \<Longrightarrow>
   fst (get now' k (put now k m st c)) = Some (entry now k m st c)"
  by (simp add: hit put_ok put_stores)

end

definition cache_look :: "metaCache \<Rightarrow> string \<Rightarrow> metaCacheEntry option" where
  "cache_look c k = abs_lookup (cache_abs c) k"

lemma abs_lookup_without:
  "abs_lookup (abs_without k es) k' = (if k' = k then None else abs_lookup es k')"
  by (induction es) (auto simp: abs_lookup_def abs_without_def)

lemma abs_lookup_Cons:
  "abs_lookup (e # es) k = (if e_key e = k then Some e else abs_lookup es k)"
  by (simp add: abs_lookup_def)

lemma abs_lookup_take: "abs_lookup (take n es) k = Some e \<Longrightarrow> abs_lookup es k = Some e"
proof (induction es arbitrary: n)
  case (Cons x es)
  then show ?case by (cases n) (auto simp: abs_lookup_Cons abs_lookup_def split: if_splits)
qed (simp add: abs_lookup_def)

lemma abs_lookup_key: "abs_lookup es k = Some e \<Longrightarrow> e_key e = k"
  by (auto simp: abs_lookup_def find_Some_iff)

interpretation mc: meta_cache cache_get cache_put cache_look cache_ok fresh_entry
proof unfold_locales
  fix c :: metaCache and now k m st k' e
  assume ok: "cache_ok c"
  note g = cache_get_abs [OF ok, of now k]
  show "cache_ok (snd (cache_get now k c))" by (rule cache_get_ok [OF ok])
  show "cache_ok (cache_put now k m st c)" by (rule cache_put_correct [OF ok])
  have "fst (cache_get now k c) = fst (abs_get now k (cache_abs c))" by (simp add: g)
  then show "fst (cache_get now k c) = Some e \<longleftrightarrow> cache_look c k = Some e \<and> now \<le> e_expires e"
    by (auto simp: abs_get_def cache_look_def split: option.split)
  have get: "cache_abs (snd (cache_get now k c)) = snd (abs_get now k (cache_abs c))" by (simp add: g)
  show "cache_look (snd (cache_get now k c)) k' = Some e \<Longrightarrow> cache_look c k' = Some e"
    unfolding cache_look_def get abs_get_def
    by (auto simp: abs_lookup_without abs_lookup_Cons split: option.splits if_splits dest: abs_lookup_key)
  note p = cache_put_correct(2) [OF ok, of now k m st]
  have "0 < mc_max c" using ok by (simp add: cache_ok_def)
  then show "cache_look (cache_put now k m st c) k = Some (fresh_entry now k m st c)"
    unfolding cache_look_def p abs_put_def
    by (cases "mc_max c") (simp_all add: abs_lookup_Cons fresh_entry_def)
  show "k' \<noteq> k \<Longrightarrow> cache_look (cache_put now k m st c) k' = Some e \<Longrightarrow> cache_look c k' = Some e"
    unfolding cache_look_def p abs_put_def
    by (drule abs_lookup_take) (simp add: abs_lookup_Cons abs_lookup_without fresh_entry_def)
qed

subsection \<open>Properties\<close>

text \<open>The caches that the code can get to.\<close>

inductive cache_reachable :: "nat \<Rightarrow> int \<Rightarrow> int \<Rightarrow> metaCache \<Rightarrow> bool" for n ttl neg where
  new: "cache_reachable n ttl neg (newMetaCache n ttl neg)"
| got: "cache_reachable n ttl neg c \<Longrightarrow> cache_reachable n ttl neg (snd (cache_get now k c))"
| was_put: "cache_reachable n ttl neg c \<Longrightarrow> cache_reachable n ttl neg (cache_put now k m st c)"

lemma cache_reachable_ok:
  "cache_reachable n ttl neg c \<Longrightarrow> 0 < n \<Longrightarrow> cache_ok c \<and> mc_max c = n"
proof (induction rule: cache_reachable.induct)
  case new
  then show ?case using cache_ok_new by (simp add: newMetaCache_def)
qed (simp_all add: cache_get_ok cache_put_correct cache_consts)

text \<open>C25: after any sequence of \<open>get\<close>s and \<open>put\<close>s the map and the linked list agree: the map has
  one entry per element of the list, under the key the element's entry has, so no pointer
  dangles, and both stay within the bound given to \<open>newMetaCache\<close>.\<close>

theorem metaCache_invariant:
  assumes "cache_reachable n ttl neg c" "0 < n"
  shows "length (mc_lru c) \<le> n \<and> length (mc_entries c) = length (mc_lru c) \<and> distinct (mc_lru c) \<and>
    (map_of (mc_entries c) k = Some el \<longleftrightarrow> el \<in> set (mc_lru c) \<and> e_key (mc_heap c el) = k)"
proof -
  from cache_reachable_ok [OF assms] have "cache_ok c" "mc_max c = n" by auto
  with cache_ok_length [of c] cache_ok_entry [of c k el] show ?thesis by (simp add: cache_ok_def)
qed

lemma metaCache_invariant_witness:
  "length (mc_lru (cache_put 2 ''b'' None 404 (cache_put 1 ''a'' None 404 (newMetaCache 1 10 5)))) \<le> 1 \<and>
   map_of (mc_entries (cache_put 2 ''b'' None 404 (cache_put 1 ''a'' None 404 (newMetaCache 1 10 5)))) ''b'' = Some 1"
proof -
  have "cache_reachable 1 10 5 (cache_put 2 ''b'' None 404 (cache_put 1 ''a'' None 404 (newMetaCache 1 10 5)))"
    by (intro cache_reachable.intros)
  from metaCache_invariant [OF this, of "''b''" 1] show ?thesis by (simp, code_simp)
qed

text \<open>C4: the pointer structure implements the specification of an LRU cache: on the list of the
  entries, most recently used first, \<open>get\<close> is a lookup that drops an expired entry and moves
  a hit to the front, and \<open>put\<close> puts the new entry in front, drops the old one of the key and
  cuts the list at the bound, so the least recently used entry is the one evicted.\<close>

theorem metaCache_refines_lru:
  assumes "cache_ok c"
  shows "(fst (cache_get now k c), cache_abs (snd (cache_get now k c))) = abs_get now k (cache_abs c) \<and>
    cache_abs (cache_put now k m st c) = abs_put (mc_max c) (fresh_entry now k m st c) (cache_abs c)"
  using cache_get_abs [OF assms] cache_put_correct(2) [OF assms] by simp

lemma metaCache_refines_lru_witness:
  "cache_abs (cache_put 1 ''a'' None 404 (newMetaCache 1 10 5))
     = [\<lparr>e_key = ''a'', e_meta = None, e_errStatus = 404, e_expires = 6\<rparr>]"
  using metaCache_refines_lru [OF cache_ok_new [of 1 10 5], of 1 "''a''" None 404]
  by (simp add: abs_put_def fresh_entry_def newMetaCache_def cache_abs_def abs_without_def)

end
