(* ===== verification/Gw_HlsAuth.thy ===== *)
theory Gw_HlsAuth
  imports Pkg_Auth Gw_RateLimit Gw_MetaCache
begin

text \<open>
  \<open>services/gateway/internal/middleware/hlsauth.go\<close>: the gate in front of the video segments.
  A private video is served to its owner only, proved by an access token or by a short-lived
  HLS token, which \<open>HLSTokenHandler\<close> issues. The answers of the metadata service come from its
  HTTP client, a parameter, through the cache of \<open>Gw_MetaCache\<close>. The lemmas give the exact
  condition under which a request passes, what a token is good for, and how old the visibility
  that a decision rests on can be.
\<close>

subsection \<open>Tokens\<close>

definition hls_id_char :: "char \<Rightarrow> bool" where
  "hls_id_char c \<longleftrightarrow> is_hex c \<or> c = CHR ''-''"

text \<open>The leftmost match of the path expression, as \<open>FindStringSubmatch\<close> finds it.\<close>

fun extractVideoID :: "string \<Rightarrow> string" where
  "extractVideoID [] = []"
| "extractVideoID (c # s) =
     (let path = c # s; m = take 36 (drop 5 path) in
      if HasPrefix path ''/hls/'' \<and> length m = 36 \<and> list_all hls_id_char m then m
      else extractVideoID s)"

definition hlsTokenTTL :: int where
  "hlsTokenTTL = 15 * time_Minute"

definition unix :: "int \<Rightarrow> int" where
  "unix now = now div time_Second"

definition GenerateHLSToken :: "jwt \<Rightarrow> int \<Rightarrow> string \<Rightarrow> string \<Rightarrow> string \<Rightarrow> go_error + string" where
  "GenerateHLSToken J now videoID userID secret =
     jwt_sign J secret
       [''sub'' \<mapsto> JStr userID, ''video_id'' \<mapsto> JStr videoID,
        ''exp'' \<mapsto> JNum (Itoa (unix (now + hlsTokenTTL))), ''iat'' \<mapsto> JNum (Itoa (unix now)),
        ''type'' \<mapsto> JStr ''hls'']"

text \<open>\<open>None\<close> stands for the result \<open>("", false)\<close>.\<close>

definition validateHLSToken :: "jwt \<Rightarrow> int \<Rightarrow> string \<Rightarrow> string \<Rightarrow> string \<Rightarrow> string option" where
  "validateHLSToken J now tokenStr expectedVideoID secret =
     (case jwt_parse J (unix now) secret tokenStr of None \<Rightarrow> None
      | Some cl \<Rightarrow>
        if claim_str cl ''type'' \<noteq> ''hls'' then None
        else let vid = claim_str cl ''video_id'' in
          if vid = [] \<or> \<not> EqualFold vid expectedVideoID then None
          else Some (claim_str cl ''sub''))"

definition validateAccessToken :: "jwt \<Rightarrow> int \<Rightarrow> request \<Rightarrow> string \<Rightarrow> string option" where
  "validateAccessToken J now r secret =
     (let h = hget (ReqHeader r) ''Authorization'' in
      if h = [] \<or> \<not> HasPrefix h ''Bearer '' then None
      else
        (case jwt_parse J (unix now) secret (TrimPrefix h ''Bearer '') of None \<Rightarrow> None
         | Some cl \<Rightarrow>
           if claim_str cl ''type'' \<noteq> ''access'' then None
           else if claim_str cl ''sub'' = [] then None
           else Some (claim_str cl ''sub'')))"

subsection \<open>Metadata lookups\<close>

text \<open>
  The HTTP client: for a URL and a value of \<open>X-Internal-Token\<close> (empty: not sent) the transport
  error, or the status and the JSON body.
\<close>

type_synonym meta_client = "string \<Rightarrow> string \<Rightarrow> go_error + nat \<times> json option"

definition decode_videoMeta :: "json option \<Rightarrow> go_error + videoMeta" where
  "decode_videoMeta body =
     (case body of None \<Rightarrow> Inl (Err ''invalid JSON'')
      | Some j \<Rightarrow>
        (case jmembers j of None \<Rightarrow> Inl (Err ''json: cannot unmarshal'')
         | Some ms \<Rightarrow>
           (case (string_field ''id'' ms, string_field ''owner_id'' ms,
                  string_field ''visibility'' ms, string_field ''status'' ms) of
              (Some i, Some ow, Some vis, Some st) \<Rightarrow>
                Inr \<lparr>ID = i, OwnerID = ow, Visibility = vis, vm_Status = st\<rparr>
            | _ \<Rightarrow> Inl (Err ''json: cannot unmarshal''))))"

definition fetchVideoMeta :: "meta_client \<Rightarrow> string \<Rightarrow> string \<Rightarrow> string \<Rightarrow> go_error + videoMeta" where
  "fetchVideoMeta client metadataURL internalToken videoID =
     (case client (TrimSuffix metadataURL ''/'' @ ''/internal/videos/'' @ videoID) internalToken of
        Inl err \<Rightarrow> Inl err
      | Inr (status, body) \<Rightarrow>
        if status \<noteq> 200 then Inl (StatusError status)
        else (case decode_videoMeta body of Inl err \<Rightarrow> Inl err
              | Inr v \<Rightarrow> Inr (if Visibility v = [] then v\<lparr>Visibility := ''public''\<rparr> else v)))"

text \<open>\<open>getMeta\<close>: the cache is read at \<open>now\<close>, the answer stored at \<open>now2\<close>.\<close>

definition store_meta :: "int \<Rightarrow> string \<Rightarrow> go_error + videoMeta \<Rightarrow> metaCache \<Rightarrow> metaCache" where
  "store_meta now2 videoID res c =
     (case res of
        Inr meta \<Rightarrow> cache_put now2 videoID (Some meta) 0 c
      | Inl (StatusError status) \<Rightarrow>
          if status = 404 \<or> status = 403 then cache_put now2 videoID None status c else c
      | Inl _ \<Rightarrow> c)"

definition getMeta ::
  "int \<Rightarrow> int \<Rightarrow> meta_client \<Rightarrow> string \<Rightarrow> string \<Rightarrow> string \<Rightarrow> metaCache \<Rightarrow> (go_error + videoMeta) \<times> metaCache" where
  "getMeta now now2 client metadataURL internalToken videoID c =
     (case cache_get now videoID c of
        (Some e, c) \<Rightarrow>
          (case e_meta e of Some meta \<Rightarrow> Inr meta | None \<Rightarrow> Inl (StatusError (e_errStatus e)), c)
      | (None, c) \<Rightarrow>
          let res = fetchVideoMeta client metadataURL internalToken videoID
          in (res, store_meta now2 videoID res c))"

subsection \<open>The gate\<close>

text \<open>The state of the gateway process: the limiter's, and the cache made by \<open>HLSAuth\<close>.\<close>

record 's gw_world = "'s rl_world" +
  hls_cache :: metaCache

definition metaCacheTTL :: int where "metaCacheTTL = 10 * time_Second"

definition metaNegCacheTTL :: int where "metaNegCacheTTL = 5 * time_Second"

definition metaCacheMaxEntries :: nat where "metaCacheMaxEntries = 4096"

text \<open>
  \<open>hlsCacheWriter\<close>: the headers it sets when the response's header is written, on what the
  handler behind it has set by then. Only final responses are modelled, so the header is
  written once.
\<close>

definition cache_headers :: "string \<Rightarrow> header \<Rightarrow> header" where
  "cache_headers visibility h =
     (if visibility = ''private'' then
        hset (hset (hset h ''Cache-Control'' ''private, max-age=10'')
          ''CDN-Cache-Control'' ''private, max-age=10'')
          ''Surrogate-Control'' ''max-age=10''
      else if hget h ''Cache-Control'' = [] then hset h ''Cache-Control'' ''public, max-age=86400''
      else h)"

definition hlsCacheWriter :: "string \<Rightarrow> 'w handler \<Rightarrow> 'w handler" where
  "hlsCacheWriter visibility next r wh w =
     (let (res, w) = next r wh w
      in (res\<lparr>RespHeader := cache_headers visibility (RespHeader res)\<rparr>, w))"

definition HLSAuth ::
  "jwt \<Rightarrow> int \<Rightarrow> int \<Rightarrow> meta_client \<Rightarrow> string \<Rightarrow> string \<Rightarrow> string
   \<Rightarrow> ('s, 'm) gw_world_scheme handler \<Rightarrow> ('s, 'm) gw_world_scheme handler" where
  "HLSAuth J now now2 client jwtSecret internalToken metadataURL next r wh w =
     (let videoID = extractVideoID (URLPath r) in
      if videoID = [] then next r wh w
      else
        (let (res, c) = getMeta now now2 client metadataURL internalToken videoID (hls_cache w);
             w = w\<lparr>hls_cache := c\<rparr>
         in case res of
           Inl err \<Rightarrow>
             if err = StatusError 404 then next r wh w
             else (http_Error wh ''{\"error\":\"upstream unavailable\"}'' 502, w)
         | Inr meta \<Rightarrow>
             let vis = (if Visibility meta = [] then ''public'' else Visibility meta) in
             if vis = ''public'' \<or> vis = ''unlisted'' then hlsCacheWriter vis next r wh w
             else
               let tokenParam = query_get r ''token'';
                   tokenParam = (if tokenParam = [] then hget (ReqHeader r) ''X-HLS-Token'' else tokenParam)
               in if tokenParam \<noteq> [] \<and>
                     validateHLSToken J now2 tokenParam videoID jwtSecret = Some (OwnerID meta)
                  then hlsCacheWriter vis next r wh w
                  else if validateAccessToken J now2 r jwtSecret = Some (OwnerID meta)
                  then hlsCacheWriter vis next
                         (r\<lparr>ReqHeader := hset (ReqHeader r) ''X-User-ID'' (OwnerID meta)\<rparr>) wh w
                  else (http_Error wh ''{\"error\":\"forbidden: private video\"}'' 403, w)))"

subsection \<open>The token handler\<close>

definition Trim_slash :: "string \<Rightarrow> string" where
  "Trim_slash s = rev (dropWhile (\<lambda>c. c = CHR ''/'') (rev (dropWhile (\<lambda>c. c = CHR ''/'') s)))"

text \<open>The part after the first \<open>videos\<close> that has one.\<close>

fun after_videos :: "string list \<Rightarrow> string" where
  "after_videos (p # q # ps) = (if p = ''videos'' then q else after_videos (q # ps))"
| "after_videos _ = []"

definition hls_video_id :: "request \<Rightarrow> string" where
  "hls_video_id r =
     (if UrlId r \<noteq> [] then UrlId r
      else if query_get r ''id'' \<noteq> [] then query_get r ''id''
      else let parts = Split CHR ''/'' (Trim_slash (URLPath r))
        in if 4 \<le> length parts then after_videos parts else [])"

definition HLSTokenHandler ::
  "jwt \<Rightarrow> int \<Rightarrow> meta_client \<Rightarrow> string \<Rightarrow> string \<Rightarrow> string \<Rightarrow> 'w handler" where
  "HLSTokenHandler J now client jwtSecret internalToken metadataURL r wh w =
     (let videoID = hls_video_id r;
          userID = UserIDFromCtx r;
          userID = (if userID = [] then
                      (case validateAccessToken J now r jwtSecret of Some sub \<Rightarrow> sub | None \<Rightarrow> [])
                    else userID)
      in if userID = [] then (http_Error wh ''{\"error\":\"missing token\"}'' 401, w)
         else if videoID = [] then (http_Error wh ''{\"error\":\"missing video id\"}'' 400, w)
         else (case fetchVideoMeta client metadataURL internalToken videoID of
             Inl err \<Rightarrow> (http_Error wh ''{\"error\":\"not found\"}'' 404, w)
           | Inr meta \<Rightarrow>
             if OwnerID meta \<noteq> userID then (http_Error wh ''{\"error\":\"forbidden\"}'' 403, w)
             else (case GenerateHLSToken J now videoID userID jwtSecret of
                 Inl err \<Rightarrow> (http_Error wh ''{\"error\":\"internal\"}'' 500, w)
               | Inr token \<Rightarrow>
                 (\<lparr>Status = 200, RespHeader = hset wh ''Content-Type'' ''application/json'',
                   RespBody = Json False (JObj
                     [(''token'', JStr token),
                      (''expires_in'', JNum (Itoa (hlsTokenTTL div time_Second))),
                      (''url'', JStr (''/hls/'' @ videoID @ ''/master.m3u8?token='' @ token))])\<rparr>, w))))"

subsection \<open>Tokens and identities\<close>

text \<open>The gate reads access tokens exactly as the authentication middlewares do.\<close>

lemma validateAccessToken_identity:
  "validateAccessToken J now r secret = access_identity J (unix now) secret (ReqHeader r)"
  by (auto simp: validateAccessToken_def access_identity_def Let_def split: option.splits)

lemma validateAccessToken_hset [simp]:
  "validateAccessToken J now (r\<lparr>ReqHeader := hset (ReqHeader r) ''X-User-ID'' v\<rparr>) secret
    = validateAccessToken J now r secret"
  by (simp add: validateAccessToken_identity)

text \<open>What the gate demands for a private video.\<close>

definition hls_token_of :: "request \<Rightarrow> string" where
  "hls_token_of r = (if query_get r ''token'' = [] then hget (ReqHeader r) ''X-HLS-Token'' else query_get r ''token'')"

definition may_watch :: "jwt \<Rightarrow> int \<Rightarrow> string \<Rightarrow> request \<Rightarrow> string \<Rightarrow> videoMeta \<Rightarrow> bool" where
  "may_watch J now secret r videoID meta \<longleftrightarrow>
     Visibility meta \<in> {[], ''public'', ''unlisted''} \<or>
     (hls_token_of r \<noteq> [] \<and> validateHLSToken J now (hls_token_of r) videoID secret = Some (OwnerID meta)) \<or>
     access_identity J (unix now) secret (ReqHeader r) = Some (OwnerID meta)"

text \<open>The handler behind the gate, as the gate calls it.\<close>

lemma HLSAuth_found:
  assumes "extractVideoID (URLPath r) = videoID" "videoID \<noteq> []"
    and "getMeta now now2 client url tok videoID (hls_cache w) = (Inr meta, c)"
  shows "if may_watch J now2 secret r videoID meta
    then \<exists>vis h. HLSAuth J now now2 client secret tok url next r wh w
                  = hlsCacheWriter vis next (r\<lparr>ReqHeader := h\<rparr>) wh (w\<lparr>hls_cache := c\<rparr>)
               \<and> (vis = Visibility meta \<or> Visibility meta = [] \<and> vis = ''public'')
               \<and> (\<forall>k. k \<noteq> ''X-User-Id'' \<longrightarrow> h k = ReqHeader r k)
    else HLSAuth J now now2 client secret tok url next r wh w
           = (http_Error wh ''{\"error\":\"forbidden: private video\"}'' 403, w\<lparr>hls_cache := c\<rparr>)"
proof -
  let ?H = "HLSAuth J now now2 client secret tok url next r wh w" and ?w = "w\<lparr>hls_cache := c\<rparr>"
  let ?vis = "if Visibility meta = [] then ''public'' else Visibility meta"
  let ?owner = "Some (OwnerID meta)"
  have H: "?H = (if ?vis = ''public'' \<or> ?vis = ''unlisted'' then hlsCacheWriter ?vis next r wh ?w
      else if hls_token_of r \<noteq> [] \<and> validateHLSToken J now2 (hls_token_of r) videoID secret = ?owner
        then hlsCacheWriter ?vis next r wh ?w
      else if validateAccessToken J now2 r secret = ?owner
        then hlsCacheWriter ?vis next (r\<lparr>ReqHeader := hset (ReqHeader r) ''X-User-ID'' (OwnerID meta)\<rparr>) wh ?w
      else (http_Error wh ''{\"error\":\"forbidden: private video\"}'' 403, ?w))"
    unfolding HLSAuth_def Let_def assms(1,3) hls_token_of_def using assms(2) by simp
  have same: "\<exists>vis h. hlsCacheWriter ?vis next r wh ?w = hlsCacheWriter vis next (r\<lparr>ReqHeader := h\<rparr>) wh ?w
      \<and> (vis = Visibility meta \<or> Visibility meta = [] \<and> vis = ''public'')
      \<and> (\<forall>k. k \<noteq> ''X-User-Id'' \<longrightarrow> h k = ReqHeader r k)"
    by (intro exI [of _ ?vis] exI [of _ "ReqHeader r"]) simp
  have mw: "may_watch J now2 secret r videoID meta \<longleftrightarrow> (?vis = ''public'' \<or> ?vis = ''unlisted'') \<or>
      (hls_token_of r \<noteq> [] \<and> validateHLSToken J now2 (hls_token_of r) videoID secret = ?owner) \<or>
      validateAccessToken J now2 r secret = ?owner"
    by (simp add: may_watch_def validateAccessToken_identity)
  consider "?vis = ''public'' \<or> ?vis = ''unlisted''"
    | "\<not> (?vis = ''public'' \<or> ?vis = ''unlisted'')"
      "hls_token_of r \<noteq> [] \<and> validateHLSToken J now2 (hls_token_of r) videoID secret = ?owner"
    | "\<not> (?vis = ''public'' \<or> ?vis = ''unlisted'')"
      "\<not> (hls_token_of r \<noteq> [] \<and> validateHLSToken J now2 (hls_token_of r) videoID secret = ?owner)"
      "validateAccessToken J now2 r secret = ?owner"
    | "\<not> may_watch J now2 secret r videoID meta"
    unfolding mw by blast
  then show ?thesis
  proof cases
    case 1
    then have "may_watch J now2 secret r videoID meta" unfolding mw by blast
    then show ?thesis using same unfolding H if_P [OF 1] by simp
  next
    case 2
    then have "may_watch J now2 secret r videoID meta" unfolding mw by blast
    then show ?thesis using same unfolding H if_not_P [OF 2(1)] if_P [OF 2(2)] by simp
  next
    case 3
    then have "may_watch J now2 secret r videoID meta" unfolding mw by blast
    moreover have "\<exists>vis h. ?H = hlsCacheWriter vis next (r\<lparr>ReqHeader := h\<rparr>) wh ?w
        \<and> (vis = Visibility meta \<or> Visibility meta = [] \<and> vis = ''public'')
        \<and> (\<forall>k. k \<noteq> ''X-User-Id'' \<longrightarrow> h k = ReqHeader r k)"
      unfolding H if_not_P [OF 3(1)] if_not_P [OF 3(2)] if_P [OF 3(3)]
      by (intro exI [of _ ?vis] exI [of _ "hset (ReqHeader r) ''X-User-ID'' (OwnerID meta)"])
        (simp add: hset_def)
    ultimately show ?thesis by simp
  next
    case 4
    from this [unfolded mw] have n: "\<not> (?vis = ''public'' \<or> ?vis = ''unlisted'')"
      "\<not> (hls_token_of r \<noteq> [] \<and> validateHLSToken J now2 (hls_token_of r) videoID secret = ?owner)"
      "validateAccessToken J now2 r secret \<noteq> ?owner" by blast+
    show ?thesis unfolding if_not_P [OF 4] H if_not_P [OF n(1)] if_not_P [OF n(2)] if_not_P [OF n(3)] ..
  qed
qed

text \<open>The token that \<open>GenerateHLSToken\<close> signs, read back by the library.\<close>

lemma time_Second_pos [simp]: "0 < time_Second"
  by (simp add: time_Second_def)

lemma generated_claims:
  assumes "jwt_roundtrip J" "GenerateHLSToken J now videoID userID secret = Inr tok"
  shows "jwt_parse J t secret tok =
    (if t < unix (now + hlsTokenTTL)
     then Some [''sub'' \<mapsto> JStr userID, ''video_id'' \<mapsto> JStr videoID,
        ''exp'' \<mapsto> JNum (Itoa (unix (now + hlsTokenTTL))), ''iat'' \<mapsto> JNum (Itoa (unix now)),
        ''type'' \<mapsto> JStr ''hls''] else None)"
  using assms unfolding GenerateHLSToken_def jwt_roundtrip_def by (simp split del: if_split)

lemma unix_ttl: "unix (now + hlsTokenTTL) = unix now + 900"
  by (simp add: unix_def hlsTokenTTL_def time_Minute_def time_Second_def)

text \<open>An HLS token is no access token, whoever reads it.\<close>

lemma hls_token_no_identity:
  assumes "jwt_roundtrip J" "GenerateHLSToken J now videoID userID secret = Inr tok"
    and "hget h ''Authorization'' = ''Bearer '' @ tok"
  shows "access_identity J t secret h = None"
proof -
  have "TrimPrefix (hget h ''Authorization'') ''Bearer '' = tok"
    unfolding assms(3) by (rule TrimPrefix_append)
  then show ?thesis
    using generated_claims [OF assms(1,2), of t] by (simp add: access_identity_def claim_str_def)
qed

subsection \<open>Concurrent requests and the age of an answer\<close>

text \<open>
  Requests run concurrently; each method of the cache is one step, and so is the moment at which
  the metadata service answers a lookup from its table. \<open>H u vid\<close> is the table's row at time
  \<open>u\<close> (\<open>None\<close>: no such video), with the visibility filled in. A lookup that takes longer than
  the client's timeout is cut off. \<open>hls_run H now c fs\<close>: at time \<open>now\<close> the cache can be
  \<open>c\<close> with the lookups \<open>fs\<close> under way.
\<close>

record flight =
  f_id :: string
  f_start :: int
  f_answered :: "int option"

definition hlsMetaTimeout :: int where "hlsMetaTimeout = 3 * time_Second"

inductive hls_run ::
  "(int \<Rightarrow> string \<Rightarrow> videoMeta option) \<Rightarrow> int \<Rightarrow> metaCache \<Rightarrow> flight list \<Rightarrow> bool" for H where
  start: "hls_run H now (newMetaCache metaCacheMaxEntries metaCacheTTL metaNegCacheTTL) []"
| tick: "hls_run H now c fs \<Longrightarrow> now \<le> now' \<Longrightarrow> hls_run H now' c fs"
| hit: "hls_run H now c fs \<Longrightarrow> cache_get now vid c = (Some e, c') \<Longrightarrow> hls_run H now c' fs"
| miss: "hls_run H now c fs \<Longrightarrow> cache_get now vid c = (None, c') \<Longrightarrow>
     hls_run H now c' (\<lparr>f_id = vid, f_start = now, f_answered = None\<rparr> # fs)"
| answer: "hls_run H now c fs \<Longrightarrow> f \<in> set fs \<Longrightarrow> now \<le> f_start f + hlsMetaTimeout \<Longrightarrow>
     hls_run H now c (f\<lparr>f_answered := Some now\<rparr> # remove1 f fs)"
| store: "hls_run H now c fs \<Longrightarrow> f \<in> set fs \<Longrightarrow> f_answered f = Some u \<Longrightarrow>
     now \<le> f_start f + hlsMetaTimeout \<Longrightarrow>
     hls_run H now (store_meta now (f_id f)
         (case H u (f_id f) of Some m \<Rightarrow> Inr m | None \<Rightarrow> Inl (StatusError 404)) c) (remove1 f fs)"
| give_up: "hls_run H now c fs \<Longrightarrow> hls_run H now c (remove1 f fs)"

text \<open>An entry is at most the timeout older than its deadline says.\<close>

definition entry_age :: "(int \<Rightarrow> string \<Rightarrow> videoMeta option) \<Rightarrow> int \<Rightarrow> string \<Rightarrow> metaCacheEntry \<Rightarrow> bool" where
  "entry_age H now k e \<longleftrightarrow>
     (\<exists>u \<le> now. H u k = e_meta e \<and>
        e_expires e \<le> u + hlsMetaTimeout + (if e_meta e = None then metaNegCacheTTL else metaCacheTTL))"

lemma entry_age_mono: "entry_age H now k e \<Longrightarrow> now \<le> now' \<Longrightarrow> entry_age H now' k e"
  unfolding entry_age_def by (meson order_trans)

lemma store_meta_consts:
  "mc_ttl (store_meta now k res c) = mc_ttl c \<and> mc_negTTL (store_meta now k res c) = mc_negTTL c"
  by (auto simp: store_meta_def cache_consts split: sum.split go_error.split)

lemma hls_run_inv:
  "hls_run H now c fs \<Longrightarrow>
   mc.all_entries (entry_age H now) c \<and> mc_ttl c = metaCacheTTL \<and> mc_negTTL c = metaNegCacheTTL \<and>
   (\<forall>f \<in> set fs. f_start f \<le> now \<and> (\<forall>u. f_answered f = Some u \<longrightarrow> f_start f \<le> u \<and> u \<le> now))"
proof (induction rule: hls_run.induct)
  case (start now)
  have "cache_ok (newMetaCache metaCacheMaxEntries metaCacheTTL metaNegCacheTTL)"
    by (rule cache_ok_new) (simp add: metaCacheMaxEntries_def)
  moreover have "cache_look (newMetaCache metaCacheMaxEntries metaCacheTTL metaNegCacheTTL) k = None" for k
    by (simp add: newMetaCache_def cache_look_def cache_abs_def abs_lookup_def)
  ultimately have "mc.all_entries (entry_age H now) (newMetaCache metaCacheMaxEntries metaCacheTTL metaNegCacheTTL)"
    unfolding mc.all_entries_def by simp
  then show ?case by (simp add: newMetaCache_def)
next
  case (tick now c fs now')
  then show ?case
    by (auto simp: mc.all_entries_def intro: entry_age_mono)
next
  case (hit now c fs vid e c')
  then show ?case using mc.all_entries_get [of "entry_age H now" c now vid] cache_consts(1) [of now vid c] by simp
next
  case (miss now c fs vid c')
  then show ?case using mc.all_entries_get [of "entry_age H now" c now vid] cache_consts(1) [of now vid c] by simp
next
  case (answer now c fs f)
  then show ?case using set_remove1_subset [of f fs] by auto
next
  case (store now c fs f u)
  have u: "f_start f \<le> u" "u \<le> now" using store by auto
  let ?res = "case H u (f_id f) of Some m \<Rightarrow> Inr m | None \<Rightarrow> Inl (StatusError 404)"
  have "mc.all_entries (entry_age H now) (store_meta now (f_id f) ?res c)"
  proof (cases "H u (f_id f)")
    case None
    have "entry_age H now (f_id f) (fresh_entry now (f_id f) None 404 c)"
      unfolding entry_age_def using u store None by (intro exI [of _ u]) (auto simp: fresh_entry_def)
    with None store.IH show ?thesis by (simp add: store_meta_def mc.all_entries_put)
  next
    case (Some m)
    have "entry_age H now (f_id f) (fresh_entry now (f_id f) (Some m) 0 c)"
      unfolding entry_age_def using u store Some by (intro exI [of _ u]) (auto simp: fresh_entry_def)
    with Some store.IH show ?thesis by (simp add: store_meta_def mc.all_entries_put)
  qed
  then show ?case using store.IH store_meta_consts set_remove1_subset [of f fs] by auto
next
  case (give_up now c fs f)
  then show ?case using set_remove1_subset [of f fs] by auto
qed

subsection \<open>Samples\<close>

definition sample_video :: "string \<Rightarrow> videoMeta" where
  "sample_video vis = \<lparr>ID = ''v'', OwnerID = ''ann'', Visibility = vis, vm_Status = ''ready''\<rparr>"

definition video_a :: string where "video_a = ''aaaaaaaa-0000-4000-8000-000000000000''"

definition video_b :: string where "video_b = ''bbbbbbbb-0000-4000-8000-000000000000''"

text \<open>A metadata service with a public video \<open>video_a\<close> and a private video \<open>video_b\<close> of \<open>ann\<close>.\<close>

definition sample_client :: meta_client where
  "sample_client url tok =
     (let row = (\<lambda>vis. Inr (200, Some (JObj [(''id'', JStr ''v''), (''owner_id'', JStr ''ann''),
                   (''visibility'', JStr vis), (''status'', JStr ''ready'')])))
      in if url = ''http://m/internal/videos/'' @ video_a then row ''public''
         else if url = ''http://m/internal/videos/'' @ video_b then row ''private''
         else Inr (404, None))"

text \<open>A JWT library that knows one access token of \<open>ann\<close>.\<close>

definition sample_jwt :: jwt where
  "sample_jwt =
     \<lparr>jwt_parse = (\<lambda>now secret tok.
         if tok = ''t-ann'' then Some [''sub'' \<mapsto> JStr ''ann'', ''type'' \<mapsto> JStr ''access''] else None),
      jwt_sign = (\<lambda>secret cl. Inl (Err ''no key''))\<rparr>"

definition sample_gw :: "redis_db gw_world" where
  "sample_gw = \<lparr>redis_st = (\<lambda>_. None), last_warn = None, warn_log = [],
     hls_cache = newMetaCache metaCacheMaxEntries metaCacheTTL metaNegCacheTTL\<rparr>"

definition ask_hls :: "string \<Rightarrow> nat" where
  "ask_hls path =
     Status (fst (HLSAuth sample_jwt 0 0 sample_client ''k'' ''i'' ''http://m/'' echo_handler
       (blank_request\<lparr>URLPath := path\<rparr>) no_header sample_gw))"

text \<open>A JWT library that can sign one set of claims, those of a token for \<open>ann\<close> made at time 0.\<close>

definition ann_claims :: claims where
  "ann_claims = [''sub'' \<mapsto> JStr ''ann'', ''video_id'' \<mapsto> JStr video_b,
     ''exp'' \<mapsto> JNum (Itoa 900), ''iat'' \<mapsto> JNum (Itoa 0), ''type'' \<mapsto> JStr ''hls'']"

definition ann_jwt :: jwt where
  "ann_jwt =
     \<lparr>jwt_parse = (\<lambda>now secret tok. if tok = ''t-hls'' \<and> now < 900 then Some ann_claims else None),
      jwt_sign = (\<lambda>secret cl. if cl = ann_claims then Inr ''t-hls'' else Inl (Err ''no key''))\<rparr>"

lemma Itoa_900: "Itoa e = Itoa 900 \<Longrightarrow> e = 900"
proof (cases "e < 0")
  case True
  assume e: "Itoa e = Itoa 900"
  have "CHR ''-'' \<in> set (Itoa 900)" unfolding e [symmetric] using True by (simp add: Itoa_def)
  then show ?thesis using Itoa_no [of 900 "CHR ''-''"] by (simp add: is_digit_def)
qed (simp add: Itoa_inj)

lemma ann_jwt_roundtrip: "jwt_roundtrip ann_jwt"
  using Itoa_900 by (auto simp: jwt_roundtrip_def ann_jwt_def ann_claims_def)

lemma ann_jwt_signs: "GenerateHLSToken ann_jwt 0 video_b ''ann'' s = Inr ''t-hls''"
proof -
  have "unix (0 + hlsTokenTTL) = 900" "unix 0 = 0" by code_simp+
  then show ?thesis unfolding GenerateHLSToken_def by (simp add: ann_jwt_def ann_claims_def)
qed

subsection \<open>Properties\<close>

text \<open>C1: once the metadata of the video in the path is known, from the cache or fresh, the gate is
  exactly this condition: a public or unlisted video passes; a private one passes with an HLS
  token for this video whose subject is the owner, or with an access token of the owner; every
  other request is refused with 403 and the handler behind the gate is not run. A request that
  passes keeps its path, and the response to a private video gets the private cache headers.\<close>

theorem HLSAuth_gate:
  assumes "extractVideoID (URLPath r) = videoID" "videoID \<noteq> []"
    and "getMeta now now2 client url tok videoID (hls_cache w) = (Inr meta, c)"
  shows "(may_watch J now2 secret r videoID meta \<longrightarrow>
      (\<exists>vis r'. HLSAuth J now now2 client secret tok url next r wh w
                 = hlsCacheWriter vis next r' wh (w\<lparr>hls_cache := c\<rparr>) \<and>
         URLPath r' = URLPath r \<and> (Visibility meta = ''private'' \<longrightarrow> vis = ''private''))) \<and>
    (\<not> may_watch J now2 secret r videoID meta \<longrightarrow>
      HLSAuth J now now2 client secret tok url next r wh w
        = (http_Error wh ''{\"error\":\"forbidden: private video\"}'' 403, w\<lparr>hls_cache := c\<rparr>))"
proof (cases "may_watch J now2 secret r videoID meta")
  case True
  from HLSAuth_found [OF assms, of J secret "next" wh, unfolded if_P [OF True]]
  obtain vis h where "HLSAuth J now now2 client secret tok url next r wh w
      = hlsCacheWriter vis next (r\<lparr>ReqHeader := h\<rparr>) wh (w\<lparr>hls_cache := c\<rparr>)"
    "vis = Visibility meta \<or> Visibility meta = [] \<and> vis = ''public''" by blast
  with True show ?thesis by (intro conjI impI exI [of _ vis] exI [of _ "r\<lparr>ReqHeader := h\<rparr>"]) auto
next
  case False
  with HLSAuth_found [OF assms, of J secret "next" wh, unfolded if_not_P [OF False]]
  show ?thesis by simp
qed

lemma HLSAuth_gate_witness:
  "fst (HLSAuth sample_jwt 0 0 sample_client ''k'' ''i'' ''http://m/'' echo_handler
      (blank_request\<lparr>URLPath := ''/hls/'' @ video_b @ ''/seg-1.ts''\<rparr>) no_header sample_gw)
    = http_Error no_header ''{\"error\":\"forbidden: private video\"}'' 403"
proof -
  let ?r = "blank_request\<lparr>URLPath := ''/hls/'' @ video_b @ ''/seg-1.ts''\<rparr>"
  let ?m = "sample_video ''private''"
  have id: "extractVideoID (URLPath ?r) = video_b" "video_b \<noteq> []" by code_simp+
  obtain c where c: "getMeta 0 0 sample_client ''http://m/'' ''i'' video_b (hls_cache sample_gw) = (Inr ?m, c)"
  proof -
    have "fst (getMeta 0 0 sample_client ''http://m/'' ''i'' video_b (hls_cache sample_gw)) = Inr ?m"
      by code_simp
    then show ?thesis using that by (metis prod.collapse)
  qed
  have "\<not> may_watch sample_jwt 0 ''k'' ?r video_b ?m" by code_simp
  with HLSAuth_gate [OF id c, of sample_jwt "''k''" echo_handler no_header] show ?thesis by simp
qed

text \<open>C29: what a generated HLS token is good for, under the documented behaviour of the JWT library:
  for 15 minutes it proves its subject for the video it was made for (in any letter case of the
  id), never for another video and never later; and it is no access token for anyone: the
  authentication middlewares see no identity in it.\<close>

theorem hls_token_scope:
  assumes "jwt_roundtrip J" "GenerateHLSToken J now videoID userID secret = Inr tok" "videoID \<noteq> []"
  shows "validateHLSToken J now' tok videoID' secret =
      (if unix now' < unix now + 900 \<and> EqualFold videoID videoID' then Some userID else None) \<and>
    access_identity J t secret (hset h ''Authorization'' (''Bearer '' @ tok)) = None"
proof
  show "validateHLSToken J now' tok videoID' secret =
      (if unix now' < unix now + 900 \<and> EqualFold videoID videoID' then Some userID else None)"
    using assms(3) generated_claims [OF assms(1,2), of "unix now'"] unix_ttl [of now]
    by (simp add: validateHLSToken_def claim_str_def Let_def)
  show "access_identity J t secret (hset h ''Authorization'' (''Bearer '' @ tok)) = None"
    by (rule hls_token_no_identity [OF assms(1,2)]) simp
qed

lemma hls_token_scope_witness:
  "validateHLSToken ann_jwt (14 * time_Minute) ''t-hls'' video_b ''k'' = Some ''ann'' \<and>
   validateHLSToken ann_jwt (15 * time_Minute) ''t-hls'' video_b ''k'' = None \<and>
   validateHLSToken ann_jwt 0 ''t-hls'' video_a ''k'' = None"
proof -
  have ne: "video_b \<noteq> []" by code_simp
  have "\<not> EqualFold video_b video_a" by code_simp
  then show ?thesis
    using hls_token_scope [OF ann_jwt_roundtrip ann_jwt_signs ne, of "14 * time_Minute" video_b "''k''" 0 no_header]
      hls_token_scope [OF ann_jwt_roundtrip ann_jwt_signs ne, of "15 * time_Minute" video_b "''k''" 0 no_header]
      hls_token_scope [OF ann_jwt_roundtrip ann_jwt_signs ne, of 0 video_a "''k''" 0 no_header]
    by (simp add: unix_def time_Minute_def time_Second_def)
qed

text \<open>The token handler gives a token to the owner only: a 200 means that the caller proved an
  identity and that the metadata service, asked for the id in the request, named that identity
  as the owner; the token is the one generated for this id and this user.\<close>

lemma HLSTokenHandler_owner:
  assumes "Status (fst (HLSTokenHandler J now client secret tok url r wh w)) = 200"
  shows "\<exists>user meta t. user \<noteq> [] \<and>
      (UserIDFromCtx r = user \<or> access_identity J (unix now) secret (ReqHeader r) = Some user) \<and>
      fetchVideoMeta client url tok (hls_video_id r) = Inr meta \<and> OwnerID meta = user \<and>
      GenerateHLSToken J now (hls_video_id r) user secret = Inr t"
  using assms
  by (auto simp: HLSTokenHandler_def validateAccessToken_identity Let_def
      split: if_splits sum.splits option.splits)

lemma HLSTokenHandler_owner_witness:
  "\<exists>user meta t. user \<noteq> [] \<and>
      (UserIDFromCtx (blank_request\<lparr>CtxUser := Some ''ann'', UrlId := video_b\<rparr>) = user \<or>
       access_identity ann_jwt (unix 0) ''k'' (ReqHeader (blank_request\<lparr>CtxUser := Some ''ann'', UrlId := video_b\<rparr>)) = Some user) \<and>
      fetchVideoMeta sample_client ''http://m/'' ''i'' (hls_video_id (blank_request\<lparr>CtxUser := Some ''ann'', UrlId := video_b\<rparr>)) = Inr meta \<and>
      OwnerID meta = user \<and>
      GenerateHLSToken ann_jwt 0 (hls_video_id (blank_request\<lparr>CtxUser := Some ''ann'', UrlId := video_b\<rparr>)) user ''k'' = Inr t"
proof (rule HLSTokenHandler_owner)
  let ?r = "blank_request\<lparr>CtxUser := Some ''ann'', UrlId := video_b\<rparr>"
  have id: "hls_video_id ?r = video_b" by code_simp
  have f: "fetchVideoMeta sample_client ''http://m/'' ''i'' video_b = Inr (sample_video ''private'')" by code_simp
  have "video_b \<noteq> []" by code_simp
  then show "Status (fst (HLSTokenHandler ann_jwt 0 sample_client ''k'' ''i'' ''http://m/'' ?r no_header ())) = 200"
    by (simp add: HLSTokenHandler_def UserIDFromCtx_def id f ann_jwt_signs Let_def sample_video_def)
qed

text \<open>C30: however the requests interleave, a decision never rests on metadata older than 13 seconds
  (the cache's 10 and the client's timeout of 3): whatever the cache returns was the row of the
  metadata table at some moment in that window, and a remembered "not found" is at most 8 seconds
  old; so a change of visibility is observed within the 15 seconds that the code promises.\<close>

theorem hls_answer_age:
  assumes "hls_run H now c fs" "fst (cache_get now vid c) = Some e"
  shows "\<exists>u. u \<le> now \<and> H u vid = e_meta e \<and>
     now \<le> u + (if e_meta e = None then 8 else 13) * time_Second"
proof -
  have "entry_age H now vid e \<and> now \<le> e_expires e"
    using hls_run_inv [OF assms(1)] mc.hit_entry [OF _ assms(2)] by blast
  then show ?thesis
    by (fastforce simp: entry_age_def hlsMetaTimeout_def metaCacheTTL_def metaNegCacheTTL_def time_Second_def
        split: if_splits)
qed

lemma hls_answer_age_witness:
  "\<exists>u. u \<le> 5 \<and> (\<lambda>u k. if u < 5 then Some (sample_video ''private'') else None) u ''v'' = Some (sample_video ''private'') \<and>
     5 \<le> u + (if Some (sample_video ''private'') = None then 8 else 13) * time_Second"
proof -
  let ?H = "\<lambda>u k. if u < 5 then Some (sample_video ''private'') else None"
  let ?c0 = "newMetaCache metaCacheMaxEntries metaCacheTTL metaNegCacheTTL"
  let ?f = "\<lparr>f_id = ''v'', f_start = 1, f_answered = None\<rparr>"
  have get: "cache_get 1 ''v'' ?c0 = (None, ?c0)" by (simp add: newMetaCache_def cache_get_def)
  have "hls_run ?H 1 ?c0 [?f]" by (rule hls_run.miss [OF hls_run.start get])
  from hls_run.answer [OF this, of ?f] have "hls_run ?H 1 ?c0 [?f\<lparr>f_answered := Some 1\<rparr>]"
    by (simp add: hlsMetaTimeout_def time_Second_def)
  from hls_run.store [OF this, of "?f\<lparr>f_answered := Some 1\<rparr>" 1]
  have "hls_run ?H 1 (cache_put 1 ''v'' (Some (sample_video ''private'')) 0 ?c0) []"
    by (simp add: hlsMetaTimeout_def time_Second_def store_meta_def)
  from hls_run.tick [OF this, of 5] have run: "hls_run ?H 5 (cache_put 1 ''v'' (Some (sample_video ''private'')) 0 ?c0) []"
    by simp
  have ok: "cache_ok ?c0" by (rule cache_ok_new) (simp add: metaCacheMaxEntries_def)
  have get: "fst (cache_get 5 ''v'' (cache_put 1 ''v'' (Some (sample_video ''private'')) 0 ?c0))
      = Some (fresh_entry 1 ''v'' (Some (sample_video ''private'')) 0 ?c0)"
    by (rule mc.put_then_get [OF ok]) (simp add: fresh_entry_def newMetaCache_def metaCacheTTL_def time_Second_def)
  from hls_answer_age [OF run get] show ?thesis by (simp add: fresh_entry_def)
qed


end
