(* ===== verification/Gw_Docs.thy ===== *)
theory Gw_Docs
  imports Gw_Proxy "HOL-Library.List_Lexorder" "HOL-Library.Char_ord"
begin

text \<open>
  \<open>services/gateway/internal/handler/docs.go\<close>: the API documentation of the three services at one
  place. The HTTP client is a parameter over a world \<open>'w\<close>. A \<open>map[string]interface{}\<close> is a
  JSON object with distinct keys; the loops over it are folds over its members, and the results
  do not depend on their order. Main results: who wins when the services document the same
  thing, that no reference in the old form is left, and that no reference is broken.
\<close>

subsection \<open>Decoding into \<open>interface{}\<close>\<close>

text \<open>A later member of the same name replaces the earlier one, at every level.\<close>

definition last_wins :: "(string \<times> json) list \<Rightarrow> (string \<times> json) list" where
  "last_wins ms = fold (\<lambda>(k, v) m. gmap_set k v m) ms []"

primrec decoded :: "json \<Rightarrow> json" where
  "decoded JNull = JNull"
| "decoded (JBool b) = JBool b"
| "decoded (JNum n) = JNum n"
| "decoded (JStr s) = JStr s"
| "decoded (JArr js) = JArr (map decoded js)"
| "decoded (JObj ms) = JObj (last_wins (map (map_prod id decoded) ms))"

text \<open>The encoder writes the members of a map by their keys, in order.\<close>

primrec encoded :: "json \<Rightarrow> json" where
  "encoded JNull = JNull"
| "encoded (JBool b) = JBool b"
| "encoded (JNum n) = JNum n"
| "encoded (JStr s) = JStr s"
| "encoded (JArr js) = JArr (map encoded js)"
| "encoded (JObj ms) = JObj (sort_key fst (map (map_prod id encoded) ms))"

text \<open>\<open>v.(map[string]interface{})\<close> and \<open>src[k].(map[string]interface{})\<close>, with comma-ok.\<close>

fun as_map :: "json \<Rightarrow> (string \<times> json) list option" where
  "as_map (JObj ms) = Some ms"
| "as_map _ = None"

type_synonym doc = "(string \<times> json) list"

definition member_map :: "doc \<Rightarrow> string \<Rightarrow> doc option" where
  "member_map m k = (case map_of m k of Some v \<Rightarrow> as_map v | None \<Rightarrow> None)"

subsection \<open>The handler\<close>

record docs_response =
  dr_StatusCode :: nat
  dr_Body :: string
  dr_JSON :: "json option"

record 'w DocsHandler =
  dh_authURL :: string
  dh_metadataURL :: string
  dh_uploadURL :: string
  dh_Get :: "string \<Rightarrow> 'w \<Rightarrow> (go_error + docs_response) \<times> 'w"

definition NewDocsHandler ::
  "string \<Rightarrow> string \<Rightarrow> string \<Rightarrow> (string \<Rightarrow> 'w \<Rightarrow> (go_error + docs_response) \<times> 'w) \<Rightarrow> 'w DocsHandler" where
  "NewDocsHandler authURL metadataURL uploadURL get =
     \<lparr>dh_authURL = authURL, dh_metadataURL = metadataURL, dh_uploadURL = uploadURL, dh_Get = get\<rparr>"

text \<open>The page, line by line; the dash of its title is the three bytes of its UTF-8 form.\<close>

definition docsHTML_lines :: "string list" where
  "docsHTML_lines =
    [''<!DOCTYPE html>'',
     ''<html lang=\"en\">'',
     ''<head>'',
     ''<meta charset=\"utf-8\"/>'',
     ''<meta name=\"viewport\" content=\"width=device-width,initial-scale=1\"/>'',
     ''<title>Flowix API '' @ [CHR 0xE2, CHR 0x80, CHR 0x94] @ '' Swagger</title>'',
     ''<link rel=\"stylesheet\" href=\"https://unpkg.com/swagger-ui-dist@5/swagger-ui.css\"/>'',
     ''<style>body{margin:0} #swagger-ui .topbar{display:none}</style>'',
     ''</head>'',
     ''<body>'',
     ''<div id=\"swagger-ui\"></div>'',
     ''<script src=\"https://unpkg.com/swagger-ui-dist@5/swagger-ui-bundle.js\"></script>'',
     ''<script src=\"https://unpkg.com/swagger-ui-dist@5/swagger-ui-standalone-preset.js\"></script>'',
     ''<script>'',
     ''window.onload = () => {'',
     ''  SwaggerUIBundle({'',
     ''    urls: ['',
     ''      {url: \"/openapi.json\", name: \"all (merged)\"},'',
     ''      {url: \"/openapi/auth.json\", name: \"auth\"},'',
     ''      {url: \"/openapi/metadata.json\", name: \"metadata\"},'',
     ''      {url: \"/openapi/upload.json\", name: \"upload\"}'',
     ''    ],'',
     ''    dom_id: '' @ [CHR 0x27] @ ''#swagger-ui'' @ [CHR 0x27] @ '','',
     ''    presets: [SwaggerUIBundle.presets.apis, SwaggerUIStandalonePreset],'',
     ''    layout: \"StandaloneLayout\",'',
     ''    docExpansion: \"list\",'',
     ''    deepLinking: true,'',
     ''    persistAuthorization: true,'',
     ''    tryItOutEnabled: true'',
     ''  });'',
     ''};'',
     ''</script>'',
     ''</body>'',
     ''</html>'']"

definition docsHTML :: string where
  "docsHTML = join docsHTML_lines [CHR 0x0A]"

definition HandleDocsUI :: "'w handler" where
  "HandleDocsUI r wh w =
     (\<lparr>Status = 200, RespHeader = hset wh ''Content-Type'' ''text/html; charset=utf-8'',
       RespBody = Text docsHTML\<rparr>, w)"

text \<open>The verb \<open>%q\<close> on a URL: printable ASCII, where a quote and a backslash are escaped.\<close>

definition quoted :: "string \<Rightarrow> string" where
  "quoted s = [CHR 0x22] @ concat (map (\<lambda>c. if c = CHR 0x22 \<or> c = CHR 0x5C then [CHR 0x5C, c] else [c]) s) @ [CHR 0x22]"

definition proxyJSON :: "'w DocsHandler \<Rightarrow> string \<Rightarrow> 'w handler" where
  "proxyJSON h upstream r wh w =
     (case dh_Get h upstream w of
        (Inl err, w) \<Rightarrow>
          (http_Error wh (''{\"error\":\"upstream fetch failed\",\"upstream\":'' @ quoted upstream @ ''}'') 502, w)
      | (Inr resp, w) \<Rightarrow>
          (\<lparr>Status = dr_StatusCode resp, RespHeader = hset wh ''Content-Type'' ''application/json; charset=utf-8'',
            RespBody = Text (dr_Body resp)\<rparr>, w))"

definition auth_spec_url :: "'w DocsHandler \<Rightarrow> string" where
  "auth_spec_url h = dh_authURL h @ ''/openapi.json''"

definition metadata_spec_url :: "'w DocsHandler \<Rightarrow> string" where
  "metadata_spec_url h = dh_metadataURL h @ ''/swagger/doc.json''"

definition upload_spec_url :: "'w DocsHandler \<Rightarrow> string" where
  "upload_spec_url h = dh_uploadURL h @ ''/swagger/doc.json''"

definition HandleAuthSpec :: "'w DocsHandler \<Rightarrow> 'w handler" where
  "HandleAuthSpec h = proxyJSON h (auth_spec_url h)"

definition HandleMetadataSpec :: "'w DocsHandler \<Rightarrow> 'w handler" where
  "HandleMetadataSpec h = proxyJSON h (metadata_spec_url h)"

definition HandleUploadSpec :: "'w DocsHandler \<Rightarrow> 'w handler" where
  "HandleUploadSpec h = proxyJSON h (upload_spec_url h)"

text \<open>\<open>fetchMap\<close>: \<open>None\<close> is the nil map, also what a body of \<open>null\<close> decodes to.\<close>

definition fetchMap :: "'w DocsHandler \<Rightarrow> string \<Rightarrow> 'w \<Rightarrow> doc option \<times> 'w" where
  "fetchMap h url w =
     (case dh_Get h url w of
        (Inl err, w) \<Rightarrow> (None, w)
      | (Inr resp, w) \<Rightarrow>
          if dr_StatusCode resp \<noteq> 200 then (None, w)
          else (case dr_JSON resp of None \<Rightarrow> (None, w) | Some j \<Rightarrow> (as_map (decoded j), w)))"

subsection \<open>Merging\<close>

text \<open>\<open>dst[k] = v\<close> for the members of a map that \<open>dst\<close> does not have.\<close>

definition add_missing :: "doc \<Rightarrow> doc \<Rightarrow> doc" where
  "add_missing dst src = fold (\<lambda>(k, v) dst. if map_of dst k = None then gmap_set k v dst else dst) src dst"

definition merge_path :: "string \<times> json \<Rightarrow> doc \<Rightarrow> doc" where
  "merge_path kv dst =
     (let (k, v) = kv in
      case map_of dst k of
        None \<Rightarrow> gmap_set k v dst
      | Some old \<Rightarrow>
        (case (as_map old, as_map v) of
           (Some dstMethods, Some srcMethods) \<Rightarrow> gmap_set k (JObj (add_missing dstMethods srcMethods)) dst
         | _ \<Rightarrow> dst))"

definition mergePaths :: "doc \<Rightarrow> doc \<Rightarrow> doc" where
  "mergePaths dst src = (case member_map src ''paths'' of None \<Rightarrow> dst | Some p \<Rightarrow> fold merge_path p dst)"

definition component_map :: "doc \<Rightarrow> string \<Rightarrow> doc option" where
  "component_map src k = (case member_map src ''components'' of None \<Rightarrow> None | Some c \<Rightarrow> member_map c k)"

definition mergeSchemas :: "doc \<Rightarrow> doc \<Rightarrow> doc" where
  "mergeSchemas dst src = (case component_map src ''schemas'' of None \<Rightarrow> dst | Some s \<Rightarrow> add_missing dst s)"

definition mergeDefinitionsToSchemas :: "doc \<Rightarrow> doc \<Rightarrow> doc" where
  "mergeDefinitionsToSchemas dst src =
     (case member_map src ''definitions'' of None \<Rightarrow> dst | Some defs \<Rightarrow> add_missing dst defs)"

definition mergeSecuritySchemes :: "doc \<Rightarrow> doc \<Rightarrow> doc" where
  "mergeSecuritySchemes dst src =
     (case component_map src ''securitySchemes'' of None \<Rightarrow> dst | Some s \<Rightarrow> add_missing dst s)"

text \<open>An API key in the header \<open>Authorization\<close> becomes the bearer scheme of OpenAPI 3.\<close>

definition converted_scheme :: "json \<Rightarrow> json" where
  "converted_scheme v =
     (case as_map v of
        Some m \<Rightarrow>
          if map_of m ''type'' = Some (JStr ''apiKey'') \<and> map_of m ''name'' = Some (JStr ''Authorization'')
          then JObj [(''type'', JStr ''http''), (''scheme'', JStr ''bearer''), (''bearerFormat'', JStr ''JWT''),
                 (''description'', case map_of m ''description'' of Some d \<Rightarrow> d | None \<Rightarrow> JNull)]
          else v
      | None \<Rightarrow> v)"

definition mergeSecurityDefinitions :: "doc \<Rightarrow> doc \<Rightarrow> doc" where
  "mergeSecurityDefinitions dst src =
     (case member_map src ''securityDefinitions'' of None \<Rightarrow> dst
      | Some defs \<Rightarrow> fold (\<lambda>(k, v) dst. if map_of dst k = None then gmap_set k (converted_scheme v) dst else dst) defs dst)"

text \<open>\<open>rewriteRefs\<close>: below the key \<open>$ref\<close> only a string is touched.\<close>

definition rewrite_ref :: "json \<Rightarrow> json" where
  "rewrite_ref v =
     (case v of JStr s \<Rightarrow>
        if HasPrefix s ''#/definitions/'' then JStr (''#/components/schemas/'' @ TrimPrefix s ''#/definitions/'') else v
      | _ \<Rightarrow> v)"

primrec rewriteRefs :: "json \<Rightarrow> json" where
  "rewriteRefs JNull = JNull"
| "rewriteRefs (JBool b) = JBool b"
| "rewriteRefs (JNum n) = JNum n"
| "rewriteRefs (JStr s) = JStr s"
| "rewriteRefs (JArr js) = JArr (map rewriteRefs js)"
| "rewriteRefs (JObj ms) =
     JObj (map (\<lambda>(k, v, v'). (k, if k = ''$ref'' then rewrite_ref v else v'))
       (map (map_prod id (\<lambda>v. (v, rewriteRefs v))) ms))"

subsection \<open>The merged document\<close>

definition utf8 :: "nat list \<Rightarrow> string" where
  "utf8 bs = map char_of bs"

definition merged_description :: string where
  "merged_description =
     ''Aggregated API: auth (FastAPI OAS3) + metadata (Go Swagger 2.0) + upload (Go Swagger 2.0) via gateway. '' @
     utf8 [208, 160, 208, 176, 208, 183, 208, 180, 208, 181, 208, 187, 209, 145, 208, 189] @
     '' '' @
     utf8 [208, 191, 208, 190] @
     '' tags: auth / videos / upload. '' @
     utf8 [208, 149, 208, 180, 208, 184, 208, 189, 208, 176, 209, 143] @
     '' '' @
     utf8 [209, 130, 208, 190, 209, 135, 208, 186, 208, 176] @
     '': /docs''"

record merged =
  mg_paths :: doc
  mg_schemas :: doc
  mg_schemes :: doc

definition merged_empty :: merged where
  "merged_empty =
     \<lparr>mg_paths = [], mg_schemas = [],
      mg_schemes =
        [(''BearerAuth'', JObj [(''type'', JStr ''http''), (''scheme'', JStr ''bearer''), (''bearerFormat'', JStr ''JWT''),
            (''description'', JStr ''Type \"Bearer {token}\"'')]),
         (''HTTPBearer'', JObj [(''type'', JStr ''http''), (''scheme'', JStr ''bearer'')])]\<rparr>"

text \<open>The OpenAPI 3 document of the auth service, and the Swagger 2 documents of the others.\<close>

definition merge_openapi :: "doc option \<Rightarrow> merged \<Rightarrow> merged" where
  "merge_openapi d m =
     (case d of None \<Rightarrow> m
      | Some d \<Rightarrow> \<lparr>mg_paths = mergePaths (mg_paths m) d, mg_schemas = mergeSchemas (mg_schemas m) d,
                   mg_schemes = mergeSecuritySchemes (mg_schemes m) d\<rparr>)"

definition merge_swagger :: "doc option \<Rightarrow> merged \<Rightarrow> merged" where
  "merge_swagger d m =
     (case d of None \<Rightarrow> m
      | Some d \<Rightarrow> \<lparr>mg_paths = mergePaths (mg_paths m) d, mg_schemas = mergeDefinitionsToSchemas (mg_schemas m) d,
                   mg_schemes = mergeSecurityDefinitions (mg_schemes m) d\<rparr>)"

definition merged_docs :: "doc option \<Rightarrow> doc option \<Rightarrow> doc option \<Rightarrow> merged" where
  "merged_docs authDoc metaDoc uploadDoc =
     merge_swagger uploadDoc (merge_swagger metaDoc (merge_openapi authDoc merged_empty))"

definition merged_json :: "merged \<Rightarrow> json" where
  "merged_json m =
     JObj [(''openapi'', JStr ''3.0.1''),
       (''info'', JObj [(''title'', JStr ''Flowix Gateway API''), (''version'', JStr ''1.0''),
          (''description'', JStr merged_description)]),
       (''servers'', JArr [JObj [(''url'', JStr ''/'')]]),
       (''paths'', JObj (mg_paths m)),
       (''components'', JObj [(''schemas'', JObj (mg_schemas m)), (''securitySchemes'', JObj (mg_schemes m))])]"

definition HandleMerged :: "'w DocsHandler \<Rightarrow> 'w handler" where
  "HandleMerged h r wh w =
     (let (authDoc, w) = fetchMap h (auth_spec_url h) w;
          (metaDoc, w) = fetchMap h (metadata_spec_url h) w;
          (uploadDoc, w) = fetchMap h (upload_spec_url h) w
      in (\<lparr>Status = 200, RespHeader = hset wh ''Content-Type'' ''application/json; charset=utf-8'',
           RespBody = Json False (encoded (rewriteRefs (merged_json (merged_docs authDoc metaDoc uploadDoc))))\<rparr>, w))"

subsection \<open>Who wins\<close>

lemma add_missing_map: "map_of (add_missing dst src) = map_of src ++ map_of dst"
proof (induction src arbitrary: dst)
  case Nil
  then show ?case by (simp add: add_missing_def)
next
  case (Cons kv src)
  obtain k v where kv: "kv = (k, v)" by (cases kv)
  show ?case using Cons [of "if map_of dst k = None then gmap_set k v dst else dst"]
    by (auto simp: add_missing_def kv map_add_def fun_eq_iff split: option.split)
qed

text \<open>The operations of a document: what it says under a path and a method.\<close>

definition op_at :: "doc \<Rightarrow> string \<times> string \<Rightarrow> json option" where
  "op_at ps pm = (case member_map ps (fst pm) of Some ms \<Rightarrow> map_of ms (snd pm) | None \<Rightarrow> None)"

definition path_items :: "doc \<Rightarrow> bool" where
  "path_items ps \<longleftrightarrow> distinct (map fst ps) \<and> (\<forall>(k, v) \<in> set ps. as_map v \<noteq> None)"

lemma as_map_iff: "as_map v \<noteq> None \<longleftrightarrow> (\<exists>ms. v = JObj ms)"
  by (cases v) auto

lemma merge_path_ops:
  assumes "as_map v \<noteq> None" "\<forall>(k, v) \<in> set dst. as_map v \<noteq> None"
  shows "op_at (merge_path (k, v) dst) = op_at [(k, v)] ++ op_at dst"
    "\<forall>(k, v) \<in> set (merge_path (k, v) dst). as_map v \<noteq> None"
proof -
  obtain ms where v: "v = JObj ms" using assms(1) [unfolded as_map_iff] by blast
  show "op_at (merge_path (k, v) dst) = op_at [(k, v)] ++ op_at dst"
  proof (cases "map_of dst k")
    case None
    then show ?thesis
      by (auto simp: merge_path_def v op_at_def member_map_def map_add_def fun_eq_iff split: option.split)
  next
    case (Some old)
    then obtain os where o: "old = JObj os" using assms(2) [unfolded as_map_iff] map_of_SomeD [OF Some] by blast
    show ?thesis using Some
      by (auto simp: merge_path_def v o op_at_def member_map_def add_missing_map map_add_def fun_eq_iff split: option.split)
  qed
  show "\<forall>(k, v) \<in> set (merge_path (k, v) dst). as_map v \<noteq> None"
    using assms by (auto simp: merge_path_def v gmap_set_def gmap_del_def split: option.split)
qed

lemma op_at_Cons:
  assumes "k \<notin> fst ` set ps"
  shows "op_at ((k, v) # ps) = op_at ps ++ op_at [(k, v)]"
proof -
  have "map_of ps k = None" using assms by (simp add: map_of_eq_None_iff)
  then show ?thesis by (auto simp: op_at_def member_map_def map_add_def fun_eq_iff split: option.split)
qed

lemma merge_paths_ops:
  assumes "path_items ps" "\<forall>(k, v) \<in> set dst. as_map v \<noteq> None"
  shows "op_at (fold merge_path ps dst) = op_at ps ++ op_at dst \<and>
    (\<forall>(k, v) \<in> set (fold merge_path ps dst). as_map v \<noteq> None)"
  using assms
proof (induction ps arbitrary: dst)
  case Nil
  then show ?case by (simp add: op_at_def member_map_def map_add_def fun_eq_iff)
next
  case (Cons kv ps)
  obtain k v where kv: "kv = (k, v)" by (cases kv)
  have v: "as_map v \<noteq> None" and ps: "path_items ps" and k: "k \<notin> fst ` set ps"
    using Cons.prems(1) by (auto simp: path_items_def kv)
  note m = merge_path_ops [OF v Cons.prems(2), of k]
  from Cons.IH [OF ps m(2)] m(1) show ?case by (simp add: kv op_at_Cons [OF k])
qed

definition doc_ops :: "doc option \<Rightarrow> string \<times> string \<Rightarrow> json option" where
  "doc_ops d = (case d of None \<Rightarrow> Map.empty
     | Some d \<Rightarrow> (case member_map d ''paths'' of None \<Rightarrow> Map.empty | Some ps \<Rightarrow> op_at ps))"

definition doc_part :: "(doc \<Rightarrow> doc option) \<Rightarrow> doc option \<Rightarrow> string \<Rightarrow> json option" where
  "doc_part f d = (case d of None \<Rightarrow> Map.empty | Some d \<Rightarrow> (case f d of None \<Rightarrow> Map.empty | Some s \<Rightarrow> map_of s))"

definition paths_ok :: "doc option \<Rightarrow> bool" where
  "paths_ok d = (case d of None \<Rightarrow> True
     | Some d \<Rightarrow> (case member_map d ''paths'' of None \<Rightarrow> True | Some ps \<Rightarrow> path_items ps))"

lemma mergePaths_ops:
  assumes "paths_ok (Some d)" "\<forall>(k, v) \<in> set dst. as_map v \<noteq> None"
  shows "op_at (mergePaths dst d) = doc_ops (Some d) ++ op_at dst"
    "\<forall>(k, v) \<in> set (mergePaths dst d). as_map v \<noteq> None"
proof -
  have "op_at (mergePaths dst d) = doc_ops (Some d) ++ op_at dst \<and>
    (\<forall>(k, v) \<in> set (mergePaths dst d). as_map v \<noteq> None)"
  proof (cases "member_map d ''paths''")
    case None
    then show ?thesis using assms(2) by (simp add: mergePaths_def doc_ops_def)
  next
    case (Some ps)
    then have "path_items ps" using assms(1) by (simp add: paths_ok_def)
    from merge_paths_ops [OF this assms(2)] Some show ?thesis by (simp add: mergePaths_def doc_ops_def)
  qed
  then show "op_at (mergePaths dst d) = doc_ops (Some d) ++ op_at dst"
    "\<forall>(k, v) \<in> set (mergePaths dst d). as_map v \<noteq> None" by simp_all
qed

lemma merge_ops:
  assumes "paths_ok d" "\<forall>(k, v) \<in> set (mg_paths m). as_map v \<noteq> None" "f \<in> {merge_openapi, merge_swagger}"
  shows "op_at (mg_paths (f d m)) = doc_ops d ++ op_at (mg_paths m)"
    "\<forall>(k, v) \<in> set (mg_paths (f d m)). as_map v \<noteq> None"
proof -
  have f: "mg_paths (f d m) = (case d of None \<Rightarrow> mg_paths m | Some d \<Rightarrow> mergePaths (mg_paths m) d)"
    using assms(3) by (auto simp: merge_openapi_def merge_swagger_def split: option.split)
  show "op_at (mg_paths (f d m)) = doc_ops d ++ op_at (mg_paths m)"
    "\<forall>(k, v) \<in> set (mg_paths (f d m)). as_map v \<noteq> None"
    using mergePaths_ops [OF _ assms(2)] assms(1,2) unfolding f
    by (cases d; simp add: doc_ops_def [of None])+
qed

lemma merge_schemas:
  "map_of (mg_schemas (merge_openapi d m)) = doc_part (\<lambda>d. component_map d ''schemas'') d ++ map_of (mg_schemas m)"
  "map_of (mg_schemas (merge_swagger d m)) = doc_part (\<lambda>d. member_map d ''definitions'') d ++ map_of (mg_schemas m)"
  by (auto simp: merge_openapi_def merge_swagger_def mergeSchemas_def mergeDefinitionsToSchemas_def doc_part_def
      add_missing_map split: option.splits)

subsection \<open>References\<close>

definition member_refs :: "string \<Rightarrow> json \<Rightarrow> string set \<Rightarrow> string set" where
  "member_refs k v rs = (if k = ''$ref'' then (case v of JStr s \<Rightarrow> {s} | _ \<Rightarrow> {}) else rs)"

primrec refs :: "json \<Rightarrow> string set" where
  "refs JNull = {}"
| "refs (JBool b) = {}"
| "refs (JNum n) = {}"
| "refs (JStr s) = {}"
| "refs (JArr js) = \<Union> (set (map refs js))"
| "refs (JObj ms) = \<Union> (set (map (\<lambda>(k, v, rs). member_refs k v rs) (map (map_prod id (\<lambda>v. (v, refs v))) ms)))"

lemma refs_obj: "refs (JObj ms) = (\<Union>(k, v) \<in> set ms. member_refs k v (refs v))"
  by force

declare refs.simps(6) [simp del]

lemma refs_obj_mono: "set ms \<subseteq> set ns \<Longrightarrow> refs (JObj ms) \<subseteq> refs (JObj ns)"
  by (auto simp: refs_obj)

lemma refs_member: "(k, v) \<in> set ms \<Longrightarrow> k \<noteq> ''$ref'' \<Longrightarrow> refs v \<subseteq> refs (JObj ms)"
  by (force simp: refs_obj member_refs_def)

definition new_ref :: "string \<Rightarrow> string" where
  "new_ref s = (if HasPrefix s ''#/definitions/'' then ''#/components/schemas/'' @ TrimPrefix s ''#/definitions/'' else s)"

lemma refs_rewriteRefs: "refs (rewriteRefs j) = new_ref ` refs j"
proof (induction j)
  case (JArr js)
  then show ?case by auto
next
  case (JObj ms)
  have m: "member_refs k (if k = ''$ref'' then rewrite_ref v else rewriteRefs v)
      (refs (if k = ''$ref'' then rewrite_ref v else rewriteRefs v)) = new_ref ` member_refs k v (refs v)"
    if "(k, v) \<in> set ms" for k v
    using JObj [OF that, of v] by (auto simp: member_refs_def rewrite_ref_def new_ref_def split: json.split)
  have "refs (rewriteRefs (JObj ms)) = (\<Union>(k, v) \<in> set ms.
      member_refs k (if k = ''$ref'' then rewrite_ref v else rewriteRefs v)
        (refs (if k = ''$ref'' then rewrite_ref v else rewriteRefs v)))"
    by (auto simp: refs_obj)
  also have "\<dots> = (\<Union>(k, v) \<in> set ms. new_ref ` member_refs k v (refs v))"
    using m by (intro SUP_cong) auto
  finally show ?case by (auto simp: refs_obj)
qed simp_all

lemma refs_encoded: "refs (encoded j) = refs j"
proof (induction j)
  case (JArr js)
  then show ?case by auto
next
  case (JObj ms)
  have "member_refs k (encoded v) (refs (encoded v)) = member_refs k v (refs v)" if "(k, v) \<in> set ms" for k v
    using JObj [OF that, of v] by (cases v) (auto simp: member_refs_def)
  then show ?case by (force simp: refs_obj)
qed simp_all

text \<open>Merging adds no member that neither side has.\<close>

lemma add_missing_sub: "set (add_missing dst src) \<subseteq> set dst \<union> set src"
proof (induction src arbitrary: dst)
  case Nil
  then show ?case by (simp add: add_missing_def)
next
  case (Cons kv src)
  obtain k v where kv: "kv = (k, v)" by (cases kv)
  have "set (if map_of dst k = None then gmap_set k v dst else dst) \<subseteq> insert (k, v) (set dst)"
    by (auto simp: gmap_set_def gmap_del_def)
  with Cons [of "if map_of dst k = None then gmap_set k v dst else dst"] show ?case
    by (auto simp: add_missing_def kv)
qed

lemma refs_add_missing: "refs (JObj (add_missing dst src)) \<subseteq> refs (JObj dst) \<union> refs (JObj src)"
proof -
  have "refs (JObj (add_missing dst src)) \<subseteq> refs (JObj (dst @ src))"
    using add_missing_sub by (intro refs_obj_mono) auto
  then show ?thesis by (auto simp: refs_obj)
qed

lemma refs_merge_path: "refs (JObj (merge_path (k, v) dst)) \<subseteq> refs (JObj dst) \<union> member_refs k v (refs v)"
proof -
  have new: "refs (JObj (gmap_set k v' dst)) \<subseteq> refs (JObj dst) \<union> member_refs k v' (refs v')" for v'
    by (auto simp: refs_obj gmap_set_def gmap_del_def)
  show ?thesis
  proof (cases "\<exists>old os ms. map_of dst k = Some old \<and> old = JObj os \<and> v = JObj ms")
    case True
    then obtain os ms where m: "map_of dst k = Some (JObj os)" "v = JObj ms" by blast
    have "member_refs k (JObj (add_missing os ms)) (refs (JObj (add_missing os ms))) \<subseteq>
        member_refs k (JObj os) (refs (JObj os)) \<union> member_refs k v (refs v)"
      using refs_add_missing [of os ms] m by (auto simp: member_refs_def)
    moreover have "member_refs k (JObj os) (refs (JObj os)) \<subseteq> refs (JObj dst)"
      using map_of_SomeD [OF m(1)] by (force simp: refs_obj)
    ultimately show ?thesis using new [of "JObj (add_missing os ms)"] m by (auto simp: merge_path_def)
  next
    case False
    then have "merge_path (k, v) dst \<in> {dst, gmap_set k v dst}"
      by (cases "map_of dst k"; cases "the (map_of dst k)"; cases v) (auto simp: merge_path_def)
    then show ?thesis using new [of v] by auto
  qed
qed

lemma refs_merge_paths: "refs (JObj (fold merge_path ps dst)) \<subseteq> refs (JObj dst) \<union> refs (JObj ps)"
proof (induction ps arbitrary: dst)
  case Nil
  then show ?case by simp
next
  case (Cons kv ps)
  obtain k v where kv: "kv = (k, v)" by (cases kv)
  have "refs (JObj (kv # ps)) = member_refs k v (refs v) \<union> refs (JObj ps)" by (simp add: refs_obj kv)
  then show ?case using Cons [of "merge_path (k, v) dst"] refs_merge_path [of k v dst] by (auto simp: kv)
qed

text \<open>The references of a whole document bound those of what is merged from it.\<close>

lemma refs_member_map: "member_map m k = Some p \<Longrightarrow> k \<noteq> ''$ref'' \<Longrightarrow> refs (JObj p) \<subseteq> refs (JObj m)"
proof -
  assume m: "member_map m k = Some p" and k: "k \<noteq> ''$ref''"
  then obtain v where v: "map_of m k = Some v" "as_map v = Some p" by (auto simp: member_map_def split: option.splits)
  then have "v = JObj p" by (cases v) auto
  then show "refs (JObj p) \<subseteq> refs (JObj m)" using refs_member [OF map_of_SomeD [OF v(1)] k] by simp
qed

definition merged_refs :: "merged \<Rightarrow> string set" where
  "merged_refs m = refs (JObj (mg_paths m)) \<union> refs (JObj (mg_schemas m)) \<union> refs (JObj (mg_schemes m))"

lemma refs_merged_json: "refs (merged_json m) = merged_refs m"
  by (auto simp: merged_json_def merged_refs_def refs_obj member_refs_def)

lemma refs_mergePaths: "refs (JObj (mergePaths dst d)) \<subseteq> refs (JObj dst) \<union> refs (JObj d)"
proof (cases "member_map d ''paths''")
  case None
  then show ?thesis by (simp add: mergePaths_def)
next
  case (Some ps)
  then show ?thesis using refs_merge_paths [of ps dst] refs_member_map [OF Some] by (auto simp: mergePaths_def)
qed

lemma refs_part:
  assumes "member_map d k = Some s" "k \<noteq> ''$ref''"
  shows "refs (JObj (add_missing dst s)) \<subseteq> refs (JObj dst) \<union> refs (JObj d)"
  using refs_add_missing [of dst s] refs_member_map [OF assms] by auto

lemma refs_component:
  assumes "component_map d k = Some s" "k \<noteq> ''$ref''"
  shows "refs (JObj (add_missing dst s)) \<subseteq> refs (JObj dst) \<union> refs (JObj d)"
proof -
  obtain c where c: "member_map d ''components'' = Some c" "member_map c k = Some s"
    using assms(1) by (auto simp: component_map_def split: option.splits)
  then show ?thesis using refs_part [OF c(2) assms(2), of dst] refs_member_map [OF c(1)] by auto
qed

lemma refs_converted: "member_refs k (converted_scheme v) (refs (converted_scheme v)) \<subseteq> member_refs k v (refs v)"
proof (cases v)
  case (JObj m)
  show ?thesis
  proof (cases "map_of m ''description''")
    case None
    then show ?thesis by (auto simp: converted_scheme_def JObj member_refs_def refs_obj split: json.splits)
  next
    case (Some d)
    have "refs d \<subseteq> refs (JObj m)" by (rule refs_member [OF map_of_SomeD [OF Some]]) simp
    then show ?thesis using Some
      by (simp add: converted_scheme_def JObj member_refs_def refs_obj [of "_ # _"])
  qed
qed (simp_all add: converted_scheme_def)

lemma refs_mergeSecurityDefinitions:
  "refs (JObj (mergeSecurityDefinitions dst d)) \<subseteq> refs (JObj dst) \<union> refs (JObj d)"
proof (cases "member_map d ''securityDefinitions''")
  case None
  then show ?thesis by (simp add: mergeSecurityDefinitions_def)
next
  case (Some defs)
  have "refs (JObj (fold (\<lambda>(k, v) dst. if map_of dst k = None then gmap_set k (converted_scheme v) dst else dst) defs dst))
      \<subseteq> refs (JObj dst) \<union> refs (JObj defs)" for defs dst
  proof (induction defs arbitrary: dst)
    case Nil
    then show ?case by simp
  next
    case (Cons kv defs)
    obtain k v where kv: "kv = (k, v)" by (cases kv)
    let ?dst = "if map_of dst k = None then gmap_set k (converted_scheme v) dst else dst"
    have "refs (JObj ?dst) \<subseteq> refs (JObj dst) \<union> member_refs k v (refs v)"
      using refs_converted [of k v] by (auto simp: refs_obj gmap_set_def gmap_del_def)
    moreover have "refs (JObj (kv # defs)) = member_refs k v (refs v) \<union> refs (JObj defs)" by (simp add: refs_obj kv)
    ultimately show ?case using Cons [of ?dst] by (auto simp: kv)
  qed
  then show ?thesis using Some refs_member_map [OF Some] by (fastforce simp: mergeSecurityDefinitions_def)
qed

lemma refs_merge_steps:
  "merged_refs (merge_openapi (Some d) m) \<subseteq> merged_refs m \<union> refs (JObj d)"
  "merged_refs (merge_swagger (Some d) m) \<subseteq> merged_refs m \<union> refs (JObj d)"
proof -
  have "refs (JObj (mergeSchemas dst d)) \<subseteq> refs (JObj dst) \<union> refs (JObj d)" for dst
    using refs_component [of d "''schemas''"] by (auto simp: mergeSchemas_def split: option.split)
  moreover have "refs (JObj (mergeSecuritySchemes dst d)) \<subseteq> refs (JObj dst) \<union> refs (JObj d)" for dst
    using refs_component [of d "''securitySchemes''"] by (auto simp: mergeSecuritySchemes_def split: option.split)
  moreover have "refs (JObj (mergeDefinitionsToSchemas dst d)) \<subseteq> refs (JObj dst) \<union> refs (JObj d)" for dst
    using refs_part [of d "''definitions''"] by (auto simp: mergeDefinitionsToSchemas_def split: option.split)
  ultimately show "merged_refs (merge_openapi (Some d) m) \<subseteq> merged_refs m \<union> refs (JObj d)"
    "merged_refs (merge_swagger (Some d) m) \<subseteq> merged_refs m \<union> refs (JObj d)"
    using refs_mergePaths refs_mergeSecurityDefinitions
    unfolding merged_refs_def merge_openapi_def merge_swagger_def by (simp_all, blast+)
qed

lemma merged_docs_refs:
  "merged_refs (merged_docs a m u) \<subseteq> (\<Union>d \<in> {a, m, u}. case d of Some d \<Rightarrow> refs (JObj d) | None \<Rightarrow> {})"
proof -
  have e: "merged_refs merged_empty = {}"
    by (simp add: merged_refs_def merged_empty_def refs_obj member_refs_def)
  have o: "merged_refs (merge_openapi d x) \<subseteq> merged_refs x \<union> (case d of Some d \<Rightarrow> refs (JObj d) | None \<Rightarrow> {})" for d x
    using refs_merge_steps(1) by (cases d) (auto simp: merge_openapi_def)
  have s: "merged_refs (merge_swagger d x) \<subseteq> merged_refs x \<union> (case d of Some d \<Rightarrow> refs (JObj d) | None \<Rightarrow> {})" for d x
    using refs_merge_steps(2) by (cases d) (auto simp: merge_swagger_def)
  show ?thesis
    using s [of u "merge_swagger m (merge_openapi a merged_empty)"] s [of m "merge_openapi a merged_empty"]
      o [of a merged_empty] e
    unfolding merged_docs_def by auto
qed

text \<open>A document whose references lead somewhere: Swagger's to its definitions, OpenAPI's to its schemas.\<close>

definition closed_swagger :: "doc option \<Rightarrow> bool" where
  "closed_swagger d = (case d of None \<Rightarrow> True | Some x \<Rightarrow>
     (\<forall>s \<in> refs (JObj x). \<exists>n. s = ''#/definitions/'' @ n \<and> doc_part (\<lambda>x. member_map x ''definitions'') d n \<noteq> None))"

definition closed_openapi :: "doc option \<Rightarrow> bool" where
  "closed_openapi d = (case d of None \<Rightarrow> True | Some x \<Rightarrow>
     (\<forall>s \<in> refs (JObj x). \<exists>n. s = ''#/components/schemas/'' @ n \<and>
        doc_part (\<lambda>x. component_map x ''schemas'') d n \<noteq> None))"

lemma closed_openapiD:
  assumes "closed_openapi (Some x)" "s \<in> refs (JObj x)"
  obtains n where "s = ''#/components/schemas/'' @ n" "doc_part (\<lambda>x. component_map x ''schemas'') (Some x) n \<noteq> None"
  using assms unfolding closed_openapi_def option.case by blast

lemma closed_swaggerD:
  assumes "closed_swagger (Some x)" "s \<in> refs (JObj x)"
  obtains n where "s = ''#/definitions/'' @ n" "doc_part (\<lambda>x. member_map x ''definitions'') (Some x) n \<noteq> None"
  using assms unfolding closed_swagger_def option.case by blast

lemma new_ref_simps:
  "new_ref (''#/definitions/'' @ n) = ''#/components/schemas/'' @ n"
  "new_ref (''#/components/schemas/'' @ n) = ''#/components/schemas/'' @ n"
proof -
  have "HasPrefix (''#/definitions/'' @ n) ''#/definitions/''" "TrimPrefix (''#/definitions/'' @ n) ''#/definitions/'' = n"
    by (rule HasPrefix_append TrimPrefix_append)+
  then show "new_ref (''#/definitions/'' @ n) = ''#/components/schemas/'' @ n" unfolding new_ref_def by (simp only: if_True)
  show "new_ref (''#/components/schemas/'' @ n) = ''#/components/schemas/'' @ n"
    by (simp add: new_ref_def HasPrefix_def)
qed

lemma merged_schemas:
  "map_of (mg_schemas (merged_docs a m u)) =
     doc_part (\<lambda>d. member_map d ''definitions'') u ++ doc_part (\<lambda>d. member_map d ''definitions'') m ++
     doc_part (\<lambda>d. component_map d ''schemas'') a"
  unfolding merged_docs_def merge_schemas by (simp add: merged_empty_def)

lemma merged_ops:
  assumes "paths_ok a" "paths_ok m" "paths_ok u"
  shows "op_at (mg_paths (merged_docs a m u)) = doc_ops u ++ doc_ops m ++ doc_ops a"
proof -
  have "\<forall>(k, v) \<in> set (mg_paths merged_empty). as_map v \<noteq> None" by (simp add: merged_empty_def)
  note a = merge_ops [OF assms(1) this, of merge_openapi]
  note m = merge_ops [OF assms(2) a(2), of merge_swagger]
  note u = merge_ops [OF assms(3) m(2), of merge_swagger]
  have "op_at (mg_paths merged_empty) = Map.empty" by (auto simp: merged_empty_def op_at_def member_map_def)
  then show ?thesis using a(1) m(1) u(1) by (simp add: merged_docs_def)
qed

subsection \<open>Properties\<close>

definition parsed_doc :: "json \<Rightarrow> doc option" where
  "parsed_doc j = as_map (decoded j)"

definition sample_auth_doc :: json where
  "sample_auth_doc =
     JObj [(''paths'', JObj [(''/api/v1/auth/login'', JObj [(''post'', JObj [(''$ref'', JStr ''#/components/schemas/Login'')])])]),
       (''components'', JObj [(''schemas'', JObj [(''Login'', JObj [])])])]"

definition sample_meta_doc :: json where
  "sample_meta_doc =
     JObj [(''paths'', JObj [(''/api/v1/videos'',
         JObj [(''get'', JObj [(''summary'', JStr ''List'')]), (''post'', JObj [(''$ref'', JStr ''#/definitions/Video'')])])]),
       (''definitions'', JObj [(''Video'', JObj [(''type'', JStr ''object'')])])]"

definition sample_upload_doc :: json where
  "sample_upload_doc =
     JObj [(''paths'', JObj [(''/api/v1/videos'', JObj [(''put'', JObj []), (''get'', JObj [(''summary'', JStr ''Other'')])])]),
       (''definitions'', JObj [(''Video'', JObj [])])]"

text \<open>C22: the merged documentation: under every path and method the operation of the first service that
  documents it, in the order auth, metadata, upload, and every schema of one of them, again the
  first one's; nothing is lost and nothing is made up.\<close>

theorem merged_docs_priority:
  assumes "paths_ok a" "paths_ok m" "paths_ok u"
  shows "op_at (mg_paths (merged_docs a m u)) = doc_ops u ++ doc_ops m ++ doc_ops a \<and>
    map_of (mg_schemas (merged_docs a m u)) =
      doc_part (\<lambda>d. member_map d ''definitions'') u ++ doc_part (\<lambda>d. member_map d ''definitions'') m ++
      doc_part (\<lambda>d. component_map d ''schemas'') a"
  by (intro conjI merged_ops merged_schemas assms)

lemma merged_docs_priority_witness:
  "op_at (mg_paths (merged_docs (parsed_doc sample_auth_doc) (parsed_doc sample_meta_doc) (parsed_doc sample_upload_doc)))
     (''/api/v1/videos'', ''get'') = Some (JObj [(''summary'', JStr ''List'')]) \<and>
   op_at (mg_paths (merged_docs (parsed_doc sample_auth_doc) (parsed_doc sample_meta_doc) (parsed_doc sample_upload_doc)))
     (''/api/v1/videos'', ''put'') = Some (JObj [])"
proof -
  have p: "paths_ok (parsed_doc sample_auth_doc)" "paths_ok (parsed_doc sample_meta_doc)" "paths_ok (parsed_doc sample_upload_doc)"
    by code_simp+
  have l: "doc_ops (parsed_doc sample_meta_doc) (''/api/v1/videos'', ''get'') = Some (JObj [(''summary'', JStr ''List'')])"
    "doc_ops (parsed_doc sample_auth_doc) (''/api/v1/videos'', m) = None"
    "doc_ops (parsed_doc sample_meta_doc) (''/api/v1/videos'', ''put'') = None"
    "doc_ops (parsed_doc sample_upload_doc) (''/api/v1/videos'', ''put'') = Some (JObj [])" for m by code_simp+
  from merged_docs_priority [OF p] l show ?thesis by (simp add: map_add_def)
qed

text \<open>C23: no reference of the merged documentation is broken. When each service's document is closed (what
  it refers to is among its own definitions), every \<open>$ref\<close> of the answer, which mixes both
  forms before the rewriting, has the OpenAPI 3 form and names a schema of the answer.\<close>

theorem merged_refs_resolve:
  assumes "fetchMap h (auth_spec_url h) w = (a, w1)" "fetchMap h (metadata_spec_url h) w1 = (m, w2)"
    "fetchMap h (upload_spec_url h) w2 = (u, w3)"
    and "closed_openapi a" "closed_swagger m" "closed_swagger u"
  shows "\<exists>j. RespBody (fst (HandleMerged h r wh w)) = Json False j \<and>
    (\<forall>s \<in> refs j. \<exists>n. s = ''#/components/schemas/'' @ n \<and> map_of (mg_schemas (merged_docs a m u)) n \<noteq> None)"
proof -
  let ?m = "merged_docs a m u"
  have "s \<in> new_ref ` (\<Union>d \<in> {a, m, u}. case d of Some d \<Rightarrow> refs (JObj d) | None \<Rightarrow> {})"
    if "s \<in> refs (encoded (rewriteRefs (merged_json ?m)))" for s
    using that merged_docs_refs [of a m u] by (auto simp: refs_encoded refs_rewriteRefs refs_merged_json)
  moreover have "\<exists>n. new_ref t = ''#/components/schemas/'' @ n \<and> map_of (mg_schemas ?m) n \<noteq> None"
    if t: "t \<in> (case d of Some d \<Rightarrow> refs (JObj d) | None \<Rightarrow> {})" "d \<in> {a, m, u}" for t d
  proof -
    obtain x where x: "d = Some x" "t \<in> refs (JObj x)" using t(1) by (cases d) auto
    show ?thesis
    proof (cases "d = a")
      case True
      then have "closed_openapi (Some x)" using assms(4) x by simp
      then obtain n where n: "t = ''#/components/schemas/'' @ n" "doc_part (\<lambda>x. component_map x ''schemas'') (Some x) n \<noteq> None"
        using x(2) by (rule closed_openapiD)
      then have "map_of (mg_schemas ?m) n \<noteq> None" using True x unfolding merged_schemas by (auto simp: map_add_def)
      then show ?thesis unfolding n(1) new_ref_simps by blast
    next
      case False
      then have "closed_swagger (Some x)" using assms(5,6) x t(2) by auto
      then obtain n where n: "t = ''#/definitions/'' @ n" "doc_part (\<lambda>x. member_map x ''definitions'') (Some x) n \<noteq> None"
        using x(2) by (rule closed_swaggerD)
      then have "map_of (mg_schemas ?m) n \<noteq> None"
        using False x t(2) unfolding merged_schemas by (auto simp: map_add_def split: option.split)
      then show ?thesis unfolding n(1) new_ref_simps by blast
    qed
  qed
  ultimately have "\<forall>s \<in> refs (encoded (rewriteRefs (merged_json ?m))).
      \<exists>n. s = ''#/components/schemas/'' @ n \<and> map_of (mg_schemas ?m) n \<noteq> None" by blast
  moreover have "RespBody (fst (HandleMerged h r wh w)) = Json False (encoded (rewriteRefs (merged_json ?m)))"
    by (simp add: HandleMerged_def assms(1-3))
  ultimately show ?thesis by blast
qed

definition sample_docs :: "unit DocsHandler" where
  "sample_docs = NewDocsHandler ''http://a'' ''http://m'' ''http://u''
     (\<lambda>u w. (if u = ''http://a/openapi.json'' then Inr \<lparr>dr_StatusCode = 200, dr_Body = [], dr_JSON = Some sample_auth_doc\<rparr>
             else if u = ''http://m/swagger/doc.json'' then Inr \<lparr>dr_StatusCode = 200, dr_Body = [], dr_JSON = Some sample_meta_doc\<rparr>
             else Inl (Err ''connection refused''), w))"

lemma merged_refs_resolve_witness:
  "\<exists>j. RespBody (fst (HandleMerged sample_docs blank_request no_header ())) = Json False j \<and>
    refs j \<noteq> {} \<and> (\<forall>s \<in> refs j. \<exists>n. s = ''#/components/schemas/'' @ n)"
proof -
  let ?a = "parsed_doc sample_auth_doc" and ?m = "parsed_doc sample_meta_doc"
  have f: "fetchMap sample_docs (auth_spec_url sample_docs) () = (?a, ())"
    "fetchMap sample_docs (metadata_spec_url sample_docs) () = (?m, ())"
    "fetchMap sample_docs (upload_spec_url sample_docs) () = (None, ())" by code_simp+
  have a: "the ?a = [(''components'', JObj [(''schemas'', JObj [(''Login'', JObj [])])]),
      (''paths'', JObj [(''/api/v1/auth/login'', JObj [(''post'', JObj [(''$ref'', JStr ''#/components/schemas/Login'')])])])]"
    "?a \<noteq> None" by code_simp+
  have m: "the ?m = [(''definitions'', JObj [(''Video'', JObj [(''type'', JStr ''object'')])]),
      (''paths'', JObj [(''/api/v1/videos'',
         JObj [(''post'', JObj [(''$ref'', JStr ''#/definitions/Video'')]), (''get'', JObj [(''summary'', JStr ''List'')])])])]"
    "?m \<noteq> None" by code_simp+
  have c: "closed_openapi ?a" "closed_swagger ?m" "closed_swagger None"
    using a m by (auto simp: closed_openapi_def closed_swagger_def refs_obj member_refs_def doc_part_def member_map_def
        component_map_def)
  have r: "refs (case RespBody (fst (HandleMerged sample_docs blank_request no_header ())) of Json p j \<Rightarrow> j | _ \<Rightarrow> JNull) \<noteq> {}"
    by code_simp
  from merged_refs_resolve [OF f c] obtain j
    where j: "RespBody (fst (HandleMerged sample_docs blank_request no_header ())) = Json False j"
      "\<forall>s \<in> refs j. \<exists>n. s = ''#/components/schemas/'' @ n \<and>
        map_of (mg_schemas (merged_docs ?a ?m None)) n \<noteq> None"
    by blast
  have "refs j \<noteq> {}" using r unfolding j(1) resp_body.case .
  moreover have "\<forall>s \<in> refs j. \<exists>n. s = ''#/components/schemas/'' @ n" using j(2) by blast
  ultimately show ?thesis using j(1) by blast
qed

end
