(* ===== verification/Chi_Router.thy ===== *)
theory Chi_Router
  imports Pkg_Server
begin

text \<open>
  The routing of the three Go services. The router (\<open>go-chi\<close>) is not part of the repository: it is a
  parameter that picks an entry of a route table, with its documentation as the hypothesis
  \<open>chi_docs\<close>. The tables, with the middlewares of each route, are the services' own.
\<close>

text \<open>A route: method (\<open>*\<close> for any), pattern, handler.\<close>

type_synonym 'w route = "string \<times> string \<times> 'w handler"

record 'w chi =
  chi_pick :: "(string \<times> string) list \<Rightarrow> request \<Rightarrow> (nat \<times> string) option"
  chi_unmatched :: "'w handler"

definition route_key :: "'w route \<Rightarrow> string \<times> string" where
  "route_key rt = (fst rt, fst (snd rt))"

definition route_handler :: "'w route \<Rightarrow> 'w handler" where
  "route_handler rt = snd (snd rt)"

text \<open>\<open>With(mw)\<close> and \<open>Group\<close> with \<open>Use(mw)\<close>.\<close>

definition with_mw :: "('w handler \<Rightarrow> 'w handler) \<Rightarrow> 'w route list \<Rightarrow> 'w route list" where
  "with_mw mw rts = map (\<lambda>(m, p, h). (m, p, mw h)) rts"

lemma with_mwE:
  assumes "(m, p, H) \<in> set (with_mw mw rts)"
  obtains f where "H = mw f" "(m, p, f) \<in> set rts"
  using assms by (auto simp: with_mw_def)

text \<open>What is served: the picked route with its \<open>{id}\<close>, or chi's answer for no route.\<close>

definition dispatch :: "'w chi \<Rightarrow> 'w route list \<Rightarrow> 'w handler" where
  "dispatch C rts r wh w =
     (case chi_pick C (map route_key rts) r of
        Some (i, vid) \<Rightarrow> route_handler (rts ! i) (r\<lparr>UrlId := vid\<rparr>) wh w
      | None \<Rightarrow> chi_unmatched C r wh w)"

text \<open>
  chi's documentation: a pattern is matched segment by segment, \<open>{id}\<close> stands for one segment that
  is not empty and becomes the parameter, a final \<open>*\<close> for all that is left; a route that is
  picked matches, and when none is picked none does.
\<close>

fun segs_match :: "string list \<Rightarrow> string list \<Rightarrow> string \<Rightarrow> bool" where
  "segs_match [] [] vid = True"
| "segs_match (p # ps) (s # ss) vid =
     (if p = ''*'' \<and> ps = [] then True
      else if p = ''{id}'' then s = vid \<and> s \<noteq> [] \<and> segs_match ps ss vid
      else p = s \<and> segs_match ps ss vid)"
| "segs_match _ _ vid = False"

definition route_match :: "string \<times> string \<Rightarrow> request \<Rightarrow> string \<Rightarrow> bool" where
  "route_match k r vid \<longleftrightarrow> (fst k = ''*'' \<or> fst k = Method r) \<and>
     segs_match (Split CHR ''/'' (snd k)) (Split CHR ''/'' (URLPath r)) vid"

definition chi_docs :: "'w chi \<Rightarrow> bool" where
  "chi_docs C \<longleftrightarrow> (\<forall>ks r. case chi_pick C ks r of
     Some (i, vid) \<Rightarrow> i < length ks \<and> route_match (ks ! i) r vid
   | None \<Rightarrow> \<forall>k \<in> set ks. \<forall>vid. \<not> route_match k r vid)"

text \<open>So a property of all routes is a property of the service.\<close>

lemma dispatch_cases:
  assumes "chi_docs C" "dispatch C rts r wh w = (res, w')"
  obtains (route) m p H vid where "(m, p, H) \<in> set rts" "route_match (m, p) r vid"
      "H (r\<lparr>UrlId := vid\<rparr>) wh w = (res, w')"
  | (unmatched) "\<forall>(m, p, H) \<in> set rts. \<forall>vid. \<not> route_match (m, p) r vid" "chi_unmatched C r wh w = (res, w')"
proof (cases "chi_pick C (map route_key rts) r")
  case None
  then have "\<forall>k \<in> set (map route_key rts). \<forall>vid. \<not> route_match k r vid"
    using assms(1) [unfolded chi_docs_def, rule_format, of "map route_key rts" r] by simp
  then show ?thesis using unmatched None assms(2) by (force simp: dispatch_def route_key_def)
next
  case (Some iv)
  obtain i vid where iv: "iv = (i, vid)" by (cases iv)
  obtain m p H where rt: "rts ! i = (m, p, H)" by (cases "rts ! i")
  have i: "i < length rts" "route_match (route_key (rts ! i)) r vid"
    using assms(1) [unfolded chi_docs_def, rule_format, of "map route_key rts" r] Some iv by auto
  show ?thesis
  proof (rule route)
    show "(m, p, H) \<in> set rts" using i(1) rt nth_mem [of i rts] by simp
    show "route_match (m, p) r vid" using i(2) rt by (simp add: route_key_def)
    show "H (r\<lparr>UrlId := vid\<rparr>) wh w = (res, w')"
      using assms(2) Some iv rt by (simp add: dispatch_def route_handler_def)
  qed
qed

text \<open>A router that takes the first route that matches.\<close>

fun path_param :: "string list \<Rightarrow> string list \<Rightarrow> string" where
  "path_param (p # ps) (s # ss) = (if p = ''{id}'' then s else path_param ps ss)"
| "path_param _ _ = []"

definition first_match :: "(string \<times> string) list \<Rightarrow> request \<Rightarrow> (nat \<times> string) option" where
  "first_match ks r =
     (let vid = \<lambda>k. path_param (Split CHR ''/'' (snd k)) (Split CHR ''/'' (URLPath r)) in
      map_option (\<lambda>i. (i, vid (ks ! i))) (find (\<lambda>i. route_match (ks ! i) r (vid (ks ! i))) [0..<length ks]))"

lemma segs_match_param: "segs_match ps ss vid \<Longrightarrow> path_param ps ss = vid \<or> (\<forall>v. segs_match ps ss v)"
  by (induction ps ss vid rule: segs_match.induct) (auto split: if_splits)

lemma first_match_docs: "chi_docs \<lparr>chi_pick = first_match, chi_unmatched = U\<rparr>"
proof -
  have "case first_match ks r of Some (i, vid) \<Rightarrow> i < length ks \<and> route_match (ks ! i) r vid
      | None \<Rightarrow> \<forall>k \<in> set ks. \<forall>vid. \<not> route_match k r vid" for ks r
  proof -
    let ?vid = "\<lambda>k. path_param (Split CHR ''/'' (snd k)) (Split CHR ''/'' (URLPath r))"
    let ?P = "\<lambda>i. route_match (ks ! i) r (?vid (ks ! i))"
    have m: "route_match k r (?vid k)" if "route_match k r vid" for k vid
      using that segs_match_param by (fastforce simp: route_match_def)
    show ?thesis
    proof (cases "find ?P [0..<length ks]")
      case None
      then have "\<forall>i < length ks. \<not> ?P i" by (auto simp: find_None_iff)
      then have "\<not> route_match k r vid" if "k \<in> set ks" for k vid
        using that m by (metis in_set_conv_nth)
      then show ?thesis using None by (simp add: first_match_def)
    next
      case (Some i)
      then have "i < length ks" "?P i" by (auto simp: find_Some_iff)
      then show ?thesis using Some by (simp add: first_match_def)
    qed
  qed
  then show ?thesis by (simp add: chi_docs_def)
qed

text \<open>The request id that the logger adds is no credential.\<close>

lemma logged_request_auth [simp]:
  "access_identity J now secret (ReqHeader (logged_request g r)) = access_identity J now secret (ReqHeader r)"
  "hget (ReqHeader (logged_request g r)) ''X-Internal-Token'' = hget (ReqHeader r) ''X-Internal-Token''"
  "CtxUser (logged_request g r) = CtxUser r"
  by (simp_all add: logged_request_def access_identity_def Let_def)

text \<open>A router to evaluate the route tables with.\<close>

definition sample_chi :: "'w chi" where
  "sample_chi = \<lparr>chi_pick = first_match, chi_unmatched = (\<lambda>r wh w. (http_Error wh ''404 page not found'' 404, w))\<rparr>"

lemma sample_chi_docs: "chi_docs sample_chi"
  unfolding sample_chi_def by (rule first_match_docs)

definition library_page :: "'w handler" where
  "library_page r wh w = (WriteHeader wh 200, w)"

text \<open>Answers that the services give by themselves.\<close>

definition status_handler :: "nat \<Rightarrow> (string \<times> string) list \<Rightarrow> 'w handler" where
  "status_handler code fs r wh w = (WriteJSON wh r code (JObj (map (\<lambda>(k, v). (k, JStr v)) fs)), w)"

text \<open>\<open>http.Redirect\<close> to a path, for a handler that has set no content type: a \<open>GET\<close> also gets a link.\<close>

definition http_Redirect_permanently :: "string \<Rightarrow> 'w handler" where
  "http_Redirect_permanently url r wh w =
     (let html = Method r = ''GET'' \<or> Method r = ''HEAD'';
          wh = hset wh ''Location'' url;
          wh = (if html then hset wh ''Content-Type'' ''text/html; charset=utf-8'' else wh)
      in (\<lparr>Status = 301, RespHeader = wh,
           RespBody = (if Method r = ''GET''
             then Text (''<a href=\"'' @ url @ ''\">Moved Permanently</a>.'' @ [CHR 0x0A, CHR 0x0A]) else NoBody)\<rparr>, w))"

end
