(* ===== verification/Md_Model.thy ===== *)
theory Md_Model
  imports Flowix_Prelude
begin

text \<open>
  \<open>services/metadata/internal/model/video.go\<close>: the domain types of the metadata service. The
  two string types with named constants are datatypes, as in the database, where they are
  enumerations; the text of a constant and the validity checks are written out.
\<close>

datatype VideoStatus = StatusUploaded | StatusProcessing | StatusReady | StatusFailed

fun status_text :: "VideoStatus \<Rightarrow> string" where
  "status_text StatusUploaded = ''uploaded''"
| "status_text StatusProcessing = ''processing''"
| "status_text StatusReady = ''ready''"
| "status_text StatusFailed = ''failed''"

definition status_of :: "string \<Rightarrow> VideoStatus option" where
  "status_of s = find (\<lambda>st. status_text st = s) [StatusUploaded, StatusProcessing, StatusReady, StatusFailed]"

datatype Visibility = VisibilityPublic | VisibilityPrivate | VisibilityUnlisted

fun visibility_text :: "Visibility \<Rightarrow> string" where
  "visibility_text VisibilityPublic = ''public''"
| "visibility_text VisibilityPrivate = ''private''"
| "visibility_text VisibilityUnlisted = ''unlisted''"

definition visibility_of :: "string \<Rightarrow> Visibility option" where
  "visibility_of s = find (\<lambda>v. visibility_text v = s) [VisibilityPublic, VisibilityPrivate, VisibilityUnlisted]"

text \<open>\<open>Visibility.Valid\<close>, on the text that a request carries.\<close>

definition Valid :: "string \<Rightarrow> bool" where
  "Valid s \<longleftrightarrow> s = ''public'' \<or> s = ''private'' \<or> s = ''unlisted''"

lemma Valid_visibility: "Valid s \<longleftrightarrow> visibility_of s \<noteq> None"
  by (auto simp: Valid_def visibility_of_def)

lemma visibility_of_text [simp]: "visibility_of (visibility_text v) = Some v"
  by (cases v) (simp_all add: visibility_of_def)

lemma status_of_text [simp]: "status_of (status_text st) = Some st"
  by (cases st) (simp_all add: status_of_def)

record Rendition =
  VideoID :: string
  Quality :: string
  Bitrate :: int
  Width :: int
  Height :: int
  S3Key :: string

record Video =
  ID :: string
  OwnerID :: string
  OwnerEmail :: "string option"
  Title :: string
  Description :: string
  Duration :: "int option"
  VStatus :: VideoStatus
  VVisibility :: Visibility
  ThumbnailS3Key :: "string option"
  ThumbnailURL :: "string option"
  CreatedAt :: int
  UpdatedAt :: int
  Renditions :: "Rendition list"

record StaleUpload =
  stale_ID :: string
  stale_OwnerID :: string

subsection \<open>Requests\<close>

text \<open>The request bodies, with the decoding that the handlers apply (\<open>None\<close>: invalid body).\<close>

record CreateVideoRequest =
  c_Title :: string
  c_Description :: string
  c_Visibility :: "string option"

record UpdateVideoRequest =
  u_Title :: "string option"
  u_Description :: "string option"
  u_Visibility :: "string option"

record UpdateStatusRequest =
  s_Status :: string
  s_Renditions :: "Rendition list"
  s_ThumbnailS3Key :: "string option"
  s_ThumbnailURL :: "string option"

definition decode_create :: "json option \<Rightarrow> CreateVideoRequest option" where
  "decode_create body =
     (case body of None \<Rightarrow> None
      | Some j \<Rightarrow> (case jmembers j of None \<Rightarrow> None
          | Some ms \<Rightarrow>
            (case (string_field ''title'' ms, string_field ''description'' ms, string_ptr_field ''visibility'' ms) of
               (Some t, Some d, Some v) \<Rightarrow> Some \<lparr>c_Title = t, c_Description = d, c_Visibility = v\<rparr>
             | _ \<Rightarrow> None)))"

definition decode_update :: "json option \<Rightarrow> UpdateVideoRequest option" where
  "decode_update body =
     (case body of None \<Rightarrow> None
      | Some j \<Rightarrow> (case jmembers j of None \<Rightarrow> None
          | Some ms \<Rightarrow>
            (case (string_ptr_field ''title'' ms, string_ptr_field ''description'' ms, string_ptr_field ''visibility'' ms) of
               (Some t, Some d, Some v) \<Rightarrow> Some \<lparr>u_Title = t, u_Description = d, u_Visibility = v\<rparr>
             | _ \<Rightarrow> None)))"

definition decode_rendition :: "json \<Rightarrow> Rendition option" where
  "decode_rendition j =
     (case jmembers j of None \<Rightarrow> None
      | Some ms \<Rightarrow>
        (case (string_field ''video_id'' ms, string_field ''quality'' ms, int_field ''bitrate'' ms,
               int_field ''width'' ms, int_field ''height'' ms, string_field ''s3_key'' ms) of
           (Some v, Some q, Some b, Some wd, Some ht, Some k) \<Rightarrow>
             Some \<lparr>VideoID = v, Quality = q, Bitrate = b, Width = wd, Height = ht, S3Key = k\<rparr>
         | _ \<Rightarrow> None))"

text \<open>The last value of the \<open>renditions\<close> member decides; \<open>null\<close> is the nil slice.\<close>

definition renditions_field :: "(string \<times> json) list \<Rightarrow> Rendition list option" where
  "renditions_field ms =
     fold (\<lambda>j acc. case (acc, j) of
             (None, _) \<Rightarrow> None
           | (Some _, JNull) \<Rightarrow> Some []
           | (Some _, JArr js) \<Rightarrow>
               (if list_all (\<lambda>e. decode_rendition e \<noteq> None) js
                then Some (List.map_filter decode_rendition js) else None)
           | _ \<Rightarrow> None)
       (field_values ''renditions'' ms) (Some [])"

definition decode_status :: "json option \<Rightarrow> UpdateStatusRequest option" where
  "decode_status body =
     (case body of None \<Rightarrow> None
      | Some j \<Rightarrow> (case jmembers j of None \<Rightarrow> None
          | Some ms \<Rightarrow>
            (case (string_field ''status'' ms, renditions_field ms,
                   string_ptr_field ''thumbnail_s3_key'' ms, string_ptr_field ''thumbnail_url'' ms) of
               (Some st, Some rs, Some k, Some u) \<Rightarrow>
                 Some \<lparr>s_Status = st, s_Renditions = rs, s_ThumbnailS3Key = k, s_ThumbnailURL = u\<rparr>
             | _ \<Rightarrow> None)))"

subsection \<open>Responses\<close>

definition rendition_json :: "Rendition \<Rightarrow> json" where
  "rendition_json rn = JObj [(''video_id'', JStr (VideoID rn)), (''quality'', JStr (Quality rn)),
     (''bitrate'', JNum (Itoa (Bitrate rn))), (''width'', JNum (Itoa (Width rn))),
     (''height'', JNum (Itoa (Height rn))), (''s3_key'', JStr (S3Key rn))]"

definition opt_member :: "string \<Rightarrow> ('a \<Rightarrow> json) \<Rightarrow> 'a option \<Rightarrow> (string \<times> json) list" where
  "opt_member k f x = (case x of None \<Rightarrow> [] | Some a \<Rightarrow> [(k, f a)])"

text \<open>The encoding of a video; \<open>fmt\<close> prints a time.\<close>

definition video_json :: "(int \<Rightarrow> string) \<Rightarrow> Video \<Rightarrow> json" where
  "video_json fmt v =
     JObj ([(''id'', JStr (ID v)), (''owner_id'', JStr (OwnerID v))] @
       opt_member ''owner_email'' JStr (OwnerEmail v) @
       [(''title'', JStr (Title v)), (''description'', JStr (Description v))] @
       opt_member ''duration'' (\<lambda>d. JNum (Itoa d)) (Duration v) @
       [(''status'', JStr (status_text (VStatus v))), (''visibility'', JStr (visibility_text (VVisibility v)))] @
       opt_member ''thumbnail_s3_key'' JStr (ThumbnailS3Key v) @
       opt_member ''thumbnail_url'' JStr (ThumbnailURL v) @
       [(''created_at'', JStr (fmt (CreatedAt v))), (''updated_at'', JStr (fmt (UpdatedAt v)))] @
       (if Renditions v = [] then [] else [(''renditions'', JArr (map rendition_json (Renditions v)))]))"

end
