(* ===== verification/Md_Repo.thy ===== *)
theory Md_Repo
  imports Md_Model
begin

text \<open>
  \<open>services/metadata/internal/repository/video.go\<close>: the video repository on PostgreSQL. The
  tables are those of \<open>deploy/migrations\<close>; each SQL statement of the code is a definition on
  them. The server itself is outside the repository: that a statement can fail is a parameter
  of the state (\<open>pg_fault\<close>, by the number of the statement), and so are the reading of UUID
  text, the clock and the random UUIDs.
\<close>

subsection \<open>The tables\<close>

record video_row =
  v_id :: string
  v_owner :: string
  v_title :: string
  v_description :: string
  v_duration :: "int option"
  v_status :: VideoStatus
  v_visibility :: Visibility
  v_thumb :: "string option"
  v_created :: int
  v_updated :: int

text \<open>
  \<open>pg_uuid_in\<close> reads a text as a \<open>uuid\<close> and gives its canonical text (\<open>None\<close>: error);
  \<open>pg_users\<close> holds the id and the email of each user.
\<close>

record pg =
  pg_users :: "(string \<times> string) list"
  pg_videos :: "video_row list"
  pg_rends :: "Rendition list"
  pg_now :: int
  pg_stmt :: nat
  pg_fault :: "nat \<Rightarrow> string option"
  pg_uuid_in :: "string \<Rightarrow> string option"
  pg_new_uuid :: "nat \<Rightarrow> string"

text \<open>The sentinel errors, pgx's \<open>ErrNoRows\<close>, and any other database error.\<close>

datatype repo_error = ErrNotFound | ErrForbidden | ErrInvalidVisibility | ErrNoRows | DbErr string

type_synonym ('a, 'm) sql = "'m pg_scheme \<Rightarrow> (repo_error + 'a) \<times> 'm pg_scheme"

text \<open>One statement: it fails when the server does, else it has its effect.\<close>

definition run_sql :: "('m pg_scheme \<Rightarrow> (repo_error + 'a) \<times> 'm pg_scheme) \<Rightarrow> ('a, 'm) sql" where
  "run_sql stmt db =
     (let n = pg_stmt db; db = db\<lparr>pg_stmt := n + 1\<rparr> in
      case pg_fault db n of Some e \<Rightarrow> (Inl (DbErr e), db) | None \<Rightarrow> stmt db)"

text \<open>A UUID parameter of a statement.\<close>

definition with_uuid :: "string \<Rightarrow> (string \<Rightarrow> ('a, 'm) sql) \<Rightarrow> ('a, 'm) sql" where
  "with_uuid s f db =
     (case pg_uuid_in db s of None \<Rightarrow> (Inl (DbErr ''22P02''), db) | Some u \<Rightarrow> f u db)"

definition row_of :: "'m pg_scheme \<Rightarrow> string \<Rightarrow> video_row option" where
  "row_of db u = find (\<lambda>v. v_id v = u) (pg_videos db)"

definition one_row :: "'a option \<Rightarrow> repo_error + 'a" where
  "one_row x = (case x of None \<Rightarrow> Inl ErrNoRows | Some a \<Rightarrow> Inr a)"

text \<open>A row as the code scans it, with the thumbnail URL it derives and no renditions yet.\<close>

definition video_of :: "string option \<Rightarrow> video_row \<Rightarrow> Video" where
  "video_of email v =
     \<lparr>ID = v_id v, OwnerID = v_owner v, OwnerEmail = email, Title = v_title v,
      Description = v_description v, Duration = v_duration v, VStatus = v_status v,
      VVisibility = v_visibility v, ThumbnailS3Key = v_thumb v,
      ThumbnailURL = (if v_thumb v \<noteq> None then Some (''/thumbnails/'' @ v_id v @ ''/thumb.jpg'') else None),
      CreatedAt = v_created v, UpdatedAt = v_updated v, Renditions = []\<rparr>"

definition email_of :: "'m pg_scheme \<Rightarrow> string \<Rightarrow> string option" where
  "email_of db u = map_of (pg_users db) u"

text \<open>An \<open>UPDATE videos\<close> with the trigger that sets \<open>updated_at\<close>.\<close>

definition update_rows :: "(video_row \<Rightarrow> bool) \<Rightarrow> (video_row \<Rightarrow> video_row) \<Rightarrow> 'm pg_scheme \<Rightarrow> 'm pg_scheme" where
  "update_rows P f db =
     db\<lparr>pg_videos := map (\<lambda>v. if P v then (f v)\<lparr>v_updated := pg_now db\<rparr> else v) (pg_videos db)\<rparr>"

subsection \<open>The statements\<close>

definition sql_insert :: "string \<Rightarrow> string \<Rightarrow> string \<Rightarrow> string \<Rightarrow> Visibility option \<Rightarrow> (video_row, 'm) sql" where
  "sql_insert vid ownerID title description visibility =
     with_uuid vid (\<lambda>u. with_uuid ownerID (\<lambda>ow db.
       if row_of db u \<noteq> None then (Inl (DbErr ''23505''), db)
       else if email_of db ow = None then (Inl (DbErr ''23503''), db)
       else let v = \<lparr>v_id = u, v_owner = ow, v_title = title, v_description = description,
                     v_duration = None, v_status = StatusUploaded,
                     v_visibility = (case visibility of Some x \<Rightarrow> x | None \<Rightarrow> VisibilityPublic),
                     v_thumb = None, v_created = pg_now db, v_updated = pg_now db\<rparr>
            in (Inr v, db\<lparr>pg_videos := pg_videos db @ [v]\<rparr>)))"

definition sql_select :: "string \<Rightarrow> (Video, 'm) sql" where
  "sql_select vid =
     with_uuid vid (\<lambda>u db. (one_row (map_option (\<lambda>v. video_of (email_of db (v_owner v)) v) (row_of db u)), db))"

definition sql_renditions :: "string \<Rightarrow> (Rendition list, 'm) sql" where
  "sql_renditions vid = with_uuid vid (\<lambda>u db. (Inr (filter (\<lambda>rn. VideoID rn = u) (pg_rends db)), db))"

definition sql_list :: "nat \<Rightarrow> nat \<Rightarrow> (video_row \<Rightarrow> bool) \<Rightarrow> (Video list, 'm) sql" where
  "sql_list limit offset P db =
     (Inr (map (\<lambda>v. video_of (email_of db (v_owner v)) v)
            (take limit (drop offset (sort_key (\<lambda>v. - v_created v) (filter P (pg_videos db)))))), db)"

definition sql_update ::
  "string option \<Rightarrow> string option \<Rightarrow> Visibility option \<Rightarrow> string \<Rightarrow> string \<Rightarrow> (Video, 'm) sql" where
  "sql_update title description visibility vid ownerID =
     with_uuid vid (\<lambda>u. with_uuid ownerID (\<lambda>ow db.
       let db' = update_rows (\<lambda>v. v_id v = u \<and> v_owner v = ow)
             (\<lambda>v. v\<lparr>v_title := (case title of Some t \<Rightarrow> t | None \<Rightarrow> v_title v),
                    v_description := (case description of Some d \<Rightarrow> d | None \<Rightarrow> v_description v),
                    v_visibility := (case visibility of Some x \<Rightarrow> x | None \<Rightarrow> v_visibility v)\<rparr>) db;
           res = find (\<lambda>v. v_id v = u \<and> v_owner v = ow) (pg_videos db')
       in (one_row (map_option (\<lambda>v. video_of (email_of db' (v_owner v)) v) res), db')))"

definition sql_exists :: "string \<Rightarrow> (bool, 'm) sql" where
  "sql_exists vid = with_uuid vid (\<lambda>u db. (one_row (map_option (\<lambda>_. True) (row_of db u)), db))"

text \<open>\<open>DELETE\<close>, with the cascade to the renditions.\<close>

definition sql_delete :: "string \<Rightarrow> (unit, 'm) sql" where
  "sql_delete vid =
     with_uuid vid (\<lambda>u db. (Inr (), db\<lparr>pg_videos := filter (\<lambda>v. v_id v \<noteq> u) (pg_videos db),
        pg_rends := (if row_of db u = None then pg_rends db else filter (\<lambda>rn. VideoID rn \<noteq> u) (pg_rends db))\<rparr>))"

definition sql_set_thumb :: "string \<Rightarrow> string \<Rightarrow> (unit, 'm) sql" where
  "sql_set_thumb key vid =
     with_uuid vid (\<lambda>u db. (Inr (), update_rows (\<lambda>v. v_id v = u) (\<lambda>v. v\<lparr>v_thumb := Some key\<rparr>) db))"

text \<open>The age is an \<open>int\<close> of 32 bits in the statement.\<close>

definition sql_stale :: "int \<Rightarrow> nat \<Rightarrow> (StaleUpload list, 'm) sql" where
  "sql_stale secs limit db =
     (if secs < -2147483648 \<or> 2147483647 < secs then (Inl (DbErr ''22003''), db)
      else (Inr (map (\<lambda>v. \<lparr>stale_ID = v_id v, stale_OwnerID = v_owner v\<rparr>)
              (take limit (sort_key v_created
                (filter (\<lambda>v. v_status v = StatusUploaded \<and> v_created v < pg_now db - secs * 1000000000)
                  (pg_videos db))))), db))"

definition sql_status_for_update :: "string \<Rightarrow> (VideoStatus, 'm) sql" where
  "sql_status_for_update vid = with_uuid vid (\<lambda>u db. (one_row (map_option v_status (row_of db u)), db))"

definition sql_set_status :: "VideoStatus \<Rightarrow> string \<Rightarrow> (unit, 'm) sql" where
  "sql_set_status st vid =
     with_uuid vid (\<lambda>u db. (Inr (), update_rows (\<lambda>v. v_id v = u) (\<lambda>v. v\<lparr>v_status := st\<rparr>) db))"

text \<open>\<open>INSERT ... ON CONFLICT (video_id, quality) DO UPDATE\<close>; the integers have 32 bits.\<close>

definition int4_ok :: "int \<Rightarrow> bool" where
  "int4_ok n \<longleftrightarrow> -2147483648 \<le> n \<and> n \<le> 2147483647"

definition sql_upsert_rendition :: "string \<Rightarrow> Rendition \<Rightarrow> (unit, 'm) sql" where
  "sql_upsert_rendition vid rn =
     with_uuid vid (\<lambda>u db.
       if \<not> (int4_ok (Bitrate rn) \<and> int4_ok (Width rn) \<and> int4_ok (Height rn))
       then (Inl (DbErr ''22003''), db)
       else if row_of db u = None then (Inl (DbErr ''23503''), db)
       else let new = rn\<lparr>VideoID := u\<rparr>; same = (\<lambda>r. VideoID r = u \<and> Quality r = Quality rn)
         in (Inr (), db\<lparr>pg_rends := (if list_ex same (pg_rends db)
                 then map (\<lambda>r. if same r then new else r) (pg_rends db)
                 else pg_rends db @ [new])\<rparr>))"

subsection \<open>The methods of VideoRepo\<close>

definition repo_Create ::
  "string \<Rightarrow> string \<Rightarrow> string \<Rightarrow> string option \<Rightarrow> (Video, 'm) sql" where
  "repo_Create ownerID title description visibility db =
     (if (case visibility of Some s \<Rightarrow> \<not> Valid s | None \<Rightarrow> False) then (Inl ErrInvalidVisibility, db)
      else
        let vid = pg_new_uuid db (pg_stmt db);
            vis = (case visibility of Some s \<Rightarrow> visibility_of s | None \<Rightarrow> None)
        in (case run_sql (sql_insert vid ownerID title description vis) db of
              (Inl (DbErr e), db) \<Rightarrow> (Inl (DbErr (''create video: '' @ e)), db)
            | (Inl e, db) \<Rightarrow> (Inl e, db)
            | (Inr v, db) \<Rightarrow> (Inr (video_of None v), db)))"

definition repo_GetByID :: "string \<Rightarrow> (Video, 'm) sql" where
  "repo_GetByID vid db =
     (case run_sql (sql_select vid) db of
        (Inl e, db) \<Rightarrow> (Inl (if e = ErrNoRows then ErrNotFound else e), db)
      | (Inr v, db) \<Rightarrow>
          (case run_sql (sql_renditions vid) db of
             (Inl e, db) \<Rightarrow> (Inr v, db)
           | (Inr rs, db) \<Rightarrow> (Inr (v\<lparr>Renditions := rs\<rparr>), db)))"

definition repo_List :: "nat \<Rightarrow> nat \<Rightarrow> string \<Rightarrow> (Video list, 'm) sql" where
  "repo_List limit offset viewerID =
     run_sql
       (if viewerID = [] then sql_list limit offset (\<lambda>v. v_visibility v = VisibilityPublic \<and> v_status v = StatusReady)
        else with_uuid viewerID (\<lambda>u. sql_list limit offset
          (\<lambda>v. (v_visibility v = VisibilityPublic \<and> v_status v = StatusReady) \<or> v_owner v = u)))"

definition repo_Update :: "string \<Rightarrow> string \<Rightarrow> UpdateVideoRequest \<Rightarrow> (Video, 'm) sql" where
  "repo_Update vid ownerID req db =
     (if (case u_Visibility req of Some s \<Rightarrow> \<not> Valid s | None \<Rightarrow> False) then (Inl ErrInvalidVisibility, db)
      else
        let vis = (case u_Visibility req of Some s \<Rightarrow> visibility_of s | None \<Rightarrow> None)
        in (case run_sql (sql_update (u_Title req) (u_Description req) vis vid ownerID) db of
              (Inl e, db) \<Rightarrow>
                (if e = ErrNoRows then
                   (case run_sql (sql_exists vid) db of
                      (Inr _, db) \<Rightarrow> (Inl ErrForbidden, db)
                    | (Inl e', db) \<Rightarrow> (Inl (if e' \<noteq> ErrNoRows then e' else ErrNotFound), db))
                 else (Inl e, db))
            | (Inr v, db) \<Rightarrow> (Inr v, db)))"

definition repo_Delete :: "string \<Rightarrow> string \<Rightarrow> (unit, 'm) sql" where
  "repo_Delete vid ownerID db =
     (case repo_GetByID vid db of
        (Inl e, db) \<Rightarrow> (Inl e, db)
      | (Inr v, db) \<Rightarrow>
          if OwnerID v \<noteq> ownerID then (Inl ErrForbidden, db)
          else run_sql (sql_delete vid) db)"

definition repo_UpdateThumbnail :: "string \<Rightarrow> string \<Rightarrow> (unit, 'm) sql" where
  "repo_UpdateThumbnail vid key = run_sql (sql_set_thumb key vid)"

text \<open>\<open>int(olderThan.Seconds())\<close>; a duration counts nanoseconds.\<close>

definition dur_seconds :: "int \<Rightarrow> int" where
  "dur_seconds d = (if d < 0 then - ((- d) div 1000000000) else d div 1000000000)"

definition repo_ListStaleUploaded :: "int \<Rightarrow> int \<Rightarrow> (StaleUpload list, 'm) sql" where
  "repo_ListStaleUploaded olderThan limit =
     (let limit = (if limit \<le> 0 \<or> 500 < limit then 100 else limit)
      in run_sql (sql_stale (dur_seconds olderThan) (nat limit)))"

text \<open>
  The transaction of \<open>UpdateStatus\<close>: \<open>Begin\<close>, the statements and \<open>Commit\<close>, each of which can
  fail; the deferred \<open>Rollback\<close> then restores the tables (\<open>back\<close>).
\<close>

definition rolled_back :: "'m pg_scheme \<Rightarrow> 'm pg_scheme \<Rightarrow> 'm pg_scheme" where
  "rolled_back back db = db\<lparr>pg_videos := pg_videos back, pg_rends := pg_rends back\<rparr>"

fun upsert_all :: "string \<Rightarrow> Rendition list \<Rightarrow> (unit, 'm) sql" where
  "upsert_all vid [] db = (Inr (), db)"
| "upsert_all vid (rn # rns) db =
     (case run_sql (sql_upsert_rendition vid rn) db of
        (Inl e, db) \<Rightarrow> (Inl e, db)
      | (Inr _, db) \<Rightarrow> upsert_all vid rns db)"

definition sql_begin :: "(unit, 'm) sql" where "sql_begin db = (Inr (), db)"

definition sql_commit :: "(unit, 'm) sql" where "sql_commit db = (Inr (), db)"

definition tx_status :: "string \<Rightarrow> VideoStatus \<Rightarrow> Rendition list \<Rightarrow> (unit, 'm) sql" where
  "tx_status vid status renditions db =
     (case run_sql (sql_status_for_update vid) db of
        (Inl e, db) \<Rightarrow> (Inl e, db)
      | (Inr cur, db) \<Rightarrow>
          if cur = StatusReady \<and> (status = StatusProcessing \<or> status = StatusUploaded)
          then run_sql sql_commit db
          else (case run_sql (sql_set_status status vid) db of
              (Inl e, db) \<Rightarrow> (Inl e, db)
            | (Inr _, db) \<Rightarrow>
                (case upsert_all vid renditions db of
                   (Inl e, db) \<Rightarrow> (Inl e, db)
                 | (Inr _, db) \<Rightarrow> run_sql sql_commit db)))"

definition repo_UpdateStatus :: "string \<Rightarrow> VideoStatus \<Rightarrow> Rendition list \<Rightarrow> (unit, 'm) sql" where
  "repo_UpdateStatus vid status renditions db0 =
     (case run_sql sql_begin db0 of
        (Inl e, db) \<Rightarrow> (Inl e, db)
      | (Inr _, db) \<Rightarrow>
          (case tx_status vid status renditions db of
             (Inl e, db') \<Rightarrow> (Inl e, rolled_back db db')
           | (Inr _, db') \<Rightarrow> (Inr (), db')))"

subsection \<open>The invariant of the tables\<close>

text \<open>
  What the schema guarantees: ids are canonical and unique, owners exist, renditions belong to a
  video and are unique per quality. The clause on \<open>pg_uuid_in\<close> is the documented behaviour of
  the \<open>uuid\<close> type: canonical text is not empty and reads as itself.
\<close>

definition pg_ok :: "'m pg_scheme \<Rightarrow> bool" where
  "pg_ok db \<longleftrightarrow>
     distinct (map v_id (pg_videos db)) \<and>
     (\<forall>v \<in> set (pg_videos db). pg_uuid_in db (v_id v) = Some (v_id v) \<and>
        pg_uuid_in db (v_owner v) = Some (v_owner v) \<and> email_of db (v_owner v) \<noteq> None) \<and>
     (\<forall>rn \<in> set (pg_rends db). \<exists>v \<in> set (pg_videos db). v_id v = VideoID rn) \<and>
     distinct (map (\<lambda>rn. (VideoID rn, Quality rn)) (pg_rends db)) \<and>
     (\<forall>s u. pg_uuid_in db s = Some u \<longrightarrow> pg_uuid_in db u = Some u \<and> u \<noteq> [])"

text \<open>The video that a text names, as the code reads it.\<close>

definition pg_look :: "'m pg_scheme \<Rightarrow> string \<Rightarrow> Video option" where
  "pg_look db s =
     (case pg_uuid_in db s of None \<Rightarrow> None
      | Some u \<Rightarrow> map_option (\<lambda>v. video_of (email_of db (v_owner v)) v) (row_of db u))"

definition pg_owner :: "'m pg_scheme \<Rightarrow> string \<Rightarrow> Video \<Rightarrow> bool" where
  "pg_owner db s v \<longleftrightarrow> pg_uuid_in db s = Some (OwnerID v)"

lemma pg_stmt_irrelevant [simp]:
  "row_of (db\<lparr>pg_stmt := n\<rparr>) = row_of db"
  "email_of (db\<lparr>pg_stmt := n\<rparr>) = email_of db"
  by (simp_all add: fun_eq_iff row_of_def email_of_def)

lemma pg_stmt_irrelevant2 [simp]:
  "pg_look (db\<lparr>pg_stmt := n\<rparr>) = pg_look db"
  "pg_owner (db\<lparr>pg_stmt := n\<rparr>) = pg_owner db"
  "pg_ok (db\<lparr>pg_stmt := n\<rparr>) = pg_ok db"
  by (simp_all add: fun_eq_iff pg_look_def pg_owner_def pg_ok_def split: option.split)

lemma run_sql_cases:
  assumes "run_sql stmt db = (r, db')"
  obtains (fault) e where "r = Inl (DbErr e)" "db' = db\<lparr>pg_stmt := pg_stmt db + 1\<rparr>"
    | (finished) "stmt (db\<lparr>pg_stmt := pg_stmt db + 1\<rparr>) = (r, db')"
  using assms by (auto simp: run_sql_def Let_def split: option.splits)

lemma with_uuid_cases:
  assumes "with_uuid s f db = (r, db')"
  obtains (bad) "pg_uuid_in db s = None" "r = Inl (DbErr ''22P02'')" "db' = db"
    | (read) u where "pg_uuid_in db s = Some u" "f u db = (r, db')"
  using assms by (auto simp: with_uuid_def split: option.splits)

lemma row_of_id: "row_of db u = Some v \<Longrightarrow> v_id v = u \<and> v \<in> set (pg_videos db)"
  by (auto simp: row_of_def find_Some_iff in_set_conv_nth)

lemma video_of_simps [simp]:
  "ID (video_of e v) = v_id v" "OwnerID (video_of e v) = v_owner v"
  "VVisibility (video_of e v) = v_visibility v" "VStatus (video_of e v) = v_status v"
  "Title (video_of e v) = v_title v" "Description (video_of e v) = v_description v"
  "OwnerEmail (video_of e v) = e" "ThumbnailS3Key (video_of e v) = v_thumb v"
  by (simp_all add: video_of_def)

text \<open>Reading does not change anything but the statement counter.\<close>

lemma repo_GetByID_spec:
  assumes "repo_GetByID s db = (r, db')"
  shows "\<exists>n. db' = db\<lparr>pg_stmt := n\<rparr>"
    and "r = Inr v \<Longrightarrow> \<exists>v0 rs. pg_look db s = Some v0 \<and> v = v0\<lparr>Renditions := rs\<rparr>"
    and "r = Inl ErrNotFound \<Longrightarrow> pg_look db s = None"
proof -
  obtain r1 db1 where 1: "run_sql (sql_select s) db = (r1, db1)" by (metis prod.exhaust)
  have s1: "\<exists>n. db1 = db\<lparr>pg_stmt := n\<rparr>" "r1 = Inr x \<Longrightarrow> pg_look db s = Some x"
    "r1 = Inl ErrNoRows \<Longrightarrow> pg_look db s = None" "r1 \<noteq> Inl ErrNotFound" for x
    using 1
    by (elim run_sql_cases; auto simp: sql_select_def with_uuid_def one_row_def pg_look_def split: option.splits)+
  obtain r2 db2 where 2: "run_sql (sql_renditions s) db1 = (r2, db2)" by (metis prod.exhaust)
  have s2: "\<exists>n. db2 = db1\<lparr>pg_stmt := n\<rparr>"
    using 2 by (elim run_sql_cases; auto simp: sql_renditions_def with_uuid_def split: option.splits)
  have res: "(r, db') = (case r1 of Inl e \<Rightarrow> (Inl (if e = ErrNoRows then ErrNotFound else e), db1)
      | Inr v \<Rightarrow> (case r2 of Inl e \<Rightarrow> (Inr v, db2) | Inr rs \<Rightarrow> (Inr (v\<lparr>Renditions := rs\<rparr>), db2)))"
    unfolding assms [symmetric] repo_GetByID_def 1 by (simp add: 2 split: sum.split)
  have db': "db' = db1 \<or> db' = db2" using res by (auto split: sum.splits)
  obtain n1 where n1: "db1 = db\<lparr>pg_stmt := n1\<rparr>" using s1(1) by blast
  obtain n2 where n2: "db2 = db\<lparr>pg_stmt := n2\<rparr>" using s2 n1 by auto
  from db' show "\<exists>n. db' = db\<lparr>pg_stmt := n\<rparr>" using n1 n2 by blast
  have self: "\<exists>rs. x = x\<lparr>Renditions := rs\<rparr>" for x :: Video
    by (rule exI [of _ "Renditions x"]) simp
  show "\<exists>v0 rs. pg_look db s = Some v0 \<and> v = v0\<lparr>Renditions := rs\<rparr>" if "r = Inr v"
  proof -
    from res that obtain v0 where v0: "r1 = Inr v0" by (cases r1) simp_all
    note look = s1(2) [OF v0]
    show ?thesis
    proof (cases r2)
      case (Inl e)
      have "v = v0" using res that v0 Inl by simp
      with look self [of v0] show ?thesis by blast
    next
      case (Inr rs)
      have "v = v0\<lparr>Renditions := rs\<rparr>" using res that v0 Inr by simp
      with look show ?thesis by blast
    qed
  qed
  show "r = Inl ErrNotFound \<Longrightarrow> pg_look db s = None"
    using res s1(3,4) by (auto split: sum.splits if_splits)
qed

text \<open>An update of rows by id and owner, seen through the lookup.\<close>

lemma find_map_rows:
  assumes "\<And>v. v_id (f v) = v_id v"
  shows "find (\<lambda>v. v_id v = u) (map f vs) = map_option f (find (\<lambda>v. v_id v = u) vs)"
  using assms by (induction vs) auto

lemma row_of_update_rows:
  assumes "\<And>v. v_id (f v) = v_id v"
  shows "row_of (update_rows P f db) u
    = map_option (\<lambda>v. if P v then (f v)\<lparr>v_updated := pg_now db\<rparr> else v) (row_of db u)"
  unfolding row_of_def update_rows_def using assms by (simp add: find_map_rows)

lemma update_rows_simps [simp]:
  "pg_uuid_in (update_rows P f db) = pg_uuid_in db"
  "email_of (update_rows P f db) = email_of db"
  "pg_rends (update_rows P f db) = pg_rends db"
  "pg_users (update_rows P f db) = pg_users db"
  "pg_now (update_rows P f db) = pg_now db"
  by (simp_all add: update_rows_def email_of_def fun_eq_iff)

lemma pg_ok_update_rows:
  assumes ok: "pg_ok db" and f: "\<And>v. v_id (f v) = v_id v" "\<And>v. v_owner (f v) = v_owner v"
  shows "pg_ok (update_rows P f db)"
proof -
  let ?db = "update_rows P f db"
  have ids: "map v_id (pg_videos ?db) = map v_id (pg_videos db)"
    using f by (simp add: update_rows_def)
  have old: "\<exists>w \<in> set (pg_videos db). v_id v = v_id w \<and> v_owner v = v_owner w"
    if "v \<in> set (pg_videos ?db)" for v
    using that f by (auto simp: update_rows_def)
  have row: "pg_uuid_in db (v_id v) = Some (v_id v) \<and> pg_uuid_in db (v_owner v) = Some (v_owner v) \<and>
      email_of db (v_owner v) \<noteq> None" if v: "v \<in> set (pg_videos ?db)" for v
  proof -
    obtain w where "w \<in> set (pg_videos db)" "v_id v = v_id w" "v_owner v = v_owner w"
      using old [OF v] by blast
    then show ?thesis using ok by (simp add: pg_ok_def)
  qed
  have "(\<exists>v \<in> set (pg_videos ?db). v_id v = k) \<longleftrightarrow> k \<in> set (map v_id (pg_videos ?db))" for k
    by auto
  then have rend: "\<exists>v \<in> set (pg_videos ?db). v_id v = k" if "\<exists>v \<in> set (pg_videos db). v_id v = k" for k
    using that unfolding ids by auto
  show ?thesis
    unfolding pg_ok_def update_rows_simps ids
    by (intro conjI ballI row rend) (use ok in \<open>simp_all add: pg_ok_def\<close>)
qed

subsection \<open>What the methods do\<close>

definition set_fields :: "UpdateVideoRequest \<Rightarrow> video_row \<Rightarrow> video_row" where
  "set_fields req v =
     v\<lparr>v_title := (case u_Title req of Some t \<Rightarrow> t | None \<Rightarrow> v_title v),
       v_description := (case u_Description req of Some d \<Rightarrow> d | None \<Rightarrow> v_description v),
       v_visibility := (case u_Visibility req of Some s \<Rightarrow> the (visibility_of s) | None \<Rightarrow> v_visibility v)\<rparr>"

lemma set_fields_simps [simp]:
  "v_id (set_fields req v) = v_id v" "v_owner (set_fields req v) = v_owner v"
  "v_status (set_fields req v) = v_status v" "v_thumb (set_fields req v) = v_thumb v"
  "v_duration (set_fields req v) = v_duration v" "v_created (set_fields req v) = v_created v"
  by (simp_all add: set_fields_def)

lemma find_and: "distinct (map v_id vs) \<Longrightarrow>
  find (\<lambda>v. v_id v = u \<and> P v) vs = (case find (\<lambda>v. v_id v = u) vs of None \<Rightarrow> None | Some v \<Rightarrow> if P v then Some v else None)"
proof (induction vs)
  case (Cons x vs)
  then show ?case by (auto split: option.split simp: find_None_iff find_Some_iff)
qed simp

text \<open>The one statement of \<open>Update\<close>.\<close>

lemma sql_update_spec:
  assumes ok: "pg_ok db" and valid: "\<forall>s. u_Visibility req = Some s \<longrightarrow> Valid s"
    and run: "sql_update (u_Title req) (u_Description req)
        (case u_Visibility req of Some s \<Rightarrow> visibility_of s | None \<Rightarrow> None) vid owner db = (r, db')"
  shows "(r = Inl (DbErr ''22P02'') \<and> db' = db) \<or>
    (\<exists>u ow. pg_uuid_in db vid = Some u \<and> pg_uuid_in db owner = Some ow \<and>
       db' = update_rows (\<lambda>v. v_id v = u \<and> v_owner v = ow) (set_fields req) db \<and>
       r = (case row_of db u of Some v \<Rightarrow>
              if v_owner v = ow then Inr (video_of (email_of db ow) ((set_fields req v)\<lparr>v_updated := pg_now db\<rparr>))
              else Inl ErrNoRows
            | None \<Rightarrow> Inl ErrNoRows))"
proof -
  let ?vis = "case u_Visibility req of Some s \<Rightarrow> visibility_of s | None \<Rightarrow> None"
  have f: "(\<lambda>v. v\<lparr>v_title := (case u_Title req of Some t \<Rightarrow> t | None \<Rightarrow> v_title v),
      v_description := (case u_Description req of Some d \<Rightarrow> d | None \<Rightarrow> v_description v),
      v_visibility := (case ?vis of Some x \<Rightarrow> x | None \<Rightarrow> v_visibility v)\<rparr>) = set_fields req"
    using valid by (auto simp: fun_eq_iff set_fields_def Valid_visibility split: option.split)
  show ?thesis
  proof (cases "pg_uuid_in db vid = None \<or> pg_uuid_in db owner = None")
    case True
    then show ?thesis using run by (auto simp: sql_update_def with_uuid_def split: option.splits)
  next
    case False
    then obtain u ow where u: "pg_uuid_in db vid = Some u" "pg_uuid_in db owner = Some ow" by auto
    let ?db = "update_rows (\<lambda>v. v_id v = u \<and> v_owner v = ow) (set_fields req) db"
    have "map v_id (pg_videos ?db) = map v_id (pg_videos db)" by (simp add: update_rows_def)
    then have d: "distinct (map v_id (pg_videos ?db))" using ok by (simp add: pg_ok_def)
    have run': "(r, db') = (one_row (map_option (\<lambda>v. video_of (email_of ?db (v_owner v)) v)
        (find (\<lambda>v. v_id v = u \<and> v_owner v = ow) (pg_videos ?db))), ?db)"
      unfolding run [symmetric] sql_update_def with_uuid_def u option.case Let_def f ..
    have "find (\<lambda>v. v_id v = u \<and> v_owner v = ow) (pg_videos ?db)
        = (case row_of ?db u of None \<Rightarrow> None | Some v \<Rightarrow> if v_owner v = ow then Some v else None)"
      unfolding row_of_def by (rule find_and [OF d])
    also have "row_of ?db u = map_option (\<lambda>v. if v_owner v = ow then (set_fields req v)\<lparr>v_updated := pg_now db\<rparr> else v) (row_of db u)"
      by (subst row_of_update_rows) (auto split: option.split dest: row_of_id intro!: option.map_cong)
    finally show ?thesis using run' u by (auto simp: one_row_def split: option.split)
  qed
qed

text \<open>\<open>Update\<close> on every outcome: the owner's row with the given fields, or nothing changed.\<close>

lemma repo_Update_spec:
  assumes ok: "pg_ok db" and run: "repo_Update vid owner req db = (r, db')"
  shows "pg_ok db'"
    and "r = Inl e \<Longrightarrow> row_of db' = row_of db \<and> pg_look db' = pg_look db"
    and "r = Inr v \<Longrightarrow> \<exists>u row. pg_uuid_in db vid = Some u \<and> row_of db u = Some row \<and>
        pg_uuid_in db owner = Some (v_owner row) \<and>
        v = video_of (email_of db (v_owner row)) ((set_fields req row)\<lparr>v_updated := pg_now db\<rparr>) \<and>
        (\<forall>k. row_of db' k = (if k = u then Some ((set_fields req row)\<lparr>v_updated := pg_now db\<rparr>) else row_of db k)) \<and>
        email_of db' = email_of db \<and> pg_uuid_in db' = pg_uuid_in db"
proof -
  let ?inv = "case u_Visibility req of Some s \<Rightarrow> \<not> Valid s | None \<Rightarrow> False"
  let ?st = "sql_update (u_Title req) (u_Description req)
        (case u_Visibility req of Some s \<Rightarrow> visibility_of s | None \<Rightarrow> None) vid owner"
  have look: "pg_look x = pg_look db" if "\<exists>n. x = db\<lparr>pg_stmt := n\<rparr>" for x using that by auto
  have "pg_ok db' \<and> (\<forall>e. r = Inl e \<longrightarrow> row_of db' = row_of db \<and> pg_look db' = pg_look db) \<and>
     (\<forall>v. r = Inr v \<longrightarrow> (\<exists>u row. pg_uuid_in db vid = Some u \<and> row_of db u = Some row \<and>
        pg_uuid_in db owner = Some (v_owner row) \<and>
        v = video_of (email_of db (v_owner row)) ((set_fields req row)\<lparr>v_updated := pg_now db\<rparr>) \<and>
        (\<forall>k. row_of db' k = (if k = u then Some ((set_fields req row)\<lparr>v_updated := pg_now db\<rparr>) else row_of db k)) \<and>
        email_of db' = email_of db \<and> pg_uuid_in db' = pg_uuid_in db))"
  proof (cases ?inv)
    case True
    then show ?thesis using ok run by (auto simp: repo_Update_def)
  next
    case False
    then have valid: "\<forall>s. u_Visibility req = Some s \<longrightarrow> Valid s" by (auto split: option.splits)
    obtain r1 db1 where 1: "run_sql ?st db = (r1, db1)" by (metis prod.exhaust)
    obtain r2 db2 where 2: "run_sql (sql_exists vid) db1 = (r2, db2)" by (metis prod.exhaust)
    have res: "(r, db') = (case r1 of Inl e \<Rightarrow>
           if e = ErrNoRows then
             (case r2 of Inr _ \<Rightarrow> (Inl ErrForbidden, db2) | Inl e' \<Rightarrow> (Inl (if e' \<noteq> ErrNoRows then e' else ErrNotFound), db2))
           else (Inl e, db1)
         | Inr v \<Rightarrow> (Inr v, db1))"
      unfolding run [symmetric] repo_Update_def if_not_P [OF False] Let_def 1 by (simp add: 2 split: sum.split)
    have ex: "\<exists>n. db2 = db1\<lparr>pg_stmt := n\<rparr>"
      using 2 by (elim run_sql_cases; auto simp: sql_exists_def with_uuid_def split: option.splits)
    show ?thesis
    proof (cases "\<exists>n. db1 = db\<lparr>pg_stmt := n\<rparr> \<and> (\<forall>v. r1 \<noteq> Inr v)")
      case True
      then obtain n where n: "db1 = db\<lparr>pg_stmt := n\<rparr>" and e: "\<forall>v. r1 \<noteq> Inr v" by blast
      obtain n2 where n2: "db2 = db\<lparr>pg_stmt := n2\<rparr>" using ex n by auto
      have "(db' = db1 \<or> db' = db2) \<and> (\<forall>v. r \<noteq> Inr v)"
        using res e by (cases r1; cases r2) (auto split: if_splits)
      then show ?thesis using n n2 ok by auto
    next
      case False
      define d where "d = db\<lparr>pg_stmt := pg_stmt db + 1\<rparr>"
      have same: "row_of d = row_of db" "email_of d = email_of db" "pg_now d = pg_now db" "pg_uuid_in d = pg_uuid_in db"
        by (simp_all add: d_def)
      have st: "?st d = (r1, db1)"
        using 1 by (rule run_sql_cases) (use False in \<open>auto simp: d_def\<close>)
      have ok1: "pg_ok d" using ok by (simp add: d_def)
      have "db1 \<noteq> d \<or> (\<exists>v. r1 = Inr v)" using False by (auto simp: d_def)
      with sql_update_spec [OF ok1 valid st, unfolded same]
      obtain u ow where u: "pg_uuid_in db vid = Some u" "pg_uuid_in db owner = Some ow"
        and d: "db1 = update_rows (\<lambda>v. v_id v = u \<and> v_owner v = ow) (set_fields req) d"
        and r1: "r1 = (case row_of db u of Some v \<Rightarrow>
              if v_owner v = ow then Inr (video_of (email_of db ow) ((set_fields req v)\<lparr>v_updated := pg_now db\<rparr>))
              else Inl ErrNoRows
            | None \<Rightarrow> Inl ErrNoRows)"
        by blast
      have k1: "pg_ok db1" unfolding d by (rule pg_ok_update_rows [OF ok1]) simp_all
      have row: "row_of db1 k = map_option (\<lambda>v. if v_id v = u \<and> v_owner v = ow
            then (set_fields req v)\<lparr>v_updated := pg_now db\<rparr> else v) (row_of db k)" for k
        unfolding d by (subst row_of_update_rows) (simp, simp only: same)
      have c1: "pg_uuid_in db1 = pg_uuid_in db" "email_of db1 = email_of db" unfolding d by (simp_all add: same)
      show ?thesis
      proof (cases "\<exists>v. row_of db u = Some v \<and> v_owner v = ow")
        case True
        then obtain v0 where v0: "row_of db u = Some v0" "v_owner v0 = ow" by blast
        have "r = Inr (video_of (email_of db ow) ((set_fields req v0)\<lparr>v_updated := pg_now db\<rparr>)) \<and> db' = db1"
          using res by (simp add: r1 v0)
        moreover have "row_of db1 k = (if k = u then Some ((set_fields req v0)\<lparr>v_updated := pg_now db\<rparr>) else row_of db k)" for k
          using row [of k] v0 row_of_id [of db k] by (cases "row_of db k") auto
        ultimately show ?thesis using u v0 k1 c1 by auto
      next
        case False
        then have "r1 = Inl ErrNoRows" unfolding r1 by (auto split: option.split)
        then have "db' = db2 \<and> (\<forall>v. r \<noteq> Inr v)" using res by (cases r2) auto
        moreover have "row_of db1 k = row_of db k" for k
          using row [of k] False row_of_id [of db k] by (cases "row_of db k") auto
        then have "row_of db1 = row_of db \<and> pg_look db1 = pg_look db"
          using c1 by (simp add: fun_eq_iff pg_look_def split: option.split)
        ultimately show ?thesis using ex k1 by auto
      qed
    qed
  qed
  then show "pg_ok db'" and "r = Inl e \<Longrightarrow> row_of db' = row_of db \<and> pg_look db' = pg_look db"
    and "r = Inr v \<Longrightarrow> \<exists>u row. pg_uuid_in db vid = Some u \<and> row_of db u = Some row \<and>
        pg_uuid_in db owner = Some (v_owner row) \<and>
        v = video_of (email_of db (v_owner row)) ((set_fields req row)\<lparr>v_updated := pg_now db\<rparr>) \<and>
        (\<forall>k. row_of db' k = (if k = u then Some ((set_fields req row)\<lparr>v_updated := pg_now db\<rparr>) else row_of db k)) \<and>
        email_of db' = email_of db \<and> pg_uuid_in db' = pg_uuid_in db"
    by blast+
qed

text \<open>\<open>Delete\<close>: the owner's row goes, with its renditions; on any error nothing changes.\<close>

lemma find_filter_ids:
  "find (\<lambda>v. v_id v = k) (filter (\<lambda>v. v_id v \<noteq> u) vs) = (if k = u then None else find (\<lambda>v. v_id v = k) vs)"
  by (induction vs) auto

lemma pg_ok_delete:
  assumes "pg_ok db"
  shows "pg_ok (db\<lparr>pg_videos := filter (\<lambda>v. v_id v \<noteq> u) (pg_videos db),
    pg_rends := filter (\<lambda>rn. VideoID rn \<noteq> u) (pg_rends db)\<rparr>)"
  using assms by (auto simp: pg_ok_def email_of_def distinct_map_filter) metis

lemma repo_Delete_spec:
  assumes ok: "pg_ok db" and run: "repo_Delete vid owner db = (r, db')"
  shows "pg_ok db'"
    and "r = Inl e \<Longrightarrow> row_of db' = row_of db \<and> pg_look db' = pg_look db"
    and "r = Inr x \<Longrightarrow> \<exists>u row. pg_uuid_in db vid = Some u \<and> row_of db u = Some row \<and> v_owner row = owner \<and>
        (\<forall>k. row_of db' k = (if k = u then None else row_of db k)) \<and>
        (\<forall>rn \<in> set (pg_rends db'). VideoID rn \<noteq> u) \<and> email_of db' = email_of db \<and> pg_uuid_in db' = pg_uuid_in db"
proof -
  obtain r1 db1 where 1: "repo_GetByID vid db = (r1, db1)" by (metis prod.exhaust)
  obtain n where n: "db1 = db\<lparr>pg_stmt := n\<rparr>" using repo_GetByID_spec(1) [OF 1] by blast
  have res: "(r, db') = (case r1 of Inl e \<Rightarrow> (Inl e, db1)
      | Inr v \<Rightarrow> if OwnerID v \<noteq> owner then (Inl ErrForbidden, db1) else run_sql (sql_delete vid) db1)"
    unfolding run [symmetric] repo_Delete_def 1 by (simp split: sum.split)
  have "pg_ok db' \<and> (\<forall>e. r = Inl e \<longrightarrow> row_of db' = row_of db \<and> pg_look db' = pg_look db) \<and>
     (\<forall>x. r = Inr x \<longrightarrow> (\<exists>u row. pg_uuid_in db vid = Some u \<and> row_of db u = Some row \<and> v_owner row = owner \<and>
        (\<forall>k. row_of db' k = (if k = u then None else row_of db k)) \<and>
        (\<forall>rn \<in> set (pg_rends db'). VideoID rn \<noteq> u) \<and> email_of db' = email_of db \<and> pg_uuid_in db' = pg_uuid_in db))"
  proof (cases "\<exists>v. r1 = Inr v \<and> OwnerID v = owner")
    case False
    then have "db' = db1 \<and> (\<forall>x. r \<noteq> Inr x)" using res by (cases r1) auto
    then show ?thesis using ok n by simp
  next
    case True
    then obtain v where v: "r1 = Inr v" "OwnerID v = owner" by blast
    have run2: "run_sql (sql_delete vid) db1 = (r, db')" using res v by simp
    from repo_GetByID_spec(2) [OF 1 v(1)] v(2)
    obtain u row where u: "pg_uuid_in db vid = Some u" "row_of db u = Some row" "v_owner row = owner"
      by (auto simp: pg_look_def split: option.splits)
    from run2 show ?thesis
    proof (cases rule: run_sql_cases)
      case (fault e)
      then show ?thesis using ok n by simp
    next
      case finished
      let ?d = "db\<lparr>pg_stmt := pg_stmt db1 + 1\<rparr>"
      have db': "db' = ?d\<lparr>pg_videos := filter (\<lambda>v. v_id v \<noteq> u) (pg_videos db),
          pg_rends := filter (\<lambda>rn. VideoID rn \<noteq> u) (pg_rends db)\<rparr>" "r = Inr ()"
        using finished u by (simp_all add: sql_delete_def with_uuid_def n)
      have "pg_ok db'" unfolding db' using pg_ok_delete [of ?d u] ok by simp
      moreover have "row_of db' k = (if k = u then None else row_of db k)" for k
        unfolding db' row_of_def by (simp add: find_filter_ids)
      ultimately show ?thesis using u db' by (auto simp: email_of_def fun_eq_iff)
    qed
  qed
  then show "pg_ok db'" and "r = Inl e \<Longrightarrow> row_of db' = row_of db \<and> pg_look db' = pg_look db"
    and "r = Inr x \<Longrightarrow> \<exists>u row. pg_uuid_in db vid = Some u \<and> row_of db u = Some row \<and> v_owner row = owner \<and>
        (\<forall>k. row_of db' k = (if k = u then None else row_of db k)) \<and>
        (\<forall>rn \<in> set (pg_rends db'). VideoID rn \<noteq> u) \<and> email_of db' = email_of db \<and> pg_uuid_in db' = pg_uuid_in db"
    by blast+
qed

text \<open>\<open>Create\<close>: a new row in state \<open>uploaded\<close>, or nothing.\<close>

lemma pg_ok_insert:
  assumes ok: "pg_ok db" and new: "row_of db (v_id v) = None"
    and can: "pg_uuid_in db (v_id v) = Some (v_id v)" "pg_uuid_in db (v_owner v) = Some (v_owner v)"
    and ow: "email_of db (v_owner v) \<noteq> None"
  shows "pg_ok (db\<lparr>pg_videos := pg_videos db @ [v]\<rparr>)"
  using assms by (auto simp: pg_ok_def email_of_def row_of_def find_None_iff)

lemma find_snoc: "find P (xs @ [x]) = (case find P xs of Some y \<Rightarrow> Some y | None \<Rightarrow> if P x then Some x else None)"
  by (induction xs) auto

lemma repo_Create_spec:
  assumes ok: "pg_ok db" and run: "repo_Create owner title desc vis db = (r, db')"
  shows "pg_ok db'"
    and "r = Inl e \<Longrightarrow> row_of db' = row_of db \<and> pg_look db' = pg_look db"
    and "r = Inr v \<Longrightarrow> row_of db (ID v) = None \<and> pg_uuid_in db owner = Some (OwnerID v) \<and>
        VStatus v = StatusUploaded \<and> Title v = title \<and> Description v = desc \<and>
        visibility_text (VVisibility v) = (case vis of Some s \<Rightarrow> s | None \<Rightarrow> ''public'') \<and>
        (\<exists>row. video_of None row = v \<and> (\<forall>k. row_of db' k = (if k = ID v then Some row else row_of db k)))"
proof -
  let ?id = "pg_new_uuid db (pg_stmt db)"
  let ?v = "case vis of Some s \<Rightarrow> visibility_of s | None \<Rightarrow> None"
  let ?d = "db\<lparr>pg_stmt := pg_stmt db + 1\<rparr>"
  have "pg_ok db' \<and> (\<forall>e. r = Inl e \<longrightarrow> row_of db' = row_of db \<and> pg_look db' = pg_look db) \<and>
    (\<forall>v. r = Inr v \<longrightarrow> row_of db (ID v) = None \<and> pg_uuid_in db owner = Some (OwnerID v) \<and>
        VStatus v = StatusUploaded \<and> Title v = title \<and> Description v = desc \<and>
        visibility_text (VVisibility v) = (case vis of Some s \<Rightarrow> s | None \<Rightarrow> ''public'') \<and>
        (\<exists>row. video_of None row = v \<and> (\<forall>k. row_of db' k = (if k = ID v then Some row else row_of db k))))"
  proof (cases "case vis of Some s \<Rightarrow> \<not> Valid s | None \<Rightarrow> False")
    case True
    then have "r = Inl ErrInvalidVisibility" "db' = db" using run by (simp_all add: repo_Create_def)
    then show ?thesis using ok by simp
  next
    case False
    obtain r1 db1 where 1: "run_sql (sql_insert ?id owner title desc ?v) db = (r1, db1)" by (metis prod.exhaust)
    have res: "(r, db') = (case r1 of Inl e \<Rightarrow> (Inl (case e of DbErr e \<Rightarrow> DbErr (''create video: '' @ e) | _ \<Rightarrow> e), db1)
        | Inr row \<Rightarrow> (Inr (video_of None row), db1))"
      unfolding run [symmetric] repo_Create_def if_not_P [OF False] Let_def 1
      by (simp split: sum.split repo_error.split)
    show ?thesis
    proof (cases r1)
      case (Inl e)
      have "db1 = ?d"
        using 1 unfolding Inl
        by (elim run_sql_cases) (auto simp: sql_insert_def with_uuid_def Let_def split: option.splits if_splits)
      then show ?thesis using res Inl ok by simp
    next
      case (Inr row)
      from 1 have "sql_insert ?id owner title desc ?v ?d = (Inr row, db1)"
        unfolding Inr by (elim run_sql_cases) simp_all
      then obtain u ow where u: "pg_uuid_in db ?id = Some u" "pg_uuid_in db owner = Some ow"
        and new: "row_of db u = None" "email_of db ow \<noteq> None"
        and row: "v_id row = u" "v_owner row = ow" "v_status row = StatusUploaded" "v_title row = title"
          "v_description row = desc" "v_visibility row = (case ?v of Some x \<Rightarrow> x | None \<Rightarrow> VisibilityPublic)"
        and db1: "db1 = ?d\<lparr>pg_videos := pg_videos ?d @ [row]\<rparr>"
        by (auto simp: sql_insert_def with_uuid_def Let_def split: option.splits if_splits)
      have r: "r = Inr (video_of None row)" "db' = db1" using res Inr by simp_all
      have "pg_ok db1" unfolding db1
        by (rule pg_ok_insert) (use ok u new row in \<open>auto simp: pg_ok_def email_of_def\<close>)
      moreover have "row_of db1 k = (if k = u then Some row else row_of db k)" for k
        using new row by (auto simp: db1 row_of_def find_snoc split: option.split)
      moreover have "visibility_text (v_visibility row) = (case vis of Some s \<Rightarrow> s | None \<Rightarrow> ''public'')"
        using False by (auto simp: row(6) Valid_def visibility_of_def split: option.splits)
      ultimately show ?thesis using r u new row by auto
    qed
  qed
  then show "pg_ok db'" and "r = Inl e \<Longrightarrow> row_of db' = row_of db \<and> pg_look db' = pg_look db"
    and "r = Inr v \<Longrightarrow> row_of db (ID v) = None \<and> pg_uuid_in db owner = Some (OwnerID v) \<and>
        VStatus v = StatusUploaded \<and> Title v = title \<and> Description v = desc \<and>
        visibility_text (VVisibility v) = (case vis of Some s \<Rightarrow> s | None \<Rightarrow> ''public'') \<and>
        (\<exists>row. video_of None row = v \<and> (\<forall>k. row_of db' k = (if k = ID v then Some row else row_of db k)))"
    by blast+
qed

text \<open>\<open>List\<close>: at most \<open>limit\<close> videos, each public and ready or the viewer's own.\<close>

lemma repo_List_spec:
  assumes run: "repo_List limit offset viewer db = (r, db')"
  shows "\<exists>n. db' = db\<lparr>pg_stmt := n\<rparr>"
    and "r = Inr vs \<Longrightarrow> length vs \<le> limit \<and> (\<forall>v \<in> set vs.
       (VVisibility v = VisibilityPublic \<and> VStatus v = StatusReady) \<or>
       (viewer \<noteq> [] \<and> pg_uuid_in db viewer = Some (OwnerID v)))"
proof -
  have "(\<exists>n. db' = db\<lparr>pg_stmt := n\<rparr>) \<and> (\<forall>vs. r = Inr vs \<longrightarrow> length vs \<le> limit \<and> (\<forall>v \<in> set vs.
       (VVisibility v = VisibilityPublic \<and> VStatus v = StatusReady) \<or>
       (viewer \<noteq> [] \<and> pg_uuid_in db viewer = Some (OwnerID v))))"
    using run unfolding repo_List_def
  proof (cases rule: run_sql_cases)
    case (fault e)
    then show ?thesis by auto
  next
    case finished
    then show ?thesis
      by (auto simp: sql_list_def with_uuid_def split: if_splits option.splits
          dest!: in_set_takeD in_set_dropD)
  qed
  then show "\<exists>n. db' = db\<lparr>pg_stmt := n\<rparr>"
    and "r = Inr vs \<Longrightarrow> length vs \<le> limit \<and> (\<forall>v \<in> set vs.
       (VVisibility v = VisibilityPublic \<and> VStatus v = StatusReady) \<or>
       (viewer \<noteq> [] \<and> pg_uuid_in db viewer = Some (OwnerID v)))" by blast+
qed

text \<open>\<open>UpdateThumbnail\<close> and the statements of the status transaction.\<close>

lemma repo_UpdateThumbnail_spec:
  assumes ok: "pg_ok db" and run: "repo_UpdateThumbnail vid key db = (r, db')"
  shows "pg_ok db' \<and> (\<forall>k. map_option v_status (row_of db' k) = map_option v_status (row_of db k) \<and>
     map_option v_owner (row_of db' k) = map_option v_owner (row_of db k))"
  using run unfolding repo_UpdateThumbnail_def
proof (cases rule: run_sql_cases)
  case (fault e)
  then show ?thesis using ok by simp
next
  case finished
  let ?d = "db\<lparr>pg_stmt := pg_stmt db + 1\<rparr>"
  have "db' = ?d \<or> (\<exists>u. db' = update_rows (\<lambda>v. v_id v = u) (\<lambda>v. v\<lparr>v_thumb := Some key\<rparr>) ?d)"
    using finished by (auto simp: sql_set_thumb_def with_uuid_def split: option.splits)
  then show ?thesis
  proof (elim disjE exE)
    fix u assume d: "db' = update_rows (\<lambda>v. v_id v = u) (\<lambda>v. v\<lparr>v_thumb := Some key\<rparr>) ?d"
    have "pg_ok db'" unfolding d by (rule pg_ok_update_rows) (use ok in simp_all)
    moreover have "row_of db' k = map_option (\<lambda>v. if v_id v = u then v\<lparr>v_thumb := Some key, v_updated := pg_now ?d\<rparr> else v)
        (row_of db k)" for k
      unfolding d by (subst row_of_update_rows) simp_all
    ultimately show ?thesis by (simp add: option.map_comp comp_def if_distrib cong: if_cong)
  qed (use ok in simp)
qed

lemma sql_upsert_spec:
  assumes ok: "pg_ok db" and run: "run_sql (sql_upsert_rendition vid rn) db = (r, db')"
  shows "pg_ok db'" "pg_videos db' = pg_videos db" "pg_now db' = pg_now db" "pg_uuid_in db' = pg_uuid_in db"
    "email_of db' = email_of db"
proof -
  let ?d = "db\<lparr>pg_stmt := pg_stmt db + 1\<rparr>"
  let ?new = "\<lambda>u. rn\<lparr>VideoID := u\<rparr>" and ?same = "\<lambda>u r. VideoID r = u \<and> Quality r = Quality rn"
  have "db' = ?d \<or> (\<exists>u. row_of db u \<noteq> None \<and> db' = ?d\<lparr>pg_rends := (if list_ex (?same u) (pg_rends ?d)
          then map (\<lambda>r. if ?same u r then ?new u else r) (pg_rends ?d) else pg_rends ?d @ [?new u])\<rparr>)"
    using run by (elim run_sql_cases)
      (auto simp: sql_upsert_rendition_def with_uuid_def Let_def split: option.splits if_splits)
  then have "pg_ok db' \<and> pg_videos db' = pg_videos db \<and> pg_now db' = pg_now db \<and> pg_uuid_in db' = pg_uuid_in db \<and>
      email_of db' = email_of db"
  proof
    assume "db' = ?d"
    then show ?thesis using ok by (simp add: fun_eq_iff)
  next
    assume "\<exists>u. row_of db u \<noteq> None \<and> db' = ?d\<lparr>pg_rends := (if list_ex (?same u) (pg_rends ?d)
          then map (\<lambda>r. if ?same u r then ?new u else r) (pg_rends ?d) else pg_rends ?d @ [?new u])\<rparr>"
    then obtain u v where u: "row_of db u = Some v" and db': "db' = ?d\<lparr>pg_rends := (if list_ex (?same u) (pg_rends db)
          then map (\<lambda>r. if ?same u r then ?new u else r) (pg_rends db) else pg_rends db @ [?new u])\<rparr>"
      by auto
    let ?k = "\<lambda>rn. (VideoID rn, Quality rn)"
    have keys: "map ?k (map (\<lambda>r. if ?same u r then ?new u else r) (pg_rends db)) = map ?k (pg_rends db)" by simp
    have "pg_ok db'"
      unfolding pg_ok_def db'
      using ok row_of_id [OF u] keys
      by (auto simp: pg_ok_def email_of_def list_ex_iff simp del: map_map)
    then show ?thesis by (simp add: db' email_of_def fun_eq_iff)
  qed
  then show "pg_ok db'" "pg_videos db' = pg_videos db" "pg_now db' = pg_now db" "pg_uuid_in db' = pg_uuid_in db"
    "email_of db' = email_of db" by simp_all
qed

lemma upsert_all_spec:
  "pg_ok db \<Longrightarrow> upsert_all vid rns db = (r, db') \<Longrightarrow>
   pg_ok db' \<and> pg_videos db' = pg_videos db \<and> pg_now db' = pg_now db \<and> pg_uuid_in db' = pg_uuid_in db \<and>
   email_of db' = email_of db"
proof (induction rns arbitrary: db)
  case (Cons rn rns)
  obtain r1 db1 where 1: "run_sql (sql_upsert_rendition vid rn) db = (r1, db1)" by (metis prod.exhaust)
  note sp = sql_upsert_spec [OF Cons.prems(1) 1]
  show ?case
  proof (cases r1)
    case (Inl e)
    then show ?thesis using Cons.prems(2) 1 sp by simp
  next
    case (Inr x)
    then show ?thesis using Cons.prems(2) 1 sp Cons.IH [OF sp(1)] by simp
  qed
qed simp

text \<open>\<open>UpdateStatus\<close>: all or nothing, and no way back from \<open>ready\<close> to a working state.\<close>

definition status_after :: "VideoStatus \<Rightarrow> VideoStatus \<Rightarrow> VideoStatus" where
  "status_after cur st =
     (if cur = StatusReady \<and> (st = StatusProcessing \<or> st = StatusUploaded) then cur else st)"

definition status_at :: "'m pg_scheme \<Rightarrow> string \<Rightarrow> VideoStatus option" where
  "status_at db u = map_option v_status (row_of db u)"

lemma status_at_videos: "pg_videos db' = pg_videos db \<Longrightarrow> status_at db' = status_at db"
  by (simp add: status_at_def row_of_def fun_eq_iff)

lemma status_at_stmt [simp]: "status_at (db\<lparr>pg_stmt := n\<rparr>) = status_at db"
  by (rule status_at_videos) simp

lemma run_sql_commit: "run_sql sql_commit db = (r, db') \<Longrightarrow> db' = db\<lparr>pg_stmt := pg_stmt db + 1\<rparr> \<and> (\<forall>e. r = Inl e \<longrightarrow> (\<exists>s. e = DbErr s))"
  by (elim run_sql_cases) (auto simp: sql_commit_def)

lemma status_at_set:
  "status_at (update_rows (\<lambda>v. v_id v = u) (\<lambda>v. v\<lparr>v_status := st\<rparr>) db) k
     = (if k = u \<and> row_of db u \<noteq> None then Some st else status_at db k)"
  using row_of_id [of db k]
  by (cases "row_of db k") (auto simp: status_at_def row_of_update_rows)

lemma tx_status_spec:
  assumes ok: "pg_ok db" and run: "tx_status vid st rns db = (r, db')"
  shows "pg_ok db'"
    and "r = Inr x \<Longrightarrow> \<exists>u cur. pg_uuid_in db vid = Some u \<and> status_at db u = Some cur \<and>
        (\<forall>k. status_at db' k = (if k = u then Some (status_after cur st) else status_at db k))"
proof -
  obtain r1 db1 where 1: "run_sql (sql_status_for_update vid) db = (r1, db1)" by (metis prod.exhaust)
  have s1: "\<exists>n. db1 = db\<lparr>pg_stmt := n\<rparr>"
    using 1 by (elim run_sql_cases) (auto simp: sql_status_for_update_def with_uuid_def split: option.splits)
  have cur: "\<exists>u. pg_uuid_in db vid = Some u \<and> status_at db u = Some c" if "r1 = Inr c" for c
    using 1 that
    by (elim run_sql_cases) (auto simp: sql_status_for_update_def with_uuid_def one_row_def status_at_def split: option.splits)
  obtain n where n: "db1 = db\<lparr>pg_stmt := n\<rparr>" using s1 by blast
  have same: "status_at db1 = status_at db" "pg_ok db1" "pg_uuid_in db1 = pg_uuid_in db"
    using ok by (simp_all add: n)
  have "pg_ok db' \<and> (\<forall>x. r = Inr x \<longrightarrow> (\<exists>u cur. pg_uuid_in db vid = Some u \<and> status_at db u = Some cur \<and>
        (\<forall>k. status_at db' k = (if k = u then Some (status_after cur st) else status_at db k))))"
  proof (cases r1)
    case (Inl e)
    then have "r = Inl e" "db' = db1" using run by (simp_all add: tx_status_def 1)
    then show ?thesis using ok by (simp add: n)
  next
    case (Inr c)
    from cur [OF Inr] obtain u where u: "pg_uuid_in db vid = Some u" "status_at db u = Some c" by blast
    show ?thesis
    proof (cases "c = StatusReady \<and> (st = StatusProcessing \<or> st = StatusUploaded)")
      case True
      then have "run_sql sql_commit db1 = (r, db')" using run Inr by (simp add: tx_status_def 1)
      from run_sql_commit [OF this] have "db' = db1\<lparr>pg_stmt := pg_stmt db1 + 1\<rparr>" by simp
      then have "pg_ok db'" "status_at db' = status_at db" using same ok by (simp_all add: n)
      moreover have "status_after c st = c" using True by (simp add: status_after_def)
      ultimately show ?thesis using u by auto
    next
      case False
      obtain r2 db2 where 2: "run_sql (sql_set_status st vid) db1 = (r2, db2)" by (metis prod.exhaust)
      let ?d = "db1\<lparr>pg_stmt := pg_stmt db1 + 1\<rparr>"
      let ?u = "update_rows (\<lambda>v. v_id v = u) (\<lambda>v. v\<lparr>v_status := st\<rparr>) ?d"
      have db2: "(db2 = ?d \<and> (\<exists>e. r2 = Inl e)) \<or> (db2 = ?u \<and> r2 = Inr ())"
        using 2 u(1) by (elim run_sql_cases) (auto simp: sql_set_status_def with_uuid_def n)
      have ok2: "pg_ok db2"
        using db2 same by (auto intro: pg_ok_update_rows)
      obtain r3 db3 where 3: "upsert_all vid rns db2 = (r3, db3)" by (metis prod.exhaust)
      from upsert_all_spec [OF ok2 3] have ok3: "pg_ok db3" and v3: "pg_videos db3 = pg_videos db2" by simp_all
      obtain r4 db4 where 4: "run_sql sql_commit db3 = (r4, db4)" by (metis prod.exhaust)
      from run_sql_commit [OF 4] have ok4: "pg_ok db4" and v4: "pg_videos db4 = pg_videos db3" using ok3 by simp_all
      have res: "(r, db') = (case r2 of Inl e \<Rightarrow> (Inl e, db2)
          | Inr _ \<Rightarrow> (case r3 of Inl e \<Rightarrow> (Inl e, db3) | Inr _ \<Rightarrow> (r4, db4)))"
        using run Inr False 2 3 4 by (auto simp: tx_status_def 1 split: sum.splits)
      have "pg_ok db'" using res ok2 ok3 ok4 by (auto split: sum.splits)
      moreover have "status_at db' k = (if k = u then Some (status_after c st) else status_at db k)"
        if "r = Inr x" for x k
      proof -
        from res that have r2: "r2 = Inr ()" and db': "db' = db4" by (auto split: sum.splits)
        from r2 db2 have "db2 = ?u" by auto
        then have "status_at db' = status_at ?u" using db' v4 v3 by (intro status_at_videos) simp
        moreover have "row_of ?d u \<noteq> None" using u(2) by (auto simp: status_at_def n)
        moreover have "status_at ?d = status_at db" by (simp add: n)
        moreover have "status_after c st = st" using False by (auto simp: status_after_def)
        ultimately show ?thesis by (simp add: status_at_set)
      qed
      ultimately show ?thesis using u by blast
    qed
  qed
  then show "pg_ok db'" and "r = Inr x \<Longrightarrow> \<exists>u cur. pg_uuid_in db vid = Some u \<and> status_at db u = Some cur \<and>
        (\<forall>k. status_at db' k = (if k = u then Some (status_after cur st) else status_at db k))"
    by blast+
qed

text \<open>What the transaction cannot touch: the users and the parameters of the server.\<close>

definition frame :: "'m pg_scheme \<Rightarrow> 'm pg_scheme \<Rightarrow> bool" where
  "frame db db' \<longleftrightarrow> pg_uuid_in db' = pg_uuid_in db \<and> email_of db' = email_of db"

lemma frame_run_sql:
  assumes "run_sql stmt db = (r, db')" "\<And>d r d'. stmt d = (r, d') \<Longrightarrow> frame d d'"
  shows "frame db db'"
  using assms(1)
proof (cases rule: run_sql_cases)
  case finished
  from assms(2) [OF this] show ?thesis by (simp add: frame_def)
qed (simp add: frame_def)

lemma frame_with_uuid:
  "(\<And>u d r d'. f u d = (r, d') \<Longrightarrow> frame d d') \<Longrightarrow> with_uuid s f d = (r, d') \<Longrightarrow> frame d d'"
  by (auto simp: with_uuid_def frame_def split: option.splits)

lemma frame_trans: "frame a b \<Longrightarrow> frame b c \<Longrightarrow> frame a c"
  by (simp add: frame_def)

lemma frame_upsert_all: "pg_ok db \<Longrightarrow> upsert_all vid rns db = (r, db') \<Longrightarrow> frame db db'"
  using upsert_all_spec by (fastforce simp: frame_def)

lemma frame_stmts:
  "sql_status_for_update vid d = (r1, d') \<Longrightarrow> frame d d'"
  "sql_set_status st vid d = (r2, d') \<Longrightarrow> frame d d'"
  "sql_commit d = (r3, d') \<Longrightarrow> frame d d'"
  by (auto simp: sql_status_for_update_def sql_set_status_def sql_commit_def with_uuid_def frame_def split: option.splits)

lemma frame_tx_status:
  assumes ok: "pg_ok db" and run: "tx_status vid st rns db = (r, db')"
  shows "frame db db'"
proof -
  obtain r1 db1 where 1: "run_sql (sql_status_for_update vid) db = (r1, db1)" by (metis prod.exhaust)
  have f1: "frame db db1" by (rule frame_run_sql [OF 1 frame_stmts(1)])
  have "\<exists>n. db1 = db\<lparr>pg_stmt := n\<rparr>"
    using 1 by (elim run_sql_cases) (auto simp: sql_status_for_update_def with_uuid_def split: option.splits)
  with ok have ok1: "pg_ok db1" by auto
  obtain r2 db2 where 2: "run_sql (sql_set_status st vid) db1 = (r2, db2)" by (metis prod.exhaust)
  have f2: "frame db1 db2" by (rule frame_run_sql [OF 2 frame_stmts(2)])
  have ok2: "pg_ok db2"
    using 2 ok1 by (elim run_sql_cases) (auto simp: sql_set_status_def with_uuid_def intro!: pg_ok_update_rows split: option.splits)
  obtain r3 db3 where 3: "upsert_all vid rns db2 = (r3, db3)" by (metis prod.exhaust)
  note f3 = frame_upsert_all [OF ok2 3]
  obtain r4 db4 where 4: "run_sql sql_commit db3 = (r4, db4)" by (metis prod.exhaust)
  have f4: "frame db3 db4" by (rule frame_run_sql [OF 4 frame_stmts(3)])
  obtain r5 db5 where 5: "run_sql sql_commit db1 = (r5, db5)" by (metis prod.exhaust)
  have f5: "frame db1 db5" by (rule frame_run_sql [OF 5 frame_stmts(3)])
  have "db' \<in> {db1, db2, db3, db4, db5}"
    using run by (auto simp: tx_status_def 1 2 3 4 5 split: sum.splits if_splits)
  then show ?thesis using f1 f2 f3 f4 f5 by (auto intro: frame_trans)
qed

lemma pg_ok_rolled_back:
  "pg_ok db \<Longrightarrow> frame db db' \<Longrightarrow> pg_ok (rolled_back db db')"
  by (simp add: pg_ok_def rolled_back_def frame_def fun_eq_iff email_of_def)

lemma repo_UpdateStatus_spec:
  assumes ok: "pg_ok db" and run: "repo_UpdateStatus vid st rns db = (r, db')"
  shows "pg_ok db'"
    and "r = Inl e \<Longrightarrow> pg_videos db' = pg_videos db \<and> pg_rends db' = pg_rends db"
    and "r = Inr x \<Longrightarrow> \<exists>u cur. pg_uuid_in db vid = Some u \<and> status_at db u = Some cur \<and>
        (\<forall>k. status_at db' k = (if k = u then Some (status_after cur st) else status_at db k))"
proof -
  obtain r1 db1 where 1: "run_sql sql_begin db = (r1, db1)" by (metis prod.exhaust)
  have n: "db1 = db\<lparr>pg_stmt := pg_stmt db + 1\<rparr>" using 1 by (elim run_sql_cases) (simp_all add: sql_begin_def)
  have ok1: "pg_ok db1" using ok by (simp add: n)
  obtain r2 db2 where 2: "tx_status vid st rns db1 = (r2, db2)" by (metis prod.exhaust)
  note tx = tx_status_spec [OF ok1 2] frame_tx_status [OF ok1 2]
  have st: "status_at db1 = status_at db" "pg_uuid_in db1 = pg_uuid_in db" by (simp_all add: n)
  have res: "(r, db') = (case r1 of Inl e \<Rightarrow> (Inl e, db1)
      | Inr _ \<Rightarrow> (case r2 of Inl e \<Rightarrow> (Inl e, rolled_back db1 db2) | Inr _ \<Rightarrow> (Inr (), db2)))"
    using run by (auto simp: repo_UpdateStatus_def 1 2 split: sum.splits)
  then show "pg_ok db'" using ok1 tx(1) pg_ok_rolled_back [OF ok1 tx(3)] by (auto split: sum.splits)
  show "r = Inl e \<Longrightarrow> pg_videos db' = pg_videos db \<and> pg_rends db' = pg_rends db"
    using res by (auto simp: n rolled_back_def split: sum.splits)
  show "r = Inr x \<Longrightarrow> \<exists>u cur. pg_uuid_in db vid = Some u \<and> status_at db u = Some cur \<and>
        (\<forall>k. status_at db' k = (if k = u then Some (status_after cur st) else status_at db k))"
    using res tx(2) st by (auto split: sum.splits)
qed

subsection \<open>Any sequence of calls\<close>

text \<open>A call of a method, as the handlers and the background jobs make them.\<close>

datatype repo_call =
    CCreate string string string "string option"
  | CGet string
  | CList nat nat string
  | CUpdate string string UpdateVideoRequest
  | CDelete string string
  | CThumb string string
  | CStale int int
  | CStatus string VideoStatus "Rendition list"

fun call :: "repo_call \<Rightarrow> 'm pg_scheme \<Rightarrow> 'm pg_scheme" where
  "call (CCreate owner t d v) db = snd (repo_Create owner t d v db)"
| "call (CGet vid) db = snd (repo_GetByID vid db)"
| "call (CList l off viewer) db = snd (repo_List l off viewer db)"
| "call (CUpdate vid owner req) db = snd (repo_Update vid owner req db)"
| "call (CDelete vid owner) db = snd (repo_Delete vid owner db)"
| "call (CThumb vid key) db = snd (repo_UpdateThumbnail vid key db)"
| "call (CStale secs l) db = snd (repo_ListStaleUploaded secs l db)"
| "call (CStatus vid st rns) db = snd (repo_UpdateStatus vid st rns db)"

text \<open>The changes of a video's status that a call can make (\<open>None\<close>: no such video).\<close>

definition may_become :: "VideoStatus option \<Rightarrow> VideoStatus option \<Rightarrow> bool" where
  "may_become a b \<longleftrightarrow>
     a = b \<or> (a = None \<and> b = Some StatusUploaded) \<or> (a \<noteq> None \<and> b = None) \<or>
     (a \<noteq> None \<and> b \<noteq> None \<and> (a = Some StatusReady \<longrightarrow> b = Some StatusFailed))"

lemma status_row: "row_of db' k = row_of db k \<Longrightarrow> status_at db' k = status_at db k"
  by (simp add: status_at_def)

lemma repo_Stale_spec:
  assumes "repo_ListStaleUploaded secs l db = (r, db')"
  shows "\<exists>n. db' = db\<lparr>pg_stmt := n\<rparr>"
  using assms by (auto simp: repo_ListStaleUploaded_def Let_def sql_stale_def elim!: run_sql_cases split: if_splits)

text \<open>The status after each method.\<close>

lemma status_call:
  assumes ok: "pg_ok db"
  shows "pg_ok (call c db) \<and> may_become (status_at db k) (status_at (call c db) k)"
proof (cases c)
  case (CCreate owner t d v)
  obtain r db' where 1: "repo_Create owner t d v db = (r, db')" by (metis prod.exhaust)
  note sp = repo_Create_spec [OF ok 1]
  show ?thesis
  proof (cases r)
    case (Inl e)
    then show ?thesis using sp(1) sp(2) [OF Inl] by (simp add: CCreate 1 may_become_def status_at_def)
  next
    case (Inr x)
    from sp(3) [OF Inr] obtain row where new: "row_of db (v_id row) = None" "v_status row = StatusUploaded"
      and rows: "\<And>j. row_of db' j = (if j = v_id row then Some row else row_of db j)" by auto
    then have "status_at db' k = (if k = v_id row then Some StatusUploaded else status_at db k)"
      by (simp add: status_at_def)
    then show ?thesis using sp(1) new by (simp add: CCreate 1 may_become_def) (simp add: status_at_def)
  qed
next
  case (CGet vid)
  obtain r db' where 1: "repo_GetByID vid db = (r, db')" by (metis prod.exhaust)
  show ?thesis using repo_GetByID_spec(1) [OF 1] ok by (auto simp: CGet 1 may_become_def)
next
  case (CList l off viewer)
  obtain r db' where 1: "repo_List l off viewer db = (r, db')" by (metis prod.exhaust)
  show ?thesis using repo_List_spec(1) [OF 1] ok by (auto simp: CList 1 may_become_def)
next
  case (CUpdate vid owner req)
  obtain r db' where 1: "repo_Update vid owner req db = (r, db')" by (metis prod.exhaust)
  note sp = repo_Update_spec [OF ok 1]
  show ?thesis
  proof (cases r)
    case (Inl e)
    then show ?thesis using sp(1) sp(2) [OF Inl] by (simp add: CUpdate 1 may_become_def status_at_def)
  next
    case (Inr x)
    from sp(3) [OF Inr] obtain u row where old: "row_of db u = Some row"
      and rows: "\<And>j. row_of db' j = (if j = u then Some ((set_fields req row)\<lparr>v_updated := pg_now db\<rparr>) else row_of db j)"
      by blast
    then have "status_at db' k = status_at db k" by (simp add: status_at_def)
    then show ?thesis using sp(1) by (simp add: CUpdate 1 may_become_def)
  qed
next
  case (CDelete vid owner)
  obtain r db' where 1: "repo_Delete vid owner db = (r, db')" by (metis prod.exhaust)
  note sp = repo_Delete_spec [OF ok 1]
  show ?thesis
  proof (cases r)
    case (Inl e)
    then show ?thesis using sp(1) sp(2) [OF Inl] by (simp add: CDelete 1 may_become_def status_at_def)
  next
    case (Inr x)
    from sp(3) [OF Inr] obtain u row where old: "row_of db u = Some row"
      and rows: "\<And>j. row_of db' j = (if j = u then None else row_of db j)" by blast
    then have "status_at db' k = (if k = u then None else status_at db k)" "status_at db u \<noteq> None"
      by (simp_all add: status_at_def)
    then show ?thesis using sp(1) by (simp add: CDelete 1 may_become_def)
  qed
next
  case (CThumb vid key)
  obtain r db' where 1: "repo_UpdateThumbnail vid key db = (r, db')" by (metis prod.exhaust)
  show ?thesis using repo_UpdateThumbnail_spec [OF ok 1] by (auto simp: CThumb 1 may_become_def status_at_def)
next
  case (CStale secs l)
  obtain r db' where 1: "repo_ListStaleUploaded secs l db = (r, db')" by (metis prod.exhaust)
  show ?thesis using repo_Stale_spec [OF 1] ok by (auto simp: CStale 1 may_become_def)
next
  case (CStatus vid st rns)
  obtain r db' where 1: "repo_UpdateStatus vid st rns db = (r, db')" by (metis prod.exhaust)
  note sp = repo_UpdateStatus_spec [OF ok 1]
  show ?thesis
  proof (cases r)
    case (Inl e)
    then have "status_at db' = status_at db" using sp(2) by (intro status_at_videos) simp
    then show ?thesis using sp(1) by (simp add: CStatus 1 may_become_def)
  next
    case (Inr x)
    from sp(3) [OF Inr] obtain u cur where old: "status_at db u = Some cur"
      and new: "\<And>j. status_at db' j = (if j = u then Some (status_after cur st) else status_at db j)" by blast
    have "cur = StatusReady \<Longrightarrow> status_after cur st \<in> {StatusReady, StatusFailed}"
      by (cases st) (simp_all add: status_after_def)
    then have "may_become (status_at db k) (status_at db' k)"
      using old new [of k] by (auto simp: may_become_def)
    then show ?thesis using sp(1) by (simp add: CStatus 1)
  qed
qed

subsection \<open>A sample database\<close>

definition sample_row :: "string \<Rightarrow> VideoStatus \<Rightarrow> Visibility \<Rightarrow> video_row" where
  "sample_row k st vis =
     \<lparr>v_id = k, v_owner = ''ann'', v_title = ''t'', v_description = [], v_duration = None, v_status = st,
      v_visibility = vis, v_thumb = None, v_created = 0, v_updated = 0\<rparr>"

text \<open>Users \<open>ann\<close> and \<open>bob\<close>, a ready private video \<open>v1\<close> of \<open>ann\<close> with a rendition; \<open>V1\<close> reads as
  the same id.\<close>

definition sample_pg :: pg where
  "sample_pg =
     \<lparr>pg_users = [(''ann'', ''a@x''), (''bob'', ''b@x'')],
      pg_videos = [sample_row ''v1'' StatusReady VisibilityPrivate],
      pg_rends = [\<lparr>VideoID = ''v1'', Quality = ''360p'', Bitrate = 800, Width = 640, Height = 360, S3Key = ''k''\<rparr>],
      pg_now = 5, pg_stmt = 0, pg_fault = (\<lambda>_. None),
      pg_uuid_in = (\<lambda>s. if s \<in> {''v1'', ''V1''} then Some ''v1'' else if s \<in> {''v2'', ''ann'', ''bob''} then Some s else None),
      pg_new_uuid = (\<lambda>_. ''v2'')\<rparr>"

lemma sample_pg_ok: "pg_ok sample_pg"
  by (auto simp: pg_ok_def sample_pg_def sample_row_def email_of_def)

subsection \<open>Properties\<close>

text \<open>C2: a status update is a transaction: when any of its statements fails, the tables are as
  before, renditions included; when it succeeds, the video existed, and its new status is the
  requested one, except that a ready video ignores a late \<open>processing\<close> or \<open>uploaded\<close> (a
  redelivered event); no other video's status changes.\<close>

theorem UpdateStatus_atomic:
  assumes "pg_ok db" "repo_UpdateStatus vid st rns db = (r, db')"
  shows "case r of
      Inl e \<Rightarrow> pg_videos db' = pg_videos db \<and> pg_rends db' = pg_rends db
    | Inr _ \<Rightarrow> (\<exists>u cur. pg_uuid_in db vid = Some u \<and> status_at db u = Some cur \<and>
        (\<forall>k. status_at db' k = (if k = u then Some (status_after cur st) else status_at db k)))"
  using repo_UpdateStatus_spec [OF assms] by (cases r) auto

lemma UpdateStatus_atomic_witness:
  "\<exists>db'. repo_UpdateStatus ''V1'' StatusProcessing [] sample_pg = (Inr (), db') \<and>
     status_at db' ''v1'' = Some StatusReady"
proof -
  obtain db' where r: "repo_UpdateStatus ''V1'' StatusProcessing [] sample_pg = (Inr (), db')"
  proof -
    have "fst (repo_UpdateStatus ''V1'' StatusProcessing [] sample_pg) = Inr ()" by code_simp
    then show ?thesis using that by (metis prod.collapse)
  qed
  have u: "pg_uuid_in sample_pg ''V1'' = Some ''v1''" "status_at sample_pg ''v1'' = Some StatusReady" by code_simp+
  from UpdateStatus_atomic [OF sample_pg_ok r] u have "status_at db' ''v1'' = Some (status_after StatusReady StatusProcessing)"
    by auto
  with r show ?thesis by (auto simp: status_after_def)
qed

text \<open>C15: over any sequence of repository calls the tables keep the schema's guarantees, and each
  call changes a video's status only in these ways: a new video is \<open>uploaded\<close>; a ready video
  can only become \<open>failed\<close> or be deleted. (The check in \<open>UpdateStatus\<close> guards against the two
  working states only, so a late failure report still takes a ready video offline.)\<close>

theorem repo_lifecycle:
  assumes "pg_ok db"
  shows "pg_ok (fold call cs db) \<and>
    may_become (status_at (fold call cs db) k) (status_at (call c (fold call cs db)) k)"
proof -
  have "pg_ok (fold call cs db)"
    using assms status_call by (induction cs arbitrary: db) auto
  with status_call show ?thesis by blast
qed

lemma repo_lifecycle_witness:
  "may_become (status_at (fold call [CCreate ''ann'' ''new'' [] None] sample_pg) ''v1'')
     (status_at (call (CStatus ''v1'' StatusFailed []) (fold call [CCreate ''ann'' ''new'' [] None] sample_pg)) ''v1'') \<and>
   status_at (call (CStatus ''v1'' StatusFailed []) (fold call [CCreate ''ann'' ''new'' [] None] sample_pg)) ''v1''
     = Some StatusFailed"
proof
  show "status_at (call (CStatus ''v1'' StatusFailed []) (fold call [CCreate ''ann'' ''new'' [] None] sample_pg)) ''v1''
     = Some StatusFailed" by code_simp
qed (use repo_lifecycle [OF sample_pg_ok] in blast)

end
