(* ===== verification/Md_Storage.thy ===== *)
theory Md_Storage
  imports Md_Repo
begin

text \<open>
  \<open>services/metadata/internal/storage/minio.go\<close>: object storage as the metadata service uses
  it. The MinIO client library is a parameter: the objects of the bucket are part of the
  state, a removal or a listing can fail, and signing is a function.
\<close>

text \<open>The world of the metadata service: the database and the bucket.\<close>

record md_world = pg +
  bk_objects :: "string list"
  bk_rm_err :: "string \<Rightarrow> go_error option"
  bk_list_err :: "string \<Rightarrow> go_error option"
  bk_log :: "string list"

text \<open>\<open>PresignedGetObject\<close> of one client: bucket, key and expiry to a URL.\<close>

type_synonym presigner = "string \<Rightarrow> string \<Rightarrow> int \<Rightarrow> go_error + string"

record MinioClient =
  m_client :: presigner
  m_presign :: "presigner option"
  m_bucket :: string

text \<open>The result of \<open>minio.New\<close> is the argument \<open>cl\<close>.\<close>

definition EnablePublicPresign :: "go_error + presigner \<Rightarrow> MinioClient \<Rightarrow> go_error option \<times> MinioClient" where
  "EnablePublicPresign cl m =
     (case cl of Inl err \<Rightarrow> (Some (wrapf ''minio public presign client'' err), m)
      | Inr p \<Rightarrow> (None, m\<lparr>m_presign := Some p\<rparr>))"

definition PresignGetInternal :: "MinioClient \<Rightarrow> string \<Rightarrow> int \<Rightarrow> go_error + string" where
  "PresignGetInternal m key expiry =
     (case m_client m (m_bucket m) key expiry of
        Inl err \<Rightarrow> Inl (wrapf (''presign get '' @ key) err) | Inr u \<Rightarrow> Inr u)"

definition PresignGetPublic :: "MinioClient \<Rightarrow> string \<Rightarrow> int \<Rightarrow> go_error + string" where
  "PresignGetPublic m key expiry =
     (let cl = (case m_presign m of None \<Rightarrow> m_client m | Some p \<Rightarrow> p)
      in case cl (m_bucket m) key expiry of
           Inl err \<Rightarrow> Inl (wrapf (''presign get '' @ key) err) | Inr u \<Rightarrow> Inr u)"

text \<open>\<open>client.RemoveObject\<close> with the log line; removing a missing object succeeds.\<close>

definition remove_object :: "string \<Rightarrow> ('m md_world_scheme) \<Rightarrow> 'm md_world_scheme" where
  "remove_object k w =
     (case bk_rm_err w k of
        Some err \<Rightarrow> w\<lparr>bk_log := bk_log w @ [''minio remove failed '' @ k]\<rparr>
      | None \<Rightarrow> w\<lparr>bk_objects := filter (\<lambda>o'. o' \<noteq> k) (bk_objects w),
                  bk_log := bk_log w @ [''minio removed '' @ k]\<rparr>)"

definition RemoveObjects :: "string list \<Rightarrow> 'm md_world_scheme \<Rightarrow> 'm md_world_scheme" where
  "RemoveObjects ks w = fold (\<lambda>k w. if k = [] then w else remove_object k w) ks w"

definition RemovePrefix :: "string \<Rightarrow> 'm md_world_scheme \<Rightarrow> 'm md_world_scheme" where
  "RemovePrefix pre w =
     (case bk_list_err w pre of
        Some err \<Rightarrow> w\<lparr>bk_log := bk_log w @ [''list for remove failed '' @ pre]\<rparr>
      | None \<Rightarrow> fold remove_object (filter (\<lambda>k. HasPrefix k pre) (bk_objects w)) w)"

subsection \<open>What is left in the bucket\<close>

lemma remove_object_frame:
  "bk_rm_err (remove_object k w) = bk_rm_err w" "bk_list_err (remove_object k w) = bk_list_err w"
  "pg.truncate (remove_object k w) = pg.truncate w"
  by (auto simp: remove_object_def pg.truncate_def split: option.split)

lemma bk_objects_remove:
  "set (bk_objects (remove_object k w)) =
     set (bk_objects w) - (if bk_rm_err w k = None then {k} else {})"
  by (auto simp: remove_object_def split: option.split)

lemma bk_objects_fold:
  "set (bk_objects (fold remove_object ks w)) =
     set (bk_objects w) - {k \<in> set ks. bk_rm_err w k = None}"
  by (induction ks arbitrary: w) (auto simp: bk_objects_remove remove_object_frame split: if_splits)

lemma fold_remove_frame: "pg.truncate (fold remove_object ks w) = pg.truncate w"
  by (induction ks arbitrary: w) (simp_all add: remove_object_frame)

lemma fold_skip: "fold (\<lambda>k w. if P k then w else f k w) ks w = fold f (filter (\<lambda>k. \<not> P k) ks) w"
  by (induction ks arbitrary: w) auto

lemma RemoveObjects_frame: "pg.truncate (RemoveObjects ks w) = pg.truncate w"
  by (simp add: RemoveObjects_def fold_skip fold_remove_frame)

lemma RemovePrefix_frame: "pg.truncate (RemovePrefix pre w) = pg.truncate w"
  by (auto simp: RemovePrefix_def fold_remove_frame pg.truncate_def split: option.split)
     (metis fold_remove_frame pg.ext_inject pg.truncate_def)+

text \<open>After a removal by prefix without errors no object with the prefix is left.\<close>

lemma RemovePrefix_objects:
  assumes "bk_list_err w pre = None" "\<And>k. HasPrefix k pre \<Longrightarrow> bk_rm_err w k = None"
  shows "set (bk_objects (RemovePrefix pre w)) = {k \<in> set (bk_objects w). \<not> HasPrefix k pre}"
  using assms by (auto simp: RemovePrefix_def bk_objects_fold)

end
