(* ===== verification/Md_Handler.thy ===== *)
theory Md_Handler
  imports Md_Storage Pkg_Auth
begin

text \<open>
  \<open>services/metadata/internal/handler/video.go\<close> and \<open>internal/middleware/internal.go\<close>: the HTTP
  handlers of the metadata service. As in the code the handlers work on an interface, a record
  of the store's methods; what they rely on is the locale \<open>video_store\<close>, in which their
  access-control lemmas are proved, and the PostgreSQL repository is its interpretation.
\<close>

subsection \<open>The interfaces\<close>

record 'w VideoStore =
  st_Create :: "string \<Rightarrow> string \<Rightarrow> string \<Rightarrow> string option \<Rightarrow> 'w \<Rightarrow> (repo_error + Video) \<times> 'w"
  st_GetByID :: "string \<Rightarrow> 'w \<Rightarrow> (repo_error + Video) \<times> 'w"
  st_List :: "nat \<Rightarrow> nat \<Rightarrow> string \<Rightarrow> 'w \<Rightarrow> (repo_error + Video list) \<times> 'w"
  st_Update :: "string \<Rightarrow> string \<Rightarrow> UpdateVideoRequest \<Rightarrow> 'w \<Rightarrow> (repo_error + Video) \<times> 'w"
  st_Delete :: "string \<Rightarrow> string \<Rightarrow> 'w \<Rightarrow> (repo_error + unit) \<times> 'w"
  st_UpdateStatus :: "string \<Rightarrow> VideoStatus \<Rightarrow> Rendition list \<Rightarrow> 'w \<Rightarrow> (repo_error + unit) \<times> 'w"
  st_UpdateThumbnail :: "string \<Rightarrow> string \<Rightarrow> 'w \<Rightarrow> (repo_error + unit) \<times> 'w"
  st_ListStaleUploaded :: "int \<Rightarrow> int \<Rightarrow> 'w \<Rightarrow> (repo_error + StaleUpload list) \<times> 'w"

text \<open>\<open>StorageRemover\<close>; \<open>sr_presigner\<close> is the result of the assertion to \<open>StoragePresigner\<close>: the
  internal and the public presigning.\<close>

record 'w StorageRemover =
  sr_RemoveObjects :: "string list \<Rightarrow> 'w \<Rightarrow> 'w"
  sr_RemovePrefix :: "string \<Rightarrow> 'w \<Rightarrow> 'w"
  sr_presigner :: "((string \<Rightarrow> int \<Rightarrow> go_error + string) \<times> (string \<Rightarrow> int \<Rightarrow> go_error + string)) option"

text \<open>\<open>h_fmt\<close> is the JSON text of a time.\<close>

record 'w VideoHandler =
  h_repo :: "'w VideoStore"
  h_storage :: "'w StorageRemover option"
  h_fmt :: "int \<Rightarrow> string"

definition presignExpiry :: int where "presignExpiry = 168 * 3600 * 1000000000"

definition presignThumbnail :: "'w VideoHandler \<Rightarrow> Video \<Rightarrow> Video" where
  "presignThumbnail h v =
     (case (h_storage h, ThumbnailS3Key v) of
        (Some s, Some k) \<Rightarrow>
          if k = [] then v
          else (case sr_presigner s of None \<Rightarrow> v
              | Some (_, public) \<Rightarrow>
                (case public k presignExpiry of Inl err \<Rightarrow> v | Inr u \<Rightarrow> v\<lparr>ThumbnailURL := Some u\<rparr>))
      | _ \<Rightarrow> v)"

definition presignThumbnails :: "'w VideoHandler \<Rightarrow> Video list \<Rightarrow> Video list" where
  "presignThumbnails h vs = map (presignThumbnail h) vs"

lemma presignThumbnail_simps [simp]:
  "ID (presignThumbnail h v) = ID v" "OwnerID (presignThumbnail h v) = OwnerID v"
  "VStatus (presignThumbnail h v) = VStatus v" "VVisibility (presignThumbnail h v) = VVisibility v"
  "Renditions (presignThumbnail h v) = Renditions v"
  by (auto simp: presignThumbnail_def split: option.split sum.split)

subsection \<open>The handlers\<close>

definition handle_Create :: "'w VideoHandler \<Rightarrow> 'w handler" where
  "handle_Create h r wh w =
     (let ownerID = UserIDFromCtx r in
      case decode_create (BodyJSON r) of
        None \<Rightarrow> (writeError wh r 400 ''invalid body'', w)
      | Some req \<Rightarrow>
          if c_Title req = [] then (writeError wh r 400 ''title required'', w)
          else if (case c_Visibility req of Some s \<Rightarrow> \<not> Valid s | None \<Rightarrow> False)
          then (writeError wh r 400 ''invalid visibility'', w)
          else (case st_Create (h_repo h) ownerID (c_Title req) (c_Description req) (c_Visibility req) w of
              (Inl err, w) \<Rightarrow>
                if err = ErrInvalidVisibility then (writeError wh r 400 ''invalid visibility'', w)
                else (writeError wh r 500 ''internal error'', w)
            | (Inr v, w) \<Rightarrow> (WriteJSON wh r 201 (video_json (h_fmt h) (presignThumbnail h v)), w)))"

definition getVideo :: "'w VideoHandler \<Rightarrow> bool \<Rightarrow> 'w handler" where
  "getVideo h enforceVisibility r wh w =
     (case st_GetByID (h_repo h) (UrlId r) w of
        (Inl err, w) \<Rightarrow>
          if err = ErrNotFound then (writeError wh r 404 ''not found'', w)
          else (writeError wh r 500 ''internal error'', w)
      | (Inr v, w) \<Rightarrow>
          if enforceVisibility \<and> VVisibility v = VisibilityPrivate \<and> UserIDFromCtx r \<noteq> OwnerID v
          then (writeError wh r 403 ''forbidden'', w)
          else (WriteJSON wh r 200 (video_json (h_fmt h) (presignThumbnail h v)), w))"

definition handle_Get :: "'w VideoHandler \<Rightarrow> 'w handler" where
  "handle_Get h = getVideo h True"

definition handle_GetInternal :: "'w VideoHandler \<Rightarrow> 'w handler" where
  "handle_GetInternal h = getVideo h False"

definition stale_json :: "StaleUpload \<Rightarrow> json" where
  "stale_json s = JObj [(''id'', JStr (stale_ID s)), (''owner_id'', JStr (stale_OwnerID s))]"

definition handle_ListStale :: "'w VideoHandler \<Rightarrow> 'w handler" where
  "handle_ListStale h r wh w =
     (let olderThan = (case Atoi (query_get r ''older_than_seconds'') of (v, ok) \<Rightarrow>
            if ok \<and> 0 < v then v else 3600);
          limit = (case Atoi (query_get r ''limit'') of (v, ok) \<Rightarrow>
            if ok \<and> 0 < v \<and> v \<le> 500 then v else 100)
      in case st_ListStaleUploaded (h_repo h) (wrap64 (olderThan * 1000000000)) limit w of
           (Inl err, w) \<Rightarrow> (writeError wh r 500 ''internal error'', w)
         | (Inr list, w) \<Rightarrow> (WriteJSON wh r 200 (JObj [(''data'', JArr (map stale_json list))]), w))"

text \<open>The query of a URL as \<open>url.Parse\<close> splits it off; the signed URLs come from \<open>URL.String\<close>,
  so they parse.\<close>

definition raw_query :: "string \<Rightarrow> string" where
  "raw_query u =
     (let s = takeWhile (\<lambda>c. c \<noteq> CHR ''#'') u
      in case IndexByte s CHR ''?'' of None \<Rightarrow> [] | Some i \<Rightarrow> drop (i + 1) s)"

definition vod_path :: "'w VideoHandler \<Rightarrow> Rendition \<Rightarrow> go_error + string" where
  "vod_path h rn =
     (case (case h_storage h of None \<Rightarrow> None | Some s \<Rightarrow> sr_presigner s) of
        None \<Rightarrow> Inr (CHR ''/'' # S3Key rn)
      | Some (internal, _) \<Rightarrow>
          (case internal (S3Key rn) presignExpiry of
             Inl err \<Rightarrow> Inl err
           | Inr u \<Rightarrow> if raw_query u \<noteq> [] then Inr (CHR ''/'' # S3Key rn @ CHR ''?'' # raw_query u)
                      else Inr (CHR ''/'' # S3Key rn)))"

text \<open>The loop over the renditions: it stops at the first one that cannot be signed.\<close>

fun vod_sequences :: "'w VideoHandler \<Rightarrow> Rendition list \<Rightarrow> json list option" where
  "vod_sequences h [] = Some []"
| "vod_sequences h (rn # rns) =
     (case vod_path h rn of Inl err \<Rightarrow> None
      | Inr path \<Rightarrow>
        map_option (\<lambda>js. JObj [(''clips'', JArr [JObj [(''type'', JStr ''source''), (''path'', JStr path)]])] # js)
          (vod_sequences h rns))"

definition handle_GetVODMapping :: "'w VideoHandler \<Rightarrow> 'w handler" where
  "handle_GetVODMapping h r wh w =
     (case st_GetByID (h_repo h) (UrlId r) w of
        (Inl err, w) \<Rightarrow>
          if err = ErrNotFound then (writeError wh r 404 ''video not ready'', w)
          else (writeError wh r 500 ''internal error'', w)
      | (Inr v, w) \<Rightarrow>
          if VStatus v \<noteq> StatusReady \<or> Renditions v = [] then (writeError wh r 404 ''video not ready'', w)
          else (case vod_sequences h (sort_key Bitrate (Renditions v)) of
              None \<Rightarrow> (writeError wh r 502 ''presign failed'', w)
            | Some sequences \<Rightarrow> (WriteJSON wh r 200 (JObj [(''sequences'', JArr sequences)]), w)))"

definition handle_List :: "'w VideoHandler \<Rightarrow> 'w handler" where
  "handle_List h r wh w =
     (let limit = (case Atoi (query_get r ''limit'') of (v, ok) \<Rightarrow>
            if ok \<and> 0 < v \<and> v \<le> 100 then v else 20);
          offset = (case Atoi (query_get r ''offset'') of (v, ok) \<Rightarrow> if ok \<and> 0 \<le> v then v else 0)
      in case st_List (h_repo h) (nat limit) (nat offset) (UserIDFromCtx r) w of
           (Inl err, w) \<Rightarrow> (writeError wh r 500 ''internal error'', w)
         | (Inr list, w) \<Rightarrow>
             (WriteJSON wh r 200 (JObj
                [(''data'', JArr (map (video_json (h_fmt h)) (presignThumbnails h list))),
                 (''limit'', JNum (Itoa limit)), (''offset'', JNum (Itoa offset))]), w))"

definition repo_error_response :: "header \<Rightarrow> request \<Rightarrow> repo_error \<Rightarrow> response" where
  "repo_error_response wh r err =
     (case err of
        ErrForbidden \<Rightarrow> writeError wh r 403 ''forbidden''
      | ErrInvalidVisibility \<Rightarrow> writeError wh r 400 ''invalid visibility''
      | ErrNotFound \<Rightarrow> writeError wh r 404 ''not found''
      | _ \<Rightarrow> writeError wh r 500 ''internal error'')"

definition handle_Update :: "'w VideoHandler \<Rightarrow> 'w handler" where
  "handle_Update h r wh w =
     (let ownerID = UserIDFromCtx r; vid = UrlId r in
      case decode_update (BodyJSON r) of
        None \<Rightarrow> (writeError wh r 400 ''invalid body'', w)
      | Some req \<Rightarrow>
          if (case u_Visibility req of Some s \<Rightarrow> \<not> Valid s | None \<Rightarrow> False)
          then (writeError wh r 400 ''invalid visibility'', w)
          else (case st_Update (h_repo h) vid ownerID req w of
              (Inl err, w) \<Rightarrow> (repo_error_response wh r err, w)
            | (Inr v, w) \<Rightarrow> (WriteJSON wh r 200 (video_json (h_fmt h) (presignThumbnail h v)), w)))"

text \<open>The object keys of a video, read before the row goes.\<close>

definition delete_keys :: "string \<Rightarrow> Video \<Rightarrow> string list" where
  "delete_keys vid v =
     (''raw/'' @ vid @ ''/original.mp4'') # filter (\<lambda>k. k \<noteq> []) (map S3Key (Renditions v)) @
     [case ThumbnailS3Key v of Some k \<Rightarrow> if k \<noteq> [] then k else ''thumbnails/'' @ vid @ ''/thumb.jpg''
      | None \<Rightarrow> ''thumbnails/'' @ vid @ ''/thumb.jpg'']"

definition clean_storage :: "'w StorageRemover \<Rightarrow> string list \<Rightarrow> string \<Rightarrow> 'w \<Rightarrow> 'w" where
  "clean_storage s keys vid w =
     (let w = (if keys \<noteq> [] then sr_RemoveObjects s keys w else w);
          w = sr_RemovePrefix s (''renditions/'' @ vid @ ''/'') w;
          w = sr_RemovePrefix s (''raw/'' @ vid @ ''/'') w
      in sr_RemovePrefix s (''thumbnails/'' @ vid @ ''/'') w)"

definition handle_Delete :: "'w VideoHandler \<Rightarrow> 'w handler" where
  "handle_Delete h r wh w =
     (let ownerID = UserIDFromCtx r; vid = UrlId r;
          (keys, w) = (case h_storage h of None \<Rightarrow> ([], w)
             | Some s \<Rightarrow> (case st_GetByID (h_repo h) vid w of
                 (Inl err, w) \<Rightarrow> ([], w)
               | (Inr v, w) \<Rightarrow> (delete_keys vid v, w)))
      in case st_Delete (h_repo h) vid ownerID w of
           (Inl err, w) \<Rightarrow>
             ((case err of ErrForbidden \<Rightarrow> writeError wh r 403 ''forbidden''
               | ErrNotFound \<Rightarrow> writeError wh r 404 ''not found''
               | _ \<Rightarrow> writeError wh r 500 ''internal error''), w)
         | (Inr _, w) \<Rightarrow>
             (WriteHeader wh 204,
              case h_storage h of None \<Rightarrow> w | Some s \<Rightarrow> clean_storage s keys vid w))"

definition handle_UpdateStatus :: "'w VideoHandler \<Rightarrow> 'w handler" where
  "handle_UpdateStatus h r wh w =
     (let vid = UrlId r in
      case decode_status (BodyJSON r) of
        None \<Rightarrow> (writeError wh r 400 ''invalid body'', w)
      | Some req \<Rightarrow>
          (case status_of (s_Status req) of
             None \<Rightarrow> (writeError wh r 400 ''invalid status'', w)
           | Some st \<Rightarrow>
               (case st_UpdateStatus (h_repo h) vid st (s_Renditions req) w of
                  (Inl err, w) \<Rightarrow> (writeError wh r 500 ''internal error'', w)
                | (Inr _, w) \<Rightarrow>
                    (let thumbKey = (case s_ThumbnailS3Key req of Some k \<Rightarrow> k
                            | None \<Rightarrow> (case s_ThumbnailURL req of Some k \<Rightarrow> k | None \<Rightarrow> []));
                         w = (if thumbKey \<noteq> [] then snd (st_UpdateThumbnail (h_repo h) vid thumbKey w) else w)
                     in (WriteJSON wh r 200 (JObj [(''status'', JStr ''ok'')]), w)))))"

text \<open>\<open>InternalAuth\<close>; the comparison takes constant time, which a value does not show.\<close>

definition InternalAuth :: "string \<Rightarrow> 'w handler \<Rightarrow> 'w handler" where
  "InternalAuth secret next r wh w =
     (if secret = [] then next r wh w
      else if hget (ReqHeader r) ''X-Internal-Token'' \<noteq> secret
      then (http_Error wh ''{\"error\":\"unauthorized internal\"}'' 401, w)
      else next r wh w)"

subsection \<open>What the handlers rely on\<close>

text \<open>
  The contract of the store: \<open>look w k\<close> is the video that the text \<open>k\<close> names, \<open>is_owner w s v\<close>
  that the text \<open>s\<close> names the owner of \<open>v\<close>. Reads change nothing, a failed write changes
  nothing, and a write takes effect on a video of the named owner only.
\<close>

text \<open>A lookup function after the video with the id \<open>i\<close> became \<open>x\<close>.\<close>

definition video_set :: "(string \<Rightarrow> Video option) \<Rightarrow> string \<Rightarrow> Video option \<Rightarrow> string \<Rightarrow> Video option" where
  "video_set L i x = (\<lambda>j. if \<exists>y. L j = Some y \<and> ID y = i then x else L j)"

locale video_store =
  fixes S :: "'w VideoStore"
    and ok :: "'w \<Rightarrow> bool"
    and look :: "'w \<Rightarrow> string \<Rightarrow> Video option"
    and is_owner :: "'w \<Rightarrow> string \<Rightarrow> Video \<Rightarrow> bool"
  assumes get: "ok w \<Longrightarrow> st_GetByID S k w = (r, w') \<Longrightarrow>
      ok w' \<and> look w' = look w \<and> is_owner w' = is_owner w \<and>
      (\<forall>v. r = Inr v \<longrightarrow> (\<exists>v0 rs. look w k = Some v0 \<and> v = v0\<lparr>Renditions := rs\<rparr>))"
    and list: "ok w \<Longrightarrow> st_List S l off viewer w = (rl, w') \<Longrightarrow>
      ok w' \<and> look w' = look w \<and>
      (\<forall>vs. rl = Inr vs \<longrightarrow> length vs \<le> l \<and> (\<forall>v \<in> set vs.
         (VVisibility v = VisibilityPublic \<and> VStatus v = StatusReady) \<or> (viewer \<noteq> [] \<and> is_owner w viewer v)))"
    and update: "ok w \<Longrightarrow> st_Update S k owner req w = (r, w') \<Longrightarrow>
      ok w' \<and> (\<forall>e. r = Inl e \<longrightarrow> look w' = look w) \<and>
      (\<forall>v. r = Inr v \<longrightarrow> (\<exists>v0. look w k = Some v0 \<and> is_owner w owner v0 \<and>
         OwnerID v = OwnerID v0 \<and> VStatus v = VStatus v0 \<and>
         look w' = video_set (look w) (ID v0) (Some v)))"
    and delete: "ok w \<Longrightarrow> st_Delete S k owner w = (rd, w') \<Longrightarrow>
      ok w' \<and> (\<forall>e. rd = Inl e \<longrightarrow> look w' = look w) \<and>
      (\<forall>x. rd = Inr x \<longrightarrow> (\<exists>v0. look w k = Some v0 \<and> is_owner w owner v0 \<and>
         look w' = video_set (look w) (ID v0) (None)))"
    and owner_id: "OwnerID v = OwnerID v' \<Longrightarrow> is_owner w s v = is_owner w s v'"
begin

text \<open>A private video goes to its owner only; reading changes nothing.\<close>

lemma Get_private:
  assumes "ok w" "h_repo h = S" "handle_Get h r wh w = (res, w')"
  shows "ok w' \<and> look w' = look w \<and>
    (Status res = 200 \<longrightarrow> (\<exists>v0. look w (UrlId r) = Some v0 \<and>
       (VVisibility v0 = VisibilityPrivate \<longrightarrow> UserIDFromCtx r = OwnerID v0)))"
proof -
  obtain r1 w1 where 1: "st_GetByID S (UrlId r) w = (r1, w1)" by (metis prod.exhaust)
  note g = get [OF assms(1) 1]
  show ?thesis
  proof (cases r1)
    case (Inl e)
    then show ?thesis using assms(2,3) g by (auto simp: handle_Get_def getVideo_def 1 split: if_splits)
  next
    case (Inr v)
    with g obtain v0 rs where v: "look w (UrlId r) = Some v0" "v = v0\<lparr>Renditions := rs\<rparr>" by blast
    then show ?thesis using assms(2,3) g Inr by (auto simp: handle_Get_def getVideo_def 1 split: if_splits)
  qed
qed

text \<open>The list shows what the viewer may see.\<close>

lemma List_visible:
  assumes "ok w" "h_repo h = S" "handle_List h r wh w = (res, w')" "Status res = 200"
  shows "look w' = look w \<and> (\<exists>vs l off. RespBody res = Json (shouldPretty r)
      (JObj [(''data'', JArr (map (video_json (h_fmt h)) vs)), (''limit'', JNum (Itoa l)), (''offset'', JNum (Itoa off))]) \<and>
      int (length vs) \<le> l \<and> l \<le> 100 \<and>
      (\<forall>v \<in> set vs. (VVisibility v = VisibilityPublic \<and> VStatus v = StatusReady) \<or>
         (UserIDFromCtx r \<noteq> [] \<and> is_owner w (UserIDFromCtx r) v)))"
proof -
  let ?l = "case Atoi (query_get r ''limit'') of (v, ok) \<Rightarrow> if ok \<and> 0 < v \<and> v \<le> 100 then v else 20"
  let ?o = "case Atoi (query_get r ''offset'') of (v, ok) \<Rightarrow> if ok \<and> 0 \<le> v then v else 0"
  obtain r1 w1 where 1: "st_List S (nat ?l) (nat ?o) (UserIDFromCtx r) w = (r1, w1)"
    by (rule that, rule surjective_pairing)
  note g = list [OF assms(1) 1]
  have l: "0 < ?l" "?l \<le> 100" by (simp_all split: prod.split)
  have res: "(res, w') = (case r1 of Inl err \<Rightarrow> (writeError wh r 500 ''internal error'', w1)
      | Inr list \<Rightarrow> (WriteJSON wh r 200 (JObj
                [(''data'', JArr (map (video_json (h_fmt h)) (presignThumbnails h list))),
                 (''limit'', JNum (Itoa ?l)), (''offset'', JNum (Itoa ?o))]), w1))"
    unfolding assms(3) [symmetric] handle_List_def Let_def assms(2) 1 by (simp split: sum.split)
  with assms(4) obtain vs where vs: "r1 = Inr vs" by (cases r1) simp_all
  with res have "RespBody res = Json (shouldPretty r) (JObj
      [(''data'', JArr (map (video_json (h_fmt h)) (presignThumbnails h vs))),
       (''limit'', JNum (Itoa ?l)), (''offset'', JNum (Itoa ?o))])" "w' = w1" by simp_all
  moreover have "int (length (presignThumbnails h vs)) \<le> ?l"
  proof -
    have "length vs \<le> nat ?l" using g vs by blast
    moreover have "int (nat ?l) = ?l" using l(1) by (intro nat_0_le) linarith
    ultimately show ?thesis unfolding presignThumbnails_def length_map by linarith
  qed
  moreover have "\<forall>v \<in> set (presignThumbnails h vs). (VVisibility v = VisibilityPublic \<and> VStatus v = StatusReady) \<or>
         (UserIDFromCtx r \<noteq> [] \<and> is_owner w (UserIDFromCtx r) v)"
  proof -
    have "is_owner w s (presignThumbnail h v) = is_owner w s v" for s v by (rule owner_id) simp
    then show ?thesis using g vs by (simp add: presignThumbnails_def)
  qed
  ultimately show ?thesis using g l by blast
qed

text \<open>An update that changes anything was made by the owner.\<close>

lemma Update_owner:
  assumes "ok w" "h_repo h = S" "handle_Update h r wh w = (res, w')"
  shows "ok w' \<and> (if Status res = 200
     then \<exists>v0 v. look w (UrlId r) = Some v0 \<and> is_owner w (UserIDFromCtx r) v0 \<and>
        OwnerID v = OwnerID v0 \<and> VStatus v = VStatus v0 \<and>
        look w' = video_set (look w) (ID v0) (Some v)
     else look w' = look w)"
proof (cases "decode_update (BodyJSON r)")
  case None
  then show ?thesis using assms by (auto simp: handle_Update_def)
next
  case (Some req)
  show ?thesis
  proof (cases "case u_Visibility req of Some s \<Rightarrow> \<not> Valid s | None \<Rightarrow> False")
    case True
    then show ?thesis using assms Some by (auto simp: handle_Update_def)
  next
    case False
    obtain r1 w1 where 1: "st_Update S (UrlId r) (UserIDFromCtx r) req w = (r1, w1)" by (metis prod.exhaust)
    note u = update [OF assms(1) 1]
    have res: "(res, w') = (case r1 of Inl err \<Rightarrow> (repo_error_response wh r err, w1)
        | Inr v \<Rightarrow> (WriteJSON wh r 200 (video_json (h_fmt h) (presignThumbnail h v)), w1))"
      using assms(2,3) False by (simp add: handle_Update_def Some 1 split: sum.splits)
    show ?thesis
    proof (cases r1)
      case (Inl e)
      then have "Status res \<noteq> 200" "w' = w1"
        using res by (auto simp: repo_error_response_def split: repo_error.splits)
      then show ?thesis using u Inl by simp
    next
      case (Inr v)
      then have s: "Status res = 200" "w' = w1" using res by simp_all
      from u Inr have "\<exists>v0 v. look w (UrlId r) = Some v0 \<and> is_owner w (UserIDFromCtx r) v0 \<and>
        OwnerID v = OwnerID v0 \<and> VStatus v = VStatus v0 \<and> look w1 = video_set (look w) (ID v0) (Some v)" by blast
      with s u show ?thesis by simp
    qed
  qed
qed

end

text \<open>
  A handler with object storage: \<open>objs w\<close> are the objects of the bucket. The store leaves the
  bucket alone and the storage the store.
\<close>

locale video_handler = video_store +
  fixes objs :: "'a \<Rightarrow> string list"
    and h :: "'a VideoHandler"
  assumes repo: "h_repo h = S"
    and get_objs: "st_GetByID S k w = (r1, w') \<Longrightarrow> objs w' = objs w"
    and delete_objs: "st_Delete S k owner w = (r2, w') \<Longrightarrow> objs w' = objs w"
    and clean_ok: "h_storage h = Some s \<Longrightarrow> ok w \<Longrightarrow> ok (clean_storage s keys k w)"
    and clean_look: "h_storage h = Some s \<Longrightarrow> look (clean_storage s keys k w) = look w"
begin

text \<open>A delete takes effect for the owner only, and otherwise neither a row nor an object goes.\<close>

lemma Delete_owner:
  assumes "ok w" "handle_Delete h r wh w = (res, w')"
  shows "ok w' \<and> (if Status res = 204
     then \<exists>v0. look w (UrlId r) = Some v0 \<and> is_owner w (UserIDFromCtx r) v0 \<and>
        look w' = video_set (look w) (ID v0) (None)
     else look w' = look w \<and> objs w' = objs w)"
proof -
  obtain keys w1 where 1: "(case h_storage h of None \<Rightarrow> ([], w)
             | Some s \<Rightarrow> (case st_GetByID S (UrlId r) w of
                 (Inl err, w) \<Rightarrow> ([], w)
               | (Inr v, w) \<Rightarrow> (delete_keys (UrlId r) v, w))) = (keys, w1)"
    by (rule that, rule surjective_pairing)
  obtain r0 w0 where 0: "st_GetByID S (UrlId r) w = (r0, w0)" by (metis prod.exhaust)
  have "w1 = w \<or> w1 = w0" using 1 by (auto simp: 0 split: option.splits sum.splits)
  then have w1: "ok w1" "look w1 = look w" "is_owner w1 = is_owner w" "objs w1 = objs w"
    using get [OF assms(1) 0] assms(1) get_objs [OF 0] by auto
  obtain r2 w2 where 2: "st_Delete S (UrlId r) (UserIDFromCtx r) w1 = (r2, w2)" by (metis prod.exhaust)
  note d = delete [OF w1(1) 2] delete_objs [OF 2]
  have res: "(res, w') = (case r2 of
        Inl err \<Rightarrow> ((case err of ErrForbidden \<Rightarrow> writeError wh r 403 ''forbidden''
               | ErrNotFound \<Rightarrow> writeError wh r 404 ''not found''
               | _ \<Rightarrow> writeError wh r 500 ''internal error''), w2)
      | Inr _ \<Rightarrow> (WriteHeader wh 204, case h_storage h of None \<Rightarrow> w2 | Some s \<Rightarrow> clean_storage s keys (UrlId r) w2))"
    unfolding assms(2) [symmetric] handle_Delete_def Let_def repo 1 prod.case 2 by (cases r2) simp_all
  show ?thesis
  proof (cases r2)
    case (Inl e)
    then have "Status res \<noteq> 204" "w' = w2" using res by (auto split: repo_error.splits)
    then show ?thesis using d w1 Inl by simp
  next
    case (Inr x)
    then have s: "Status res = 204" "w' = (case h_storage h of None \<Rightarrow> w2 | Some s \<Rightarrow> clean_storage s keys (UrlId r) w2)"
      using res by simp_all
    then have "ok w'" "look w' = look w2" using d clean_ok clean_look by (auto split: option.split)
    then show ?thesis using s d w1 Inr by auto
  qed
qed

end

subsection \<open>The repository keeps the contract\<close>

definition pgStore :: "'m pg_scheme VideoStore" where
  "pgStore =
     \<lparr>st_Create = repo_Create, st_GetByID = repo_GetByID, st_List = repo_List, st_Update = repo_Update,
      st_Delete = repo_Delete, st_UpdateStatus = repo_UpdateStatus,
      st_UpdateThumbnail = repo_UpdateThumbnail, st_ListStaleUploaded = repo_ListStaleUploaded\<rparr>"

lemma pgStore_simps [simp]:
  "st_Create pgStore = repo_Create" "st_GetByID pgStore = repo_GetByID" "st_List pgStore = repo_List"
  "st_Update pgStore = repo_Update" "st_Delete pgStore = repo_Delete" "st_UpdateStatus pgStore = repo_UpdateStatus"
  "st_UpdateThumbnail pgStore = repo_UpdateThumbnail" "st_ListStaleUploaded pgStore = repo_ListStaleUploaded"
  by (simp_all add: pgStore_def)

lemma look_row: "pg_look db k = Some x \<longleftrightarrow>
    (\<exists>u row. pg_uuid_in db k = Some u \<and> row_of db u = Some row \<and> x = video_of (email_of db (v_owner row)) row)"
  by (auto simp: pg_look_def split: option.splits)

lemma look_id: "(\<exists>y. pg_look db j = Some y \<and> ID y = i) \<longleftrightarrow> pg_uuid_in db j = Some i \<and> row_of db i \<noteq> None"
  using row_of_id [of db] by (auto simp: look_row)

interpretation pgs: video_store pgStore pg_ok pg_look pg_owner
proof unfold_locales
  show "OwnerID v = OwnerID v' \<Longrightarrow> pg_owner w s v = pg_owner w s v'" for w :: "'m pg_scheme" and s v v'
    by (simp add: pg_owner_def)
  fix w w' :: "'m pg_scheme" and k owner viewer :: string and l off req
  assume ok: "pg_ok w"
  show "st_GetByID pgStore k w = (r, w') \<Longrightarrow> pg_ok w' \<and> pg_look w' = pg_look w \<and> pg_owner w' = pg_owner w \<and>
      (\<forall>v. r = Inr v \<longrightarrow> (\<exists>v0 rs. pg_look w k = Some v0 \<and> v = v0\<lparr>Renditions := rs\<rparr>))" for r
    using repo_GetByID_spec [of k w r w'] ok by auto
  show "st_List pgStore l off viewer w = (r, w') \<Longrightarrow> pg_ok w' \<and> pg_look w' = pg_look w \<and>
      (\<forall>vs. r = Inr vs \<longrightarrow> length vs \<le> l \<and> (\<forall>v \<in> set vs.
         (VVisibility v = VisibilityPublic \<and> VStatus v = StatusReady) \<or> (viewer \<noteq> [] \<and> pg_owner w viewer v)))" for r
    using repo_List_spec [of l off viewer w r w'] ok by (auto simp: pg_owner_def)
  show "st_Update pgStore k owner req w = (r, w') \<Longrightarrow> pg_ok w' \<and> (\<forall>e. r = Inl e \<longrightarrow> pg_look w' = pg_look w) \<and>
      (\<forall>v. r = Inr v \<longrightarrow> (\<exists>v0. pg_look w k = Some v0 \<and> pg_owner w owner v0 \<and>
         OwnerID v = OwnerID v0 \<and> VStatus v = VStatus v0 \<and>
         pg_look w' = video_set (pg_look w) (ID v0) (Some v)))" for r
  proof -
    assume run: "st_Update pgStore k owner req w = (r, w')"
    note sp = repo_Update_spec [OF ok run [simplified]]
    show ?thesis
    proof (cases r)
      case (Inl e)
      then show ?thesis using sp(1) sp(2) [OF Inl] by simp
    next
      case (Inr v)
      from sp(3) [OF Inr] obtain u row where u: "pg_uuid_in w k = Some u" "row_of w u = Some row"
          "pg_uuid_in w owner = Some (v_owner row)"
        and v: "v = video_of (email_of w (v_owner row)) ((set_fields req row)\<lparr>v_updated := pg_now w\<rparr>)"
        and rows: "\<And>j. row_of w' j = (if j = u then Some ((set_fields req row)\<lparr>v_updated := pg_now w\<rparr>) else row_of w j)"
        and fr: "email_of w' = email_of w" "pg_uuid_in w' = pg_uuid_in w" by blast
      let ?v0 = "video_of (email_of w (v_owner row)) row"
      have "pg_look w' = video_set (pg_look w) (ID ?v0) (Some v)"
        unfolding video_set_def look_id using row_of_id [OF u(2)] u(2)
        by (auto simp: fun_eq_iff pg_look_def fr rows v split: option.split)
      moreover have "pg_look w k = Some ?v0" "pg_owner w owner ?v0" "OwnerID v = OwnerID ?v0" "VStatus v = VStatus ?v0"
        using u by (simp_all add: look_row pg_owner_def v)
      ultimately show ?thesis using sp(1) Inr by blast
    qed
  qed
  show "st_Delete pgStore k owner w = (r, w') \<Longrightarrow> pg_ok w' \<and> (\<forall>e. r = Inl e \<longrightarrow> pg_look w' = pg_look w) \<and>
      (\<forall>x. r = Inr x \<longrightarrow> (\<exists>v0. pg_look w k = Some v0 \<and> pg_owner w owner v0 \<and>
         pg_look w' = video_set (pg_look w) (ID v0) (None)))" for r
  proof -
    assume run: "st_Delete pgStore k owner w = (r, w')"
    note sp = repo_Delete_spec [OF ok run [simplified]]
    show ?thesis
    proof (cases r)
      case (Inl e)
      then show ?thesis using sp(1) sp(2) [OF Inl] by simp
    next
      case (Inr v)
      from sp(3) [OF Inr] obtain u row where u: "pg_uuid_in w k = Some u" "row_of w u = Some row" "v_owner row = owner"
        and rows: "\<And>j. row_of w' j = (if j = u then None else row_of w j)"
        and fr: "email_of w' = email_of w" "pg_uuid_in w' = pg_uuid_in w" by blast
      let ?v0 = "video_of (email_of w (v_owner row)) row"
      have "pg_look w' = video_set (pg_look w) (ID ?v0) None"
        unfolding video_set_def look_id using row_of_id [OF u(2)] u(2)
        by (auto simp: fun_eq_iff pg_look_def fr rows split: option.split)
      moreover have "pg_look w k = Some ?v0" using u by (simp add: look_row)
      moreover have "pg_owner w owner ?v0" using ok u row_of_id [OF u(2)] by (auto simp: pg_owner_def pg_ok_def)
      ultimately show ?thesis using sp(1) Inr by blast
    qed
  qed
qed

text \<open>The storage of \<open>Md_Storage\<close> as the handlers see it, and the two constructors.\<close>

definition minio_storage :: "MinioClient \<Rightarrow> 'm md_world_scheme StorageRemover" where
  "minio_storage m =
     \<lparr>sr_RemoveObjects = RemoveObjects, sr_RemovePrefix = RemovePrefix,
      sr_presigner = Some (PresignGetInternal m, PresignGetPublic m)\<rparr>"

definition NewVideoHandler :: "'w VideoStore \<Rightarrow> (int \<Rightarrow> string) \<Rightarrow> 'w VideoHandler" where
  "NewVideoHandler repo fmt = \<lparr>h_repo = repo, h_storage = None, h_fmt = fmt\<rparr>"

definition NewVideoHandlerWithStorage ::
  "'w VideoStore \<Rightarrow> 'w StorageRemover \<Rightarrow> (int \<Rightarrow> string) \<Rightarrow> 'w VideoHandler" where
  "NewVideoHandlerWithStorage repo s fmt = \<lparr>h_repo = repo, h_storage = Some s, h_fmt = fmt\<rparr>"

text \<open>The store does not see the bucket, nor the storage the tables.\<close>

lemma more_run_sql:
  assumes "run_sql stmt db = (r, db')" "\<And>d r d'. stmt d = (r, d') \<Longrightarrow> pg.more d' = pg.more d"
  shows "pg.more db' = pg.more db"
  using assms(1)
proof (cases rule: run_sql_cases)
  case finished
  from assms(2) [OF this] show ?thesis by simp
qed simp

lemma more_GetByID: "repo_GetByID k db = (r, db') \<Longrightarrow> pg.more db' = pg.more db"
  using repo_GetByID_spec(1) [of k db r db'] by auto

lemma more_Delete:
  assumes "repo_Delete k owner db = (r, db')"
  shows "pg.more db' = pg.more db"
proof -
  obtain r1 db1 where 1: "repo_GetByID k db = (r1, db1)" by (rule that, rule surjective_pairing)
  have "db' = db1 \<or> run_sql (sql_delete k) db1 = (r, db')"
    using assms by (auto simp: repo_Delete_def 1 split: sum.splits if_splits)
  moreover have "run_sql (sql_delete k) db1 = (r, db') \<Longrightarrow> pg.more db' = pg.more db1"
    by (erule more_run_sql) (auto simp: sql_delete_def with_uuid_def split: option.splits)
  ultimately show ?thesis using more_GetByID [OF 1] by auto
qed

lemma more_bucket: "pg.more w' = pg.more w \<Longrightarrow> bk_objects w' = bk_objects w"
  for w w' :: "'m md_world_scheme"
  by (cases w; cases w') simp

lemma truncate_same:
  assumes "pg.truncate w' = pg.truncate w"
  shows "pg_ok w' = pg_ok w" "pg_look w' = pg_look w" "pg_owner w' = pg_owner w"
proof -
  have f: "pg_users w' = pg_users w" "pg_videos w' = pg_videos w" "pg_rends w' = pg_rends w"
    "pg_uuid_in w' = pg_uuid_in w"
    using assms by (simp_all add: pg.truncate_def)
  then have e: "email_of w' = email_of w" "row_of w' = row_of w"
    by (simp_all add: fun_eq_iff email_of_def row_of_def)
  show "pg_ok w' = pg_ok w" unfolding pg_ok_def f e ..
  show "pg_look w' = pg_look w" by (rule ext) (simp only: pg_look_def f e)
  show "pg_owner w' = pg_owner w" by (intro ext) (simp only: pg_owner_def f)
qed

lemma clean_storage_frame: "pg.truncate (clean_storage (minio_storage m) keys k w) = pg.truncate w"
  by (simp add: clean_storage_def minio_storage_def RemovePrefix_frame RemoveObjects_frame Let_def)

interpretation pgh: video_handler pgStore pg_ok pg_look pg_owner bk_objects
  "NewVideoHandlerWithStorage pgStore (minio_storage m) fmt" for m fmt
proof unfold_locales
  fix w w' :: "'m md_world_scheme" and k owner :: string and r1 r2 s keys
  show "h_repo (NewVideoHandlerWithStorage pgStore (minio_storage m) fmt) = pgStore"
    by (simp add: NewVideoHandlerWithStorage_def)
  show "st_GetByID pgStore k w = (r1, w') \<Longrightarrow> bk_objects w' = bk_objects w"
    unfolding pgStore_simps by (rule more_bucket) (rule more_GetByID)
  show "st_Delete pgStore k owner w = (r2, w') \<Longrightarrow> bk_objects w' = bk_objects w"
    unfolding pgStore_simps by (rule more_bucket) (rule more_Delete)
  show "h_storage (NewVideoHandlerWithStorage pgStore (minio_storage m) fmt) = Some s \<Longrightarrow> pg_ok w \<Longrightarrow>
      pg_ok (clean_storage s keys k w)"
    using truncate_same(1) [OF clean_storage_frame [of m keys k w]] by (auto simp: NewVideoHandlerWithStorage_def)
  show "h_storage (NewVideoHandlerWithStorage pgStore (minio_storage m) fmt) = Some s \<Longrightarrow>
      pg_look (clean_storage s keys k w) = pg_look w"
    using truncate_same(2) [OF clean_storage_frame [of m keys k w]] by (auto simp: NewVideoHandlerWithStorage_def)
qed

subsection \<open>A sample world\<close>

definition sample_md :: md_world where
  "sample_md = pg.extend sample_pg
     \<lparr>bk_objects = [''raw/v1/original.mp4'', ''raw/v9/a''],
      bk_rm_err = (\<lambda>_. None), bk_list_err = (\<lambda>_. None), bk_log = []\<rparr>"

definition sample_handler :: "md_world VideoHandler" where
  "sample_handler = NewVideoHandlerWithStorage pgStore
     (minio_storage \<lparr>m_client = (\<lambda>b k e. Inr (''http://minio/'' @ k @ ''?sig'')), m_presign = None, m_bucket = ''videos''\<rparr>)
     (\<lambda>t. Itoa t)"

lemma sample_md_ok: "pg_ok sample_md"
  using sample_pg_ok
  by (simp add: sample_md_def sample_pg_def pg.extend_def pg_ok_def email_of_def)

text \<open>A JWT library that knows one access token of \<open>ann\<close> and one of \<open>bob\<close>.\<close>

definition md_jwt :: jwt where
  "md_jwt =
     \<lparr>jwt_parse = (\<lambda>now secret tok.
         if tok = ''t-ann'' then Some [''sub'' \<mapsto> JStr ''ann'', ''type'' \<mapsto> JStr ''access'']
         else if tok = ''t-bob'' then Some [''sub'' \<mapsto> JStr ''bob'', ''type'' \<mapsto> JStr ''access''] else None),
      jwt_sign = (\<lambda>secret cl. Inl (Err ''no key''))\<rparr>"

definition as_user :: "string \<Rightarrow> string \<Rightarrow> request" where
  "as_user tok vid = blank_request\<lparr>UrlId := vid, ReqHeader := hset no_header ''Authorization'' (''Bearer '' @ tok)\<rparr>"

subsection \<open>Properties\<close>

text \<open>C5: the delete route of the metadata service, its JWT middleware included: whatever the
  request, if any video is gone afterwards then the caller proved an identity by an access
  token and that identity owns the video in the path, the answer is 204 and exactly this video
  is gone; with any other answer neither a row nor an object of the bucket is gone.\<close>

theorem delete_route_owner_only:
  fixes w :: "'m md_world_scheme"
  assumes "pg_ok w"
    and "AuthMiddleware J now secret (handle_Delete (NewVideoHandlerWithStorage pgStore (minio_storage m) fmt)) r wh w
      = (res, w')"
  shows "pg_ok w' \<and> (if Status res = 204
     then \<exists>sub v0. access_identity J now secret (ReqHeader r) = Some sub \<and>
        pg_look w (UrlId r) = Some v0 \<and> pg_uuid_in w sub = Some (OwnerID v0) \<and>
        pg_look w' = video_set (pg_look w) (ID v0) None
     else pg_look w' = pg_look w \<and> bk_objects w' = bk_objects w)"
proof (cases "access_identity J now secret (ReqHeader r)")
  case None
  from AuthMiddleware_None [OF this, of "handle_Delete (NewVideoHandlerWithStorage pgStore (minio_storage m) fmt)" wh w]
  show ?thesis using assms by auto
next
  case (Some sub)
  have "handle_Delete (NewVideoHandlerWithStorage pgStore (minio_storage m) fmt) (with_identity sub r) wh w = (res, w')"
    using assms(2) unfolding AuthMiddleware_Some [OF Some] .
  note d = pgh.Delete_owner [OF assms(1) this]
  have "UserIDFromCtx (with_identity sub r) = sub" "UrlId (with_identity sub r) = UrlId r"
    by (simp_all add: with_identity_def UserIDFromCtx_def)
  with d show ?thesis using Some by (auto simp: pg_owner_def split: if_splits)
qed

lemma delete_route_owner_only_witness:
  "\<exists>res w'. AuthMiddleware md_jwt 0 ''k'' (handle_Delete sample_handler) (as_user ''t-bob'' ''v1'') no_header sample_md
      = (res, w') \<and> Status res = 403 \<and> pg_look w' = pg_look sample_md \<and> bk_objects w' = bk_objects sample_md"
proof -
  let ?run = "AuthMiddleware md_jwt 0 ''k'' (handle_Delete sample_handler) (as_user ''t-bob'' ''v1'') no_header sample_md"
  have s: "Status (fst ?run) = 403" by code_simp
  have run: "?run = (fst ?run, snd ?run)" by simp
  from delete_route_owner_only [OF sample_md_ok run [unfolded sample_handler_def]] s run show ?thesis
    by (intro exI [of _ "fst ?run"] exI [of _ "snd ?run"]) (simp add: sample_handler_def)
qed

text \<open>The update route likewise: if anything about the videos changes, the caller proved by an
  access token that it owns the video in the path; the owner and the status of the video stay,
  and no other video changes.\<close>

lemma update_route_owner_only:
  fixes w :: "'m md_world_scheme"
  assumes "pg_ok w"
    and "AuthMiddleware J now secret (handle_Update (NewVideoHandlerWithStorage pgStore (minio_storage m) fmt)) r wh w
      = (res, w')"
  shows "pg_ok w' \<and> (if Status res = 200
     then \<exists>sub v0 v. access_identity J now secret (ReqHeader r) = Some sub \<and>
        pg_look w (UrlId r) = Some v0 \<and> pg_uuid_in w sub = Some (OwnerID v0) \<and>
        OwnerID v = OwnerID v0 \<and> VStatus v = VStatus v0 \<and>
        pg_look w' = video_set (pg_look w) (ID v0) (Some v)
     else pg_look w' = pg_look w)"
proof (cases "access_identity J now secret (ReqHeader r)")
  case None
  from AuthMiddleware_None [OF this, of "handle_Update (NewVideoHandlerWithStorage pgStore (minio_storage m) fmt)" wh w]
  show ?thesis using assms by auto
next
  case (Some sub)
  have run: "handle_Update (NewVideoHandlerWithStorage pgStore (minio_storage m) fmt) (with_identity sub r) wh w = (res, w')"
    using assms(2) unfolding AuthMiddleware_Some [OF Some] .
  have "h_repo (NewVideoHandlerWithStorage pgStore (minio_storage m) fmt) = pgStore"
    by (simp add: NewVideoHandlerWithStorage_def)
  note d = pgs.Update_owner [OF assms(1) this run]
  have "UserIDFromCtx (with_identity sub r) = sub" "UrlId (with_identity sub r) = UrlId r"
    by (simp_all add: with_identity_def UserIDFromCtx_def)
  with d show ?thesis using Some by (auto simp: pg_owner_def split: if_splits)
qed

lemma update_route_owner_only_witness:
  "\<exists>res w'. AuthMiddleware md_jwt 0 ''k'' (handle_Update sample_handler)
      ((as_user ''t-bob'' ''v1'')\<lparr>BodyJSON := Some (JObj [(''visibility'', JStr ''public'')])\<rparr>) no_header sample_md
      = (res, w') \<and> Status res = 403 \<and> pg_look w' = pg_look sample_md"
proof -
  let ?run = "AuthMiddleware md_jwt 0 ''k'' (handle_Update sample_handler)
      ((as_user ''t-bob'' ''v1'')\<lparr>BodyJSON := Some (JObj [(''visibility'', JStr ''public'')])\<rparr>) no_header sample_md"
  have s: "Status (fst ?run) = 403" by code_simp
  have run: "?run = (fst ?run, snd ?run)" by simp
  from update_route_owner_only [OF sample_md_ok run [unfolded sample_handler_def]] s run show ?thesis
    by (intro exI [of _ "fst ?run"] exI [of _ "snd ?run"]) (simp add: sample_handler_def)
qed

text \<open>C17: the public read route: a private video is answered with 200 only to a request whose access
  token proves the owner's identity, and reading changes nothing.\<close>

theorem get_route_private:
  fixes w :: "'m md_world_scheme"
  assumes "pg_ok w" "CtxUser r = None" "pg_look w (UrlId r) = Some v0" "VVisibility v0 = VisibilityPrivate"
    and "OptionalAuth J now secret (handle_Get (NewVideoHandlerWithStorage pgStore (minio_storage m) fmt)) r wh w
      = (res, w')"
  shows "pg_look w' = pg_look w \<and>
    (Status res = 200 \<longrightarrow> access_identity J now secret (ReqHeader r) = Some (OwnerID v0))"
proof -
  have repo: "h_repo (NewVideoHandlerWithStorage pgStore (minio_storage m) fmt) = pgStore"
    by (simp add: NewVideoHandlerWithStorage_def)
  have ne: "OwnerID v0 \<noteq> []"
    using assms(1,3) by (auto simp: look_row pg_ok_def dest!: row_of_id)
  show ?thesis
  proof (cases "access_identity J now secret (ReqHeader r)")
    case None
    let ?r = "r\<lparr>ReqHeader := hdel (ReqHeader r) ''X-User-ID''\<rparr>"
    have run: "handle_Get (NewVideoHandlerWithStorage pgStore (minio_storage m) fmt) ?r wh w = (res, w')"
      using assms(5) unfolding OptionalAuth_None [OF None] .
    have "UserIDFromCtx ?r = []" "UrlId ?r = UrlId r" using assms(2) by (simp_all add: UserIDFromCtx_def)
    with pgs.Get_private [OF assms(1) repo run] assms(3,4) ne show ?thesis by auto
  next
    case (Some sub)
    have run: "handle_Get (NewVideoHandlerWithStorage pgStore (minio_storage m) fmt) (with_identity sub r) wh w = (res, w')"
      using assms(5) unfolding OptionalAuth_Some [OF Some] .
    have "UserIDFromCtx (with_identity sub r) = sub" "UrlId (with_identity sub r) = UrlId r"
      by (simp_all add: with_identity_def UserIDFromCtx_def)
    with pgs.Get_private [OF assms(1) repo run] assms(3,4) Some show ?thesis by auto
  qed
qed

lemma get_route_private_witness:
  "\<exists>res w'. OptionalAuth md_jwt 0 ''k'' (handle_Get sample_handler) (as_user ''t-ann'' ''v1'') no_header sample_md = (res, w') \<and>
     Status res = 200 \<and> access_identity md_jwt 0 ''k'' (ReqHeader (as_user ''t-ann'' ''v1'')) = Some ''ann''"
proof -
  let ?run = "OptionalAuth md_jwt 0 ''k'' (handle_Get sample_handler) (as_user ''t-ann'' ''v1'') no_header sample_md"
  have s: "Status (fst ?run) = 200" by code_simp
  have run: "?run = (fst ?run, snd ?run)" by simp
  have c: "CtxUser (as_user ''t-ann'' ''v1'') = None" by code_simp
  have l: "pg_look sample_md (UrlId (as_user ''t-ann'' ''v1''))
      = Some (video_of (Some ''a@x'') (sample_row ''v1'' StatusReady VisibilityPrivate))" by code_simp
  have p: "VVisibility (video_of (Some ''a@x'') (sample_row ''v1'' StatusReady VisibilityPrivate)) = VisibilityPrivate"
    "OwnerID (video_of (Some ''a@x'') (sample_row ''v1'' StatusReady VisibilityPrivate)) = ''ann''" by code_simp+
  from get_route_private [OF sample_md_ok c l p(1) run [unfolded sample_handler_def]] s run p(2) show ?thesis
    by (intro exI [of _ "fst ?run"] exI [of _ "snd ?run"]) (simp add: sample_handler_def)
qed

text \<open>C16: the list route: whatever \<open>limit\<close> and \<open>offset\<close> say, the answer has at most \<open>limit\<close>, and at
  most 100, videos; each is public and ready or belongs to the identity that the request proved,
  so an anonymous list shows public ready videos only.\<close>

theorem list_route_visible:
  fixes w :: "'m md_world_scheme"
  assumes "pg_ok w" "CtxUser r = None" "Status res = 200"
    and "OptionalAuth J now secret (handle_List (NewVideoHandlerWithStorage pgStore (minio_storage m) fmt)) r wh w
      = (res, w')"
  shows "\<exists>vs l off. RespBody res = Json (shouldPretty r)
      (JObj [(''data'', JArr (map (video_json fmt) vs)), (''limit'', JNum (Itoa l)), (''offset'', JNum (Itoa off))]) \<and>
      int (length vs) \<le> l \<and> l \<le> 100 \<and>
      (\<forall>v \<in> set vs. (VVisibility v = VisibilityPublic \<and> VStatus v = StatusReady) \<or>
         (\<exists>sub. access_identity J now secret (ReqHeader r) = Some sub \<and> pg_uuid_in w sub = Some (OwnerID v)))"
proof -
  let ?h = "NewVideoHandlerWithStorage pgStore (minio_storage m) fmt :: 'm md_world_scheme VideoHandler"
  have repo: "h_repo ?h = pgStore" "h_fmt ?h = fmt" by (simp_all add: NewVideoHandlerWithStorage_def)
  show ?thesis
  proof (cases "access_identity J now secret (ReqHeader r)")
    case None
    let ?r = "r\<lparr>ReqHeader := hdel (ReqHeader r) ''X-User-ID''\<rparr>"
    have run: "handle_List ?h ?r wh w = (res, w')"
      using assms(4) unfolding OptionalAuth_None [OF None] .
    have "UserIDFromCtx ?r = []" "shouldPretty ?r = shouldPretty r"
      using assms(2) by (simp_all add: UserIDFromCtx_def shouldPretty_def query_get_def)
    with pgs.List_visible [OF assms(1) repo(1) run assms(3), unfolded repo(2)]
    show ?thesis by (simp only:) blast
  next
    case (Some sub)
    have run: "handle_List ?h (with_identity sub r) wh w = (res, w')"
      using assms(4) unfolding OptionalAuth_Some [OF Some] .
    have "UserIDFromCtx (with_identity sub r) = sub" "shouldPretty (with_identity sub r) = shouldPretty r"
      by (simp_all add: with_identity_def UserIDFromCtx_def shouldPretty_def query_get_def)
    with pgs.List_visible [OF assms(1) repo(1) run assms(3), unfolded repo(2) pg_owner_def] Some
    show ?thesis by (simp only:) blast
  qed
qed

lemma list_route_visible_witness:
  "\<exists>vs l off. RespBody (fst (OptionalAuth md_jwt 0 ''k'' (handle_List sample_handler) (as_user ''t-bob'' []) no_header sample_md))
      = Json (shouldPretty (as_user ''t-bob'' [])) (JObj [(''data'', JArr (map (video_json (\<lambda>t. Itoa t)) vs)),
          (''limit'', JNum (Itoa l)), (''offset'', JNum (Itoa off))]) \<and>
      int (length vs) \<le> l \<and> l \<le> 100 \<and>
      (\<forall>v \<in> set vs. (VVisibility v = VisibilityPublic \<and> VStatus v = StatusReady) \<or>
         (\<exists>sub. access_identity md_jwt 0 ''k'' (ReqHeader (as_user ''t-bob'' [])) = Some sub \<and>
            pg_uuid_in sample_md sub = Some (OwnerID v)))"
proof -
  let ?run = "OptionalAuth md_jwt 0 ''k'' (handle_List sample_handler) (as_user ''t-bob'' []) no_header sample_md"
  have s: "Status (fst ?run) = 200" by code_simp
  have run: "?run = (fst ?run, snd ?run)" by simp
  have c: "CtxUser (as_user ''t-bob'' []) = None" by code_simp
  show ?thesis unfolding sample_handler_def
    by (rule list_route_visible [OF sample_md_ok c s [unfolded sample_handler_def] run [unfolded sample_handler_def]])
qed

text \<open>Deleting by another spelling of the id leaves the objects behind: the database reads
  \<open>V1\<close> and \<open>v1\<close> as one UUID and deletes the row, but the object keys are built from the text in
  the path, so with \<open>V1\<close> the raw file under \<open>v1\<close> stays in the bucket.\<close>

lemma delete_spelling_orphans:
  "(let w' = snd (handle_Delete sample_handler (blank_request\<lparr>CtxUser := Some ''ann'', UrlId := ''v1''\<rparr>) no_header sample_md)
    in pg_videos w' = [] \<and> bk_objects w' = [''raw/v9/a'']) \<and>
   (let w' = snd (handle_Delete sample_handler (blank_request\<lparr>CtxUser := Some ''ann'', UrlId := ''V1''\<rparr>) no_header sample_md)
    in pg_videos w' = [] \<and>
       bk_objects w' = [''raw/v1/original.mp4'', ''raw/v9/a''])"
  by code_simp

end
