(* ===== verification/Gw_Main.thy ===== *)
theory Gw_Main
  imports Md_Main Gw_RateLimit Gw_Proxy Gw_HlsAuth Gw_Docs
begin

text \<open>
  \<open>services/gateway/cmd/server/main.go\<close>: the gateway put together. The settings, the chain of
  middlewares, the route table with the middlewares and the proxy of every route. Main results,
  for every request and every answer of the libraries: an upstream that serves videos sees no
  identity but the proven one; no internal path of a service can be reached; the log of the
  gateway, the log of the service and the client's response agree on the id of the request.
\<close>

subsection \<open>The settings\<close>

text \<open>The Redis client is nil when no URL is set.\<close>

record 's routerConfig =
  jwtSecret :: string
  internalToken :: string
  uploadMaxBytes :: int
  authURL :: string
  metadataURL :: string
  uploadURL :: string
  vodURL :: string
  corsOrigins :: "string list"
  trusted :: "ipnet list"
  rdb :: "'s redis option"

definition parseCommaList :: "string \<Rightarrow> string list" where
  "parseCommaList s = filter (\<lambda>p. p \<noteq> []) (map TrimSpace (Split CHR '','' s))"

definition upload_max_setting :: "(string \<Rightarrow> string) \<Rightarrow> int" where
  "upload_max_setting getenv =
     (let v = envOr getenv ''UPLOAD_MAX_BYTES'' [] in
      if v \<noteq> [] then (case ParseInt v of (n, ok) \<Rightarrow> if ok \<and> 0 < n then n else 5368709120) else 5368709120)"

text \<open>\<open>redis_connect\<close> is \<open>redis.ParseURL\<close> with \<open>NewClient\<close>. \<open>Inl\<close> is the fatal message.\<close>

definition gw_config :: "(string \<Rightarrow> go_error + 's redis) \<Rightarrow> (string \<Rightarrow> string) \<Rightarrow> go_error + 's routerConfig" where
  "gw_config redis_connect getenv =
     (case requireEnv getenv ''JWT_SECRET'' of Inl err \<Rightarrow> Inl err
      | Inr secret \<Rightarrow>
     (case requireEnv getenv ''INTERNAL_TOKEN'' of Inl err \<Rightarrow> Inl err
      | Inr token \<Rightarrow>
     (let auth = envOr getenv ''AUTH_URL'' ''http://auth:8001'' in
      case ParseTrustedCIDRS (envOr getenv ''TRUSTED_PROXY_CIDRS'' []) of
        Inl err \<Rightarrow> Inl (wrapf ''invalid trusted proxy CIDR list'' err)
      | Inr nets \<Rightarrow>
     (case (if getenv ''REDIS_URL'' \<noteq> [] then map_sum id Some (redis_connect (getenv ''REDIS_URL'')) else Inr None) of
        Inl err \<Rightarrow> Inl (wrapf ''invalid redis url'' err)
      | Inr R \<Rightarrow>
        Inr \<lparr>jwtSecret = secret, internalToken = token, uploadMaxBytes = upload_max_setting getenv,
             authURL = (if auth = ''http://auth:8000'' then ''http://auth:8001'' else auth),
             metadataURL = envOr getenv ''METADATA_URL'' ''http://metadata:8002'',
             uploadURL = envOr getenv ''UPLOAD_URL'' ''http://upload:8003'',
             vodURL = envOr getenv ''VOD_URL'' ''http://nginx-vod:80'',
             corsOrigins = parseCommaList (getenv ''CORS_ALLOWED_ORIGINS''), trusted = nets, rdb = R\<rparr>))))"

subsection \<open>The routes\<close>

text \<open>
  The libraries: the router, chi's request id, the counters and the page that shows them, the
  HTTP clients of the HLS gate and of the documentation, the round trip of the proxies, the log.
\<close>

record 'w gw_libs =
  gl_chi :: "'w chi"
  gl_reqID :: "request \<Rightarrow> string"
  gl_metrics :: "'w handler"
  gl_inc :: "'w \<Rightarrow> 'w"
  gl_client :: meta_client
  gl_Get :: "string \<Rightarrow> 'w \<Rightarrow> (go_error + docs_response) \<times> 'w"
  gl_rt :: "'w transport"
  gl_emit :: "log_line \<Rightarrow> 'w \<Rightarrow> 'w"
  gl_parse :: "string \<Rightarrow> (go_error + target_url)"

text \<open>\<open>maxBytesMw\<close>: what is read of the body ends with an error after \<open>limit\<close> bytes.\<close>

definition maxBytesMw :: "int \<Rightarrow> 'w handler \<Rightarrow> 'w handler" where
  "maxBytesMw limit next r wh w =
     next (r\<lparr>BodyText := take (nat limit) (BodyText r),
             BodyErr := (if limit < int (length (BodyText r)) then Some (MaxBytesError limit) else BodyErr r),
             FormOf := (\<lambda>n. FormOf r (min n limit))\<rparr>) wh w"

definition healthHandler :: "'w handler" where
  "healthHandler = status_handler 200 [(''service'', ''gateway''), (''status'', ''ok'')]"

definition gw_own_routes :: "'w handler \<Rightarrow> 'w DocsHandler \<Rightarrow> 'w route list" where
  "gw_own_routes metrics docsH =
     [(''GET'', ''/health'', healthHandler), (''GET'', ''/healthz'', healthHandler), (''GET'', ''/metrics'', metrics),
      (''GET'', ''/'', status_handler 200 [(''service'', ''gateway''), (''status'', ''ok'')]),
      (''GET'', ''/docs'', HandleDocsUI), (''GET'', ''/docs/'', HandleDocsUI),
      (''GET'', ''/openapi.json'', HandleMerged docsH), (''GET'', ''/openapi/auth.json'', HandleAuthSpec docsH),
      (''GET'', ''/openapi/metadata.json'', HandleMetadataSpec docsH),
      (''GET'', ''/openapi/upload.json'', HandleUploadSpec docsH)]"

definition gw_auth_routes :: "'w handler \<Rightarrow> 'w route list" where
  "gw_auth_routes authProxy = [(''*'', ''/api/v1/auth'', authProxy), (''*'', ''/api/v1/auth/*'', authProxy)]"

definition gw_upload_routes :: "int \<Rightarrow> 'w handler \<Rightarrow> 'w route list" where
  "gw_upload_routes limit uploadProxy =
     [(''POST'', ''/api/v1/videos/upload'', maxBytesMw limit uploadProxy),
      (''POST'', ''/api/v1/videos/upload/*'', maxBytesMw limit uploadProxy),
      (''POST'', ''/api/v1/videos/presign'', uploadProxy),
      (''POST'', ''/api/v1/videos/complete'', uploadProxy),
      (''POST'', ''/api/v1/videos/{id}/complete'', uploadProxy),
      (''GET'', ''/api/v1/videos/{id}/resumable'', uploadProxy),
      (''PUT'', ''/api/v1/videos/{id}/resumable'', maxBytesMw limit uploadProxy),
      (''POST'', ''/api/v1/videos/multipart'', uploadProxy),
      (''GET'', ''/api/v1/videos/{id}/multipart'', uploadProxy),
      (''POST'', ''/api/v1/videos/{id}/multipart/presign-part'', uploadProxy),
      (''POST'', ''/api/v1/videos/{id}/multipart/complete'', uploadProxy)]"

definition gw_read_routes :: "'w handler \<Rightarrow> 'w route list" where
  "gw_read_routes metadataProxy =
     [(''GET'', ''/api/v1/videos'', metadataProxy), (''GET'', ''/api/v1/videos/*'', metadataProxy)]"

definition gw_write_routes :: "'w handler \<Rightarrow> 'w route list" where
  "gw_write_routes metadataProxy =
     [(''POST'', ''/api/v1/videos'', metadataProxy), (''POST'', ''/api/v1/videos/'', metadataProxy),
      (''PATCH'', ''/api/v1/videos/*'', metadataProxy), (''DELETE'', ''/api/v1/videos/*'', metadataProxy),
      (''PUT'', ''/api/v1/videos/*'', metadataProxy)]"

text \<open>The targets of the four proxies, each a URL that parses or a fatal error.\<close>

record gw_targets =
  t_auth :: target_url
  t_metadata :: target_url
  t_upload :: target_url
  t_vod :: target_url

definition gw_parse_targets :: "(string \<Rightarrow> go_error + target_url) \<Rightarrow> 's routerConfig \<Rightarrow> go_error + gw_targets" where
  "gw_parse_targets mustParseURL cfg =
     (case mustParseURL (authURL cfg) of Inl err \<Rightarrow> Inl err
      | Inr a \<Rightarrow>
     (case mustParseURL (metadataURL cfg) of Inl err \<Rightarrow> Inl err
      | Inr m \<Rightarrow>
     (case mustParseURL (uploadURL cfg) of Inl err \<Rightarrow> Inl err
      | Inr u \<Rightarrow>
     (case mustParseURL (vodURL cfg) of Inl err \<Rightarrow> Inl err
      | Inr v \<Rightarrow> Inr \<lparr>t_auth = a, t_metadata = m, t_upload = u, t_vod = v\<rparr>))))"

text \<open>\<open>now\<close> is the time of the request in nanoseconds, \<open>now2\<close> that after a metadata lookup.\<close>

definition gw_routes ::
  "('s, 'm) gw_world_scheme gw_libs \<Rightarrow> jwt \<Rightarrow> int \<Rightarrow> int \<Rightarrow> 's routerConfig \<Rightarrow> gw_targets \<Rightarrow>
   ('s, 'm) gw_world_scheme route list" where
  "gw_routes L J now now2 cfg T =
     (let authProxy = ServeProxy (Director (t_auth T)) (gl_rt L);
          metadataProxy = ServeProxy (InternalDirector (internalToken cfg) (Director (t_metadata T))) (gl_rt L);
          uploadProxy = ServeProxy (Director (t_upload T)) (gl_rt L);
          vodProxy = ServeProxy (InternalDirector (internalToken cfg) (Director (t_vod T))) (gl_rt L);
          docsH = NewDocsHandler (authURL cfg) (metadataURL cfg) (uploadURL cfg) (gl_Get L);
          authMw = AuthMiddleware J (unix now) (jwtSecret cfg);
          optAuth = OptionalAuth J (unix now) (jwtSecret cfg);
          hlsAuth = HLSAuth J now now2 (gl_client L) (jwtSecret cfg) (internalToken cfg) (metadataURL cfg)
      in gw_own_routes (gl_metrics L) docsH @
         gw_auth_routes authProxy @
         with_mw authMw (gw_upload_routes (uploadMaxBytes cfg) uploadProxy) @
         [(''GET'', ''/api/v1/videos/{id}/hls-token'',
           authMw (HLSTokenHandler J now (gl_client L) (jwtSecret cfg) (internalToken cfg) (metadataURL cfg)))] @
         with_mw optAuth (gw_read_routes metadataProxy) @
         with_mw authMw (gw_write_routes metadataProxy) @
         [(''*'', ''/hls/*'', hlsAuth (metrics_Middleware (gl_inc L) vodProxy))])"

text \<open>The chain; \<open>RequestID\<close> and \<open>Recoverer\<close> of the library are not in it.\<close>

definition gw_chain ::
  "('s, 'm) gw_world_scheme gw_libs \<Rightarrow> int \<Rightarrow> int \<Rightarrow> 's routerConfig \<Rightarrow>
   ('s, 'm) gw_world_scheme route list \<Rightarrow> ('s, 'm) gw_world_scheme handler" where
  "gw_chain L now dur cfg rts =
     RealIP (trusted cfg)
       (CORS (corsOrigins cfg) [] []
         (RateLimit 20 40 (rdb cfg) (trusted cfg) now
           (RequestLogger ''gateway'' (gl_reqID L) dur (gl_emit L)
             (dispatch (gl_chi L) rts))))"

definition newRouter ::
  "('s, 'm) gw_world_scheme gw_libs \<Rightarrow> jwt \<Rightarrow> int \<Rightarrow> int \<Rightarrow> int \<Rightarrow> 's routerConfig \<Rightarrow>
   go_error + ('s, 'm) gw_world_scheme handler" where
  "newRouter L J now now2 dur cfg =
     (case gw_parse_targets (gl_parse L) cfg of
        Inl err \<Rightarrow> Inl err
      | Inr T \<Rightarrow> Inr (gw_chain L now dur cfg (gw_routes L J now now2 cfg T)))"

text \<open>
  The start of the process: port, handler and timeouts of the server, or the fatal message of the
  settings or of an upstream URL.
\<close>

definition gw_main ::
  "('s, 'm) gw_world_scheme gw_libs \<Rightarrow> (string \<Rightarrow> go_error + 's redis) \<Rightarrow> jwt \<Rightarrow> int \<Rightarrow> int \<Rightarrow> int \<Rightarrow>
   (string \<Rightarrow> string) \<Rightarrow> go_error + string \<times> ('s, 'm) gw_world_scheme handler \<times> Timeouts" where
  "gw_main L redis_connect J now now2 dur getenv =
     (case gw_config redis_connect getenv of Inl err \<Rightarrow> Inl err
      | Inr cfg \<Rightarrow>
        (case newRouter L J now now2 dur cfg of Inl err \<Rightarrow> Inl err
         | Inr gw \<Rightarrow> Inr ('':'' @ envOr getenv ''GATEWAY_PORT'' ''8080'', gw, Streaming)))"

lemma gw_config_secrets:
  assumes "gw_config R getenv = Inr cfg" "getenv ''ENV'' \<noteq> ''dev''"
  shows "jwtSecret cfg \<noteq> [] \<and> internalToken cfg \<noteq> []"
  using assms by (auto simp: gw_config_def requireEnv_def Let_def split: sum.splits option.splits if_splits)

lemma upload_max_positive: "0 < upload_max_setting getenv"
  by (auto simp: upload_max_setting_def Let_def split: prod.split)

subsection \<open>What the routes match\<close>

definition under :: "string list \<Rightarrow> request \<Rightarrow> bool" where
  "under segs r \<longleftrightarrow> take (length segs) (Split CHR ''/'' (URLPath r)) = segs"

definition segments :: "request \<Rightarrow> nat" where
  "segments r = length (Split CHR ''/'' (URLPath r))"

lemma segs_match_unfold:
  "segs_match [] ss vid \<longleftrightarrow> ss = []"
  "segs_match (p # ps) ss vid \<longleftrightarrow> (\<exists>s ss'. ss = s # ss' \<and>
     (p = ''*'' \<and> ps = [] \<or> (p = ''{id}'' \<and> s = vid \<and> s \<noteq> [] \<or> p \<noteq> ''{id}'' \<and> p = s) \<and> segs_match ps ss' vid))"
  by (cases ss; auto)+

lemma upload_routes_match:
  assumes "(m, p, H) \<in> set (gw_upload_routes limit h)" "route_match (m, p) r vid"
  shows "under ['''', ''api'', ''v1'', ''videos''] r \<and> (Method r = ''GET'' \<longrightarrow> segments r = 6) \<and>
    (H = h \<or> H = maxBytesMw limit h)"
proof -
  have split: "Split CHR ''/'' ''/api/v1/videos/upload'' = ['''', ''api'', ''v1'', ''videos'', ''upload'']"
    "Split CHR ''/'' ''/api/v1/videos/upload/*'' = ['''', ''api'', ''v1'', ''videos'', ''upload'', ''*'']"
    "Split CHR ''/'' ''/api/v1/videos/presign'' = ['''', ''api'', ''v1'', ''videos'', ''presign'']"
    "Split CHR ''/'' ''/api/v1/videos/complete'' = ['''', ''api'', ''v1'', ''videos'', ''complete'']"
    "Split CHR ''/'' ''/api/v1/videos/{id}/complete'' = ['''', ''api'', ''v1'', ''videos'', ''{id}'', ''complete'']"
    "Split CHR ''/'' ''/api/v1/videos/{id}/resumable'' = ['''', ''api'', ''v1'', ''videos'', ''{id}'', ''resumable'']"
    "Split CHR ''/'' ''/api/v1/videos/multipart'' = ['''', ''api'', ''v1'', ''videos'', ''multipart'']"
    "Split CHR ''/'' ''/api/v1/videos/{id}/multipart'' = ['''', ''api'', ''v1'', ''videos'', ''{id}'', ''multipart'']"
    "Split CHR ''/'' ''/api/v1/videos/{id}/multipart/presign-part'' = ['''', ''api'', ''v1'', ''videos'', ''{id}'', ''multipart'', ''presign-part'']"
    "Split CHR ''/'' ''/api/v1/videos/{id}/multipart/complete'' = ['''', ''api'', ''v1'', ''videos'', ''{id}'', ''multipart'', ''complete'']"
    by code_simp+
  show ?thesis using assms unfolding gw_upload_routes_def
    by (simp, elim disjE conjE) (simp_all add: route_match_def split segs_match_unfold under_def segments_def, auto)
qed

lemma video_routes_match:
  assumes "(m, p, H) \<in> set (gw_read_routes h @ gw_write_routes h)" "route_match (m, p) r vid"
  shows "under ['''', ''api'', ''v1'', ''videos''] r \<and> H = h"
proof -
  have split: "Split CHR ''/'' ''/api/v1/videos'' = ['''', ''api'', ''v1'', ''videos'']"
    "Split CHR ''/'' ''/api/v1/videos/'' = ['''', ''api'', ''v1'', ''videos'', '''']"
    "Split CHR ''/'' ''/api/v1/videos/*'' = ['''', ''api'', ''v1'', ''videos'', ''*'']"
    by code_simp+
  show ?thesis using assms unfolding gw_read_routes_def gw_write_routes_def
    by (simp, elim disjE conjE) (simp_all add: route_match_def split segs_match_unfold under_def segments_def, auto)
qed

lemma read_routes_method:
  assumes "(m, p, H) \<in> set (gw_read_routes h)" "route_match (m, p) r vid"
  shows "Method r = ''GET''"
  using assms by (auto simp: gw_read_routes_def route_match_def)

lemma other_routes_match:
  "(m, p, H) \<in> set (gw_auth_routes h) \<Longrightarrow> route_match (m, p) r vid \<Longrightarrow> under ['''', ''api'', ''v1'', ''auth''] r \<and> H = h"
  "route_match (''*'', ''/hls/*'') r vid \<Longrightarrow> under ['''', ''hls''] r"
proof -
  have split: "Split CHR ''/'' ''/api/v1/auth'' = ['''', ''api'', ''v1'', ''auth'']"
    "Split CHR ''/'' ''/api/v1/auth/*'' = ['''', ''api'', ''v1'', ''auth'', ''*'']"
    "Split CHR ''/'' ''/hls/*'' = ['''', ''hls'', ''*'']"
    by code_simp+
  show "under ['''', ''api'', ''v1'', ''auth''] r \<and> H = h"
    if "(m, p, H) \<in> set (gw_auth_routes h)" "route_match (m, p) r vid"
    using that unfolding gw_auth_routes_def
    by (simp, elim disjE conjE) (simp_all add: route_match_def split segs_match_unfold under_def, auto)
  show "route_match (''*'', ''/hls/*'') r vid \<Longrightarrow> under ['''', ''hls''] r"
    by (auto simp: route_match_def split segs_match_unfold under_def)
qed

subsection \<open>What a request can lead to\<close>

text \<open>
  What a request \<open>r\<close> at the router can be passed on as: the director and the request \<open>r1\<close> that
  its proxy gets. Each service has its part of the paths, and on the video paths the identity
  header is the proven identity.
\<close>

definition gw_call :: "jwt \<Rightarrow> int \<Rightarrow> 's routerConfig \<Rightarrow> gw_targets \<Rightarrow> request \<Rightarrow> (request \<Rightarrow> outreq) \<Rightarrow> request \<Rightarrow> bool" where
  "gw_call J now cfg T r dir r1 \<longleftrightarrow>
     URLPath r1 = URLPath r \<and> Method r1 = Method r \<and> RemoteAddr r1 = RemoteAddr r \<and>
     (\<forall>k. k \<noteq> ''X-User-Id'' \<longrightarrow> ReqHeader r1 k = ReqHeader r k) \<and>
     (let id = access_identity J (unix now) (jwtSecret cfg) (ReqHeader r);
          videos = under ['''', ''api'', ''v1'', ''videos''] r
      in under ['''', ''api'', ''v1'', ''auth''] r \<and> dir = Director (t_auth T)
       \<or> videos \<and> (Method r = ''GET'' \<longrightarrow> segments r = 6) \<and> dir = Director (t_upload T) \<and>
         (\<exists>sub. id = Some sub \<and> ReqHeader r1 ''X-User-Id'' = [sub])
       \<or> videos \<and> dir = InternalDirector (internalToken cfg) (Director (t_metadata T)) \<and>
         (case id of Some sub \<Rightarrow> ReqHeader r1 ''X-User-Id'' = [sub]
          | None \<Rightarrow> Method r = ''GET'' \<and> ReqHeader r1 ''X-User-Id'' = [])
       \<or> under ['''', ''hls''] r \<and> dir = InternalDirector (internalToken cfg) (Director (t_vod T)))"

lemma set_with_mw: "(m, p, H) \<in> set (with_mw mw rts) \<longleftrightarrow> (\<exists>f. H = mw f \<and> (m, p, f) \<in> set rts)"
  by (auto simp: with_mw_def intro: rev_image_eqI)

lemma under_simps [simp]:
  "under segs (r\<lparr>UrlId := v\<rparr>) = under segs r" "segments (r\<lparr>UrlId := v\<rparr>) = segments r"
  by (simp_all add: under_def segments_def)

text \<open>The gate of the HLS path: refused, or passed on with at most the identity header and the cache changed.\<close>

lemma HLSAuth_passes:
  assumes "HLSAuth J now now2 client secret tok url next r wh w = (res, w')"
  obtains (refused) "gw_world.more w' = gw_world.more w"
  | (passed) h c res1 where "next (r\<lparr>ReqHeader := h\<rparr>) wh (w\<lparr>hls_cache := c\<rparr>) = (res1, w')"
      "\<forall>k. k \<noteq> ''X-User-Id'' \<longrightarrow> h k = ReqHeader r k"
      "res = res1 \<or> (\<exists>vis. res = res1\<lparr>RespHeader := cache_headers vis (RespHeader res1)\<rparr>)"
proof -
  let ?run = "HLSAuth J now now2 client secret tok url next r wh w"
  consider "gw_world.more w' = gw_world.more w"
    | h vis c where "?run = hlsCacheWriter vis next (r\<lparr>ReqHeader := h\<rparr>) wh (w\<lparr>hls_cache := c\<rparr>)"
      "\<forall>k. k \<noteq> ''X-User-Id'' \<longrightarrow> h k = ReqHeader r k"
    | c where "?run = next r wh (w\<lparr>hls_cache := c\<rparr>)"
  proof (cases "extractVideoID (URLPath r) = []")
    case True
    then have "?run = next r wh (w\<lparr>hls_cache := hls_cache w\<rparr>)" by (simp add: HLSAuth_def Let_def)
    then show ?thesis by (rule that(3))
  next
    case ne: False
    obtain g c where g: "getMeta now now2 client url tok (extractVideoID (URLPath r)) (hls_cache w) = (g, c)"
      by (rule that, rule surjective_pairing)
    show ?thesis
    proof (cases g)
      case (Inl err)
      then have run: "?run = (if err = StatusError 404 then next r wh (w\<lparr>hls_cache := c\<rparr>)
          else (http_Error wh ''{\"error\":\"upstream unavailable\"}'' 502, w\<lparr>hls_cache := c\<rparr>))"
        using ne g by (simp add: HLSAuth_def Let_def)
      show ?thesis
      proof (cases "err = StatusError 404")
        case True
        then show ?thesis using run that(3) [of c] by simp
      next
        case False
        then show ?thesis using run assms that(1) by auto
      qed
    next
      case (Inr meta)
      note f = HLSAuth_found [OF refl ne g [unfolded Inr], of J secret "next" wh]
      show ?thesis
      proof (cases "may_watch J now2 secret r (extractVideoID (URLPath r)) meta")
        case True
        then show ?thesis using f that(2) by auto
      next
        case False
        then show ?thesis using f assms that(1) by auto
      qed
    qed
  qed
  then show ?thesis
  proof cases
    case 1
    then show ?thesis by (rule refused)
  next
    case (2 h vis c)
    obtain res1 w1 where n: "next (r\<lparr>ReqHeader := h\<rparr>) wh (w\<lparr>hls_cache := c\<rparr>) = (res1, w1)"
      by (rule that, rule surjective_pairing)
    show ?thesis using 2 n assms by (intro passed [of h c res1]) (auto simp: hlsCacheWriter_def)
  next
    case (3 c)
    then show ?thesis using assms by (intro passed [of "ReqHeader r" c res]) auto
  qed
qed

text \<open>
  The libraries of the gateway do not touch what lies behind the proxies: the counters, chi's own
  answers, the fetches of documents.
\<close>

definition gw_libs_quiet :: "('s, 'm) gw_world_scheme gw_libs \<Rightarrow> bool" where
  "gw_libs_quiet L \<longleftrightarrow>
     (\<forall>h \<in> {gl_metrics L, chi_unmatched (gl_chi L)}. \<forall>r wh w. gw_world.more (snd (h r wh w)) = gw_world.more w) \<and>
     (\<forall>w. gw_world.more (gl_inc L w) = gw_world.more w) \<and>
     (\<forall>u w. gw_world.more (snd (gl_Get L u w)) = gw_world.more w)"

lemma own_routes_quiet:
  assumes q: "gw_libs_quiet L"
    and rt: "(m, p, H) \<in> set (gw_own_routes (gl_metrics L) (NewDocsHandler a b c (gl_Get L)))"
    and run: "H r wh w = (res, w')"
  shows "gw_world.more w' = gw_world.more w"
proof -
  let ?d = "NewDocsHandler a b c (gl_Get L)"
  have get: "gw_world.more w2 = gw_world.more w1" if "dh_Get ?d u w1 = (x, w2)" for u w1 x w2
    using q [unfolded gw_libs_quiet_def] that unfolding NewDocsHandler_def by (metis DocsHandler.select_convs(4) snd_conv)
  have fetch: "gw_world.more w2 = gw_world.more w1" if "fetchMap ?d u w1 = (x, w2)" for u w1 x w2
    using that get unfolding fetchMap_def by (auto split: prod.splits sum.splits if_splits option.splits)
  have spec: "gw_world.more w' = gw_world.more w" if "proxyJSON ?d u r wh w = (res, w')" for u
    using that get unfolding proxyJSON_def by (auto split: prod.splits sum.splits)
  have merged: "gw_world.more w' = gw_world.more w" if "HandleMerged ?d r wh w = (res, w')"
    using that fetch unfolding HandleMerged_def Let_def by (auto split: prod.splits)
  have metrics: "gw_world.more w' = gw_world.more w" if "gl_metrics L r wh w = (res, w')"
    using q [unfolded gw_libs_quiet_def] that by (metis insertI1 snd_conv)
  show ?thesis using rt run spec merged metrics
    by (auto simp: gw_own_routes_def healthHandler_def status_handler_def HandleDocsUI_def HandleAuthSpec_def
        HandleMetadataSpec_def HandleUploadSpec_def)
qed

text \<open>The groups of the route table.\<close>

lemma gw_routesE:
  assumes "(m, p, H) \<in> set (gw_routes L J now now2 cfg T)"
  obtains (own) "(m, p, H) \<in> set (gw_own_routes (gl_metrics L)
      (NewDocsHandler (authURL cfg) (metadataURL cfg) (uploadURL cfg) (gl_Get L)))"
  | (auth) "(m, p, H) \<in> set (gw_auth_routes (ServeProxy (Director (t_auth T)) (gl_rt L)))"
  | (upload) f where "H = AuthMiddleware J (unix now) (jwtSecret cfg) f"
      "(m, p, f) \<in> set (gw_upload_routes (uploadMaxBytes cfg) (ServeProxy (Director (t_upload T)) (gl_rt L)))"
  | (token) "H = AuthMiddleware J (unix now) (jwtSecret cfg)
      (HLSTokenHandler J now (gl_client L) (jwtSecret cfg) (internalToken cfg) (metadataURL cfg))"
  | (reads) f where "H = OptionalAuth J (unix now) (jwtSecret cfg) f" "(m, p, f) \<in> set (gw_read_routes
      (ServeProxy (InternalDirector (internalToken cfg) (Director (t_metadata T))) (gl_rt L)))"
  | (writes) f where "H = AuthMiddleware J (unix now) (jwtSecret cfg) f" "(m, p, f) \<in> set (gw_write_routes
      (ServeProxy (InternalDirector (internalToken cfg) (Director (t_metadata T))) (gl_rt L)))"
  | (hls) "m = ''*''" "p = ''/hls/*''"
      "H = HLSAuth J now now2 (gl_client L) (jwtSecret cfg) (internalToken cfg) (metadataURL cfg)
         (metrics_Middleware (gl_inc L) (ServeProxy (InternalDirector (internalToken cfg) (Director (t_vod T))) (gl_rt L)))"
  using assms unfolding gw_routes_def Let_def set_append Un_iff set_with_mw list.set singleton_iff prod.inject
  by - (elim disjE exE conjE; (erule that(1) that(2) | erule (1) that(3) | erule that(4) | erule (1) that(5) |
      erule (1) that(6) | erule (2) that(7)))

text \<open>What a request to a route runs: nothing that leaves the gateway, or one of the proxies.\<close>

lemma gw_route_runs:
  fixes w :: "('s, 'm) gw_world_scheme"
  assumes q: "gw_libs_quiet L" and rt: "(m, p, H) \<in> set (gw_routes L J now now2 cfg T)"
    and match: "route_match (m, p) r vid" and h: "H (r\<lparr>UrlId := vid\<rparr>) wh w = (res, w')"
  obtains (here) "gw_world.more w' = gw_world.more w"
  | (call) dir r1 w1 res1 where "ServeProxy dir (gl_rt L) r1 wh w1 = (res1, w')" "gw_call J now cfg T r dir r1"
      "gw_world.more w1 = gw_world.more w" "res = res1 \<or> (\<exists>vis. res = res1\<lparr>RespHeader := cache_headers vis (RespHeader res1)\<rparr>)"
  using rt
proof (cases rule: gw_routesE)
  case own
  then show thesis using own_routes_quiet [OF q own h] here by simp
next
  case auth
  from other_routes_match(1) [OF auth match] h show thesis
    by (intro call [of "Director (t_auth T)" "r\<lparr>UrlId := vid\<rparr>" w res]) (auto simp: gw_call_def Let_def)
next
  case (upload f)
  from h [unfolded upload(1)] show thesis
  proof (cases rule: AuthMiddleware_cases)
    case (passed sub)
    with upload_routes_match [OF upload(2) match] obtain r1 where
      "ServeProxy (Director (t_upload T)) (gl_rt L) r1 wh w = (res, w')" "URLPath r1 = URLPath r" "Method r1 = Method r"
      "RemoteAddr r1 = RemoteAddr r" "ReqHeader r1 = hset (ReqHeader r) ''X-User-ID'' sub"
      by (auto simp: maxBytesMw_def with_identity_def)
    then show thesis using passed(1) upload_routes_match [OF upload(2) match]
      by (intro call [of "Director (t_upload T)" r1 w res]) (auto simp: gw_call_def Let_def hset_def)
  qed (use here in simp)
next
  case token
  from h [unfolded token] show thesis
  proof (cases rule: AuthMiddleware_cases)
    case (passed sub)
    then have "w' = w" by (auto simp: HLSTokenHandler_def Let_def split: if_splits sum.splits)
    then show thesis using here by simp
  qed (use here in simp)
next
  case (reads f)
  let ?md = "InternalDirector (internalToken cfg) (Director (t_metadata T))"
  have md: "f = ServeProxy ?md (gl_rt L)" "under ['''', ''api'', ''v1'', ''videos''] r" "Method r = ''GET''"
    using video_routes_match [of m p f _ r vid] read_routes_method [OF reads(2) match] reads(2) match by auto
  show thesis
  proof (cases "access_identity J (unix now) (jwtSecret cfg) (ReqHeader r)")
    case None
    then show thesis using OptionalAuth_None [of J "unix now" "jwtSecret cfg" "r\<lparr>UrlId := vid\<rparr>" f wh w] h reads(1) md
      by (intro call [of ?md "r\<lparr>UrlId := vid, ReqHeader := hdel (ReqHeader r) ''X-User-ID''\<rparr>" w res])
        (auto simp: gw_call_def Let_def hdel_def)
  next
    case (Some sub)
    then show thesis using OptionalAuth_Some [of J "unix now" "jwtSecret cfg" "r\<lparr>UrlId := vid\<rparr>" sub f wh w] h reads(1) md
      by (intro call [of ?md "with_identity sub (r\<lparr>UrlId := vid\<rparr>)" w res])
        (auto simp: gw_call_def Let_def with_identity_def hset_def)
  qed
next
  case (writes f)
  let ?md = "InternalDirector (internalToken cfg) (Director (t_metadata T))"
  have md: "f = ServeProxy ?md (gl_rt L)" "under ['''', ''api'', ''v1'', ''videos''] r"
    using video_routes_match [of m p f _ r vid] writes(2) match by auto
  from h [unfolded writes(1)] show thesis
  proof (cases rule: AuthMiddleware_cases)
    case (passed sub)
    then show thesis using md by (intro call [of ?md "with_identity sub (r\<lparr>UrlId := vid\<rparr>)" w res])
      (auto simp: gw_call_def Let_def with_identity_def hset_def)
  qed (use here in simp)
next
  case hls
  from h [unfolded hls(3)] show thesis
  proof (cases rule: HLSAuth_passes)
    case refused
    then show thesis by (rule here)
  next
    case (passed h' c' res1)
    have "gw_world.more (gl_inc L (w\<lparr>hls_cache := c'\<rparr>)) = gw_world.more w"
      using q unfolding gw_libs_quiet_def by simp
    moreover have "under ['''', ''hls''] r" using other_routes_match(2) match hls(1,2) by simp
    ultimately show thesis using passed
      by (intro call [of "InternalDirector (internalToken cfg) (Director (t_vod T))" "r\<lparr>UrlId := vid, ReqHeader := h'\<rparr>"
            "gl_inc L (w\<lparr>hls_cache := c'\<rparr>)" res1]) (auto simp: gw_call_def Let_def metrics_Middleware_def)
  qed
qed

text \<open>So a request at the router ends in the gateway, or goes to one upstream.\<close>

lemma gw_dispatch_cases:
  fixes w :: "('s, 'm) gw_world_scheme"
  assumes c: "chi_docs (gl_chi L)" and q: "gw_libs_quiet L"
    and run: "dispatch (gl_chi L) (gw_routes L J now now2 cfg T) r wh w = (res, w')"
  obtains (here) "gw_world.more w' = gw_world.more w"
  | (call) dir r1 w1 res1 where "ServeProxy dir (gl_rt L) r1 wh w1 = (res1, w')" "gw_call J now cfg T r dir r1"
      "gw_world.more w1 = gw_world.more w" "res = res1 \<or> (\<exists>vis. res = res1\<lparr>RespHeader := cache_headers vis (RespHeader res1)\<rparr>)"
proof (rule dispatch_cases [OF c run])
  assume u: "chi_unmatched (gl_chi L) r wh w = (res, w')"
  have "gw_world.more (snd (chi_unmatched (gl_chi L) r wh w)) = gw_world.more w"
    using q unfolding gw_libs_quiet_def by blast
  then show ?thesis using here u by simp
next
  fix m p H vid
  assume "(m, p, H) \<in> set (gw_routes L J now now2 cfg T)" "route_match (m, p) r vid"
    "H (r\<lparr>UrlId := vid\<rparr>) wh w = (res, w')"
  from gw_route_runs [OF q this] here call show thesis by blast
qed

text \<open>The outer middlewares refuse, or pass the request on with other response headers and counters.\<close>

lemma RateLimit_passes:
  fixes w :: "('s, 'm) gw_world_scheme"
  assumes "RateLimit rps burst R nets now next r wh w = (res, w')"
  obtains (refused) "gw_world.more w' = gw_world.more w" "Status res = 429"
  | (passed) w1 where "next r wh w1 = (res, w')" "gw_world.more w1 = gw_world.more w"
proof -
  have rl: "gw_world.more w1 = gw_world.more w" if "rl_world.more w1 = rl_world.more w" for w1 :: "('s, 'm) gw_world_scheme"
    using that by (cases w, cases w1) simp
  have more: "gw_world.more (w\<lparr>redis_st := s\<rparr>) = gw_world.more w" "gw_world.more (warnOpen now err w) = gw_world.more w"
    for s err by (auto simp: warnOpen_def)
  show ?thesis using assms that more unfolding RateLimit_def Let_def
    by (auto split: if_splits option.splits prod.splits)
qed

lemma CORS_passes:
  assumes "CORS os ms hs next r wh w = (res, w')"
  obtains (refused) "w' = w" "Status res = 204" | (passed) wh1 where "next r wh1 w = (res, w')"
  using assms CORS_preflight [of r os ms hs "next" wh w] by (auto split: if_splits)

text \<open>The whole gateway: a request is refused, or it comes to the router and the log has a line for it.\<close>

lemma gw_chain_cases:
  fixes w :: "('s, 'm) gw_world_scheme"
  assumes new: "newRouter L J now now2 dur cfg = Inr gw" and run: "gw r wh w = (res, w')"
  defines "r0 \<equiv> real_ip_request (trusted cfg) r"
  obtains (refused) "gw_world.more w' = gw_world.more w" "Status res \<in> {204, 429}"
  | (routed) T wh1 w1 w2 line where "gw_parse_targets (gl_parse L) cfg = Inr T"
      "dispatch (gl_chi L) (gw_routes L J now now2 cfg T) (logged_request (gl_reqID L) r0)
         (logged_header (gl_reqID L) r0 wh1) w1 = (res, w2)"
      "gw_world.more w1 = gw_world.more w" "w' = gl_emit L line w2"
      "lg_trace_id line = request_id (gl_reqID L r0) (ReqHeader r0)"
proof -
  obtain T where T: "gw_parse_targets (gl_parse L) cfg = Inr T"
      and gw: "gw = gw_chain L now dur cfg (gw_routes L J now now2 cfg T)"
    using new by (auto simp: newRouter_def split: sum.splits)
  let ?d = "dispatch (gl_chi L) (gw_routes L J now now2 cfg T)"
  let ?log = "RequestLogger ''gateway'' (gl_reqID L) dur (gl_emit L) ?d"
  let ?rate = "RateLimit 20 40 (rdb cfg) (trusted cfg) now ?log"
  have "CORS (corsOrigins cfg) [] [] ?rate r0 wh w = (res, w')"
    using run unfolding gw gw_chain_def RealIP_def r0_def .
  then show ?thesis
  proof (cases rule: CORS_passes)
    case refused
    then show ?thesis using that(1) by simp
  next
    case (passed wh1)
    then show ?thesis
    proof (cases rule: RateLimit_passes)
      case refused
      then show ?thesis using that(1) by simp
    next
      case p: (passed w1)
      obtain res1 w2 where d: "?d (logged_request (gl_reqID L) r0) (logged_header (gl_reqID L) r0 wh1) w1 = (res1, w2)"
        by (rule that, rule surjective_pairing)
      have "res1 = res" "w' = gl_emit L \<lparr>lg_level = level_of (Status res1), lg_method = Method r0, lg_path = URLPath r0,
          lg_status = Status res1, lg_duration = dur, lg_ip = log_ClientIP r0,
          lg_trace_id = request_id (gl_reqID L r0) (ReqHeader r0), lg_service = ''gateway''\<rparr> w2"
        using RequestLogger_run [of ?d, OF d, of "''gateway''" dur "gl_emit L"] p(1) by simp_all
      then show ?thesis using that(2) [OF T _ p(2)] d by simp
    qed
  qed
qed

text \<open>So a request ends in the gateway or goes to one upstream.\<close>

lemma gw_cases:
  fixes w :: "('s, 'm) gw_world_scheme"
  assumes c: "chi_docs (gl_chi L)" and q: "gw_libs_quiet L"
    and new: "newRouter L J now now2 dur cfg = Inr gw" and run: "gw r wh w = (res, w')"
  defines "r0 \<equiv> real_ip_request (trusted cfg) r"
  obtains (refused) "gw_world.more w' = gw_world.more w"
  | (here) line w2 where "w' = gl_emit L line w2" "gw_world.more w2 = gw_world.more w"
  | (call) T dir r1 wh1 w1 w2 res1 line where "gw_parse_targets (gl_parse L) cfg = Inr T"
      "ServeProxy dir (gl_rt L) r1 (logged_header (gl_reqID L) r0 wh1) w1 = (res1, w2)"
      "gw_call J now cfg T (logged_request (gl_reqID L) r0) dir r1" "gw_world.more w1 = gw_world.more w"
      "w' = gl_emit L line w2" "lg_trace_id line = request_id (gl_reqID L r0) (ReqHeader r0)"
      "res = res1 \<or> (\<exists>vis. res = res1\<lparr>RespHeader := cache_headers vis (RespHeader res1)\<rparr>)"
  using new run
proof (cases rule: gw_chain_cases)
  case refused
  then show ?thesis using that(1) by simp
next
  case (routed T wh1 w1 w2 line)
  from c q routed(2) show ?thesis
  proof (cases rule: gw_dispatch_cases)
    case here
    then show ?thesis using that(2) [OF routed(4)] routed(3) by simp
  next
    case (call dir r1 w3 res1)
    from that(3) [OF routed(1), unfolded r0_def, OF call(1,2) _ routed(4,5) call(4)] call(3) routed(3) show ?thesis by simp
  qed
qed

subsection \<open>The request that an upstream gets\<close>

lemma proxied_path: "URLPath (o_req (proxied (Director T) r)) = singleJoiningSlash (u_path T) (URLPath r)"
  by (simp add: proxied_def Director_def singleHostDirector_def Let_def)

lemma proxied_method: "Method (o_req (proxied (Director T) r)) = Method r"
  by (simp add: proxied_def Director_def singleHostDirector_def Let_def)

lemma proxied_internal:
  "URLPath (o_req (proxied (InternalDirector tok dir) r)) = URLPath (o_req (proxied dir r))"
  "Method (o_req (proxied (InternalDirector tok dir) r)) = Method (o_req (proxied dir r))"
  "o_host (proxied (InternalDirector tok dir) r) = o_host (proxied dir r)"
  "k \<noteq> ''X-Internal-Token'' \<Longrightarrow>
    ReqHeader (o_req (proxied (InternalDirector tok dir) r)) k = ReqHeader (o_req (proxied dir r)) k"
proof -
  have h: "ReqHeader (o_req (InternalDirector tok dir r)) j = ReqHeader (o_req (dir r)) j" if "j \<noteq> ''X-Internal-Token''" for j
    using that by (auto simp: InternalDirector_def Let_def hset_def)
  have "connection_tokens (ReqHeader (o_req (InternalDirector tok dir r))) = connection_tokens (ReqHeader (o_req (dir r)))"
    using h [of "''Connection''"] by (simp add: connection_tokens_def)
  then have rm: "removeHopByHopHeaders (ReqHeader (o_req (InternalDirector tok dir r))) j =
      removeHopByHopHeaders (ReqHeader (o_req (dir r))) j" if "j \<noteq> ''X-Internal-Token''" for j
    using h [OF that] by (simp add: removeHopByHopHeaders_eq)
  show "URLPath (o_req (proxied (InternalDirector tok dir) r)) = URLPath (o_req (proxied dir r))"
    "Method (o_req (proxied (InternalDirector tok dir) r)) = Method (o_req (proxied dir r))"
    "o_host (proxied (InternalDirector tok dir) r) = o_host (proxied dir r)"
    by (simp_all add: proxied_def InternalDirector_def Let_def)
  show "ReqHeader (o_req (proxied (InternalDirector tok dir) r)) k = ReqHeader (o_req (proxied dir r)) k"
    if "k \<noteq> ''X-Internal-Token''"
    using rm [OF that] rm [of "''X-Forwarded-For''"]
    by (cases "k = ''X-Forwarded-For''") (auto simp: proxied_def Let_def append_xff_other append_xff_def hset_def split: option.split)
qed

text \<open>The id of the request passes the director and the removal of headers.\<close>

lemma proxied_request_id:
  assumes "ReqHeader r ''X-Request-Id'' = [t]" "t \<noteq> []"
    and "''X-Request-Id'' \<notin> canon ` set (connection_tokens (ReqHeader r))"
  shows "ReqHeader (o_req (proxied (Director T) r)) ''X-Request-Id'' = [t]"
proof -
  let ?h = "ReqHeader (o_req (singleHostDirector T r))"
  have ua: "canon ''User-Agent'' = ''User-Agent''" by code_simp
  have h: "?h k = ReqHeader r k" if "k \<noteq> ''User-Agent''" for k
    using that by (simp add: singleHostDirector_def hset_def ua)
  have "forward_request_id (hset ?h ''X-Forwarded-Host'' v) ''X-Request-Id'' = [t]" for v
    using h [of "''X-Request-Id''"] assms(1,2) by (simp add: forward_request_id_def Let_def hget_def) (simp add: hset_def)
  then have f: "forward_headers (o_req (singleHostDirector T r)) ''X-Request-Id'' = [t]"
    by (simp add: forward_headers_def forward_steps_other)
  have c: "forward_headers (o_req (singleHostDirector T r)) ''Connection'' = ReqHeader r ''Connection''"
    using h [of "''Connection''"] by (simp add: forward_headers_other)
  have "''X-Request-Id'' \<notin> set hop_headers" by (simp add: hop_headers_def)
  with f c assms(3) show ?thesis
    by (simp add: proxied_def Let_def append_xff_other removeHopByHopHeaders_eq Director_req connection_tokens_def)
qed

text \<open>What is said of a call carries over from the request at the router to the client's request.\<close>

lemma incoming_simps [simp]:
  "under segs (logged_request g (real_ip_request nets r)) = under segs r"
  "segments (logged_request g (real_ip_request nets r)) = segments r"
  "access_identity J t s (ReqHeader (real_ip_request nets r)) = access_identity J t s (ReqHeader r)"
  "URLPath (real_ip_request nets r) = URLPath r" "Method (real_ip_request nets r) = Method r"
  by (simp_all add: under_def segments_def real_ip_request_def access_identity_def Let_def)

lemma incoming_connection:
  "connection_tokens (ReqHeader (logged_request g (real_ip_request nets r))) = connection_tokens (ReqHeader r)"
  by (simp add: connection_tokens_def logged_request_def real_ip_request_def Let_def hset_def)

lemma call_connection:
  "gw_call J now cfg T r dir r1 \<Longrightarrow> connection_tokens (ReqHeader r1) = connection_tokens (ReqHeader r)"
  by (simp add: gw_call_def connection_tokens_def)

subsection \<open>An observed gateway\<close>

text \<open>
  What goes over the network and into the log is written down, whatever the upstreams answer:
  \<open>ans\<close> is any function of the request and the state of the world.
\<close>

record 's net_world = "'s gw_world" +
  nw_sent :: "outreq list"
  nw_log :: "log_line list"

definition recording ::
  "(outreq \<Rightarrow> ('s, 'm) net_world_scheme \<Rightarrow> go_error + response) \<Rightarrow> ('s, 'm) net_world_scheme transport" where
  "recording ans q w = (ans q w, w\<lparr>nw_sent := nw_sent w @ [q]\<rparr>)"

definition log_append :: "log_line \<Rightarrow> ('s, 'm) net_world_scheme \<Rightarrow> ('s, 'm) net_world_scheme" where
  "log_append l w = w\<lparr>nw_log := nw_log w @ [l]\<rparr>"

lemma same_net:
  fixes w w' :: "('s, 'm) net_world_scheme"
  assumes "gw_world.more w' = gw_world.more w"
  shows "nw_sent w' = nw_sent w" "nw_log w' = nw_log w"
  using assms by (cases w, cases w', simp)+

lemma ServeProxy_recording:
  assumes "ServeProxy dir (recording ans) r wh w = (res, w')"
  shows "w' = w\<lparr>nw_sent := nw_sent w @ [proxied dir r]\<rparr>" "RespHeader res ''X-Request-Id'' = wh ''X-Request-Id''"
proof -
  have ct: "canon ''Content-Length'' = ''Content-Length''" by simp
  show "w' = w\<lparr>nw_sent := nw_sent w @ [proxied dir r]\<rparr>"
    using assms by (auto simp: ServeProxy_def recording_def split: sum.splits)
  show "RespHeader res ''X-Request-Id'' = wh ''X-Request-Id''"
  proof (cases "ans (proxied dir r) w")
    case (Inl err)
    then have "res = ErrorHandler wh err" using assms by (simp add: ServeProxy_def recording_def)
    then show ?thesis by (cases err) (simp_all add: ErrorHandler_def http_Error_def hset_def hdel_def)
  next
    case (Inr up)
    then show ?thesis using assms by (auto simp: ServeProxy_def recording_def ModifyResponse_def add_headers_def hdel_def)
  qed
qed

lemma cache_headers_request_id: "cache_headers vis h ''X-Request-Id'' = h ''X-Request-Id''"
  by (simp add: cache_headers_def hset_def hdel_def)

text \<open>An observed request: nothing was sent, or one request of which \<open>gw_call\<close> tells the rest.\<close>

lemma observed_call:
  fixes w :: "('s, 'm) net_world_scheme"
  assumes c: "chi_docs (gl_chi L)" and q: "gw_libs_quiet L" and o: "gl_rt L = recording ans" "gl_emit L = log_append"
    and new: "newRouter L J now now2 dur cfg = Inr gw" and run: "gw r wh w = (res, w')"
  obtains (quiet) "nw_sent w' = nw_sent w"
  | (sent) T dir r1 line where "nw_sent w' = nw_sent w @ [proxied dir r1]"
      "gw_parse_targets (gl_parse L) cfg = Inr T"
      "gw_call J now cfg T (logged_request (gl_reqID L) (real_ip_request (trusted cfg) r)) dir r1"
      "nw_log w' = nw_log w @ [line]"
      "lg_trace_id line = request_id (gl_reqID L (real_ip_request (trusted cfg) r)) (ReqHeader (real_ip_request (trusted cfg) r))"
      "lg_trace_id line \<noteq> [] \<longrightarrow> RespHeader res ''X-Request-Id'' = [lg_trace_id line]"
proof (rule gw_cases [OF c q new run])
  assume "gw_world.more w' = gw_world.more w"
  from same_net(1) [OF this] show thesis by (rule quiet)
next
  fix line w2
  assume w': "w' = gl_emit L line w2" and m: "gw_world.more w2 = gw_world.more w"
  show thesis by (rule quiet) (simp add: w' o(2) log_append_def same_net(1) [OF m])
next
  fix T dir r1 wh1 w1 w2 res1 line
  let ?real = "real_ip_request (trusted cfg) r"
  assume T: "gw_parse_targets (gl_parse L) cfg = Inr T"
    and p: "ServeProxy dir (gl_rt L) r1 (logged_header (gl_reqID L) ?real wh1) w1 = (res1, w2)"
    and call: "gw_call J now cfg T (logged_request (gl_reqID L) ?real) dir r1"
    and m: "gw_world.more w1 = gw_world.more w" and w': "w' = gl_emit L line w2"
    and t: "lg_trace_id line = request_id (gl_reqID L ?real) (ReqHeader ?real)"
    and res: "res = res1 \<or> (\<exists>vis. res = res1\<lparr>RespHeader := cache_headers vis (RespHeader res1)\<rparr>)"
  note s = ServeProxy_recording [OF p [unfolded o(1)]]
  have h: "RespHeader res ''X-Request-Id'' = [lg_trace_id line]" if "lg_trace_id line \<noteq> []"
    using res s(2) that t by (auto simp: cache_headers_request_id logged_header_def Let_def hset_def)
  show thesis
    by (rule sent [OF _ T call _ t]) (use s(1) same_net [OF m] w' o(2) h in \<open>simp_all add: log_append_def\<close>)
qed

lemma call_cases:
  assumes "gw_call J now cfg T r dir r1"
  obtains X where "X \<in> {t_auth T, t_upload T, t_metadata T, t_vod T}"
    "dir = Director X \<or> dir = InternalDirector (internalToken cfg) (Director X)"
  using assms by (auto simp: gw_call_def Let_def)

lemma call_same:
  assumes "gw_call J now cfg T r dir r1"
  shows "URLPath r1 = URLPath r" "Method r1 = Method r" "k \<noteq> ''X-User-Id'' \<Longrightarrow> ReqHeader r1 k = ReqHeader r k"
  using assms by (simp_all add: gw_call_def)

lemma X_User_other:
  "''X-User-Id'' \<notin> {''X-Forwarded-Host'', ''X-Request-Id'', ''X-Forwarded-For'', ''X-Forwarded-Proto'', ''User-Agent''}"
  "''X-User-Id'' \<noteq> ''X-Internal-Token''"
  by simp_all

lemma under_append:
  "under (xs @ ys) r \<Longrightarrow> under xs r"
proof -
  assume "under (xs @ ys) r"
  then have "take (length xs) (take (length xs + length ys) (Split CHR ''/'' (URLPath r))) = take (length xs) (xs @ ys)"
    by (simp add: under_def)
  then show "under xs r" by (simp add: under_def min_def)
qed

lemma under_unique: "under xs r \<Longrightarrow> under ys r \<Longrightarrow> length xs = length ys \<Longrightarrow> xs = ys"
  by (simp add: under_def)

lemma under_api: "under ['''', ''api'', ''v1'', x] r \<Longrightarrow> under ['''', ''api''] r"
  using under_append [of "['''', ''api'']" "[''v1'', x]" r] by simp

lemma under_videos:
  assumes "under ['''', ''api'', ''v1'', ''videos''] r"
  shows "\<not> under ['''', ''api'', ''v1'', ''auth''] r" "\<not> under ['''', ''hls''] r"
  using under_unique [OF assms, of "['''', ''api'', ''v1'', ''auth'']"] under_unique [OF under_api [OF assms], of "['''', ''hls'']"]
  by auto

lemma call_identity:
  assumes "gw_call J now cfg T r dir r1" "under ['''', ''api'', ''v1'', ''videos''] r"
  shows "access_identity J (unix now) (jwtSecret cfg) (ReqHeader r) = None \<longrightarrow> Method r = ''GET''"
    "hget (ReqHeader (o_req (proxied dir r1))) ''X-User-ID'' =
      (if ''X-User-Id'' \<in> canon ` set (connection_tokens (ReqHeader r)) then []
       else case access_identity J (unix now) (jwtSecret cfg) (ReqHeader r) of Some sub \<Rightarrow> sub | None \<Rightarrow> [])"
proof -
  show "access_identity J (unix now) (jwtSecret cfg) (ReqHeader r) = None \<longrightarrow> Method r = ''GET''"
    using assms under_videos [OF assms(2)] by (auto simp: gw_call_def Let_def)
  have p: "ReqHeader (o_req (proxied dir r1)) ''X-User-Id'' =
      (if ''X-User-Id'' \<in> canon ` set (connection_tokens (ReqHeader r)) then [] else ReqHeader r1 ''X-User-Id'')"
  proof -
    obtain X where X: "dir = Director X \<or> dir = InternalDirector (internalToken cfg) (Director X)"
      using call_cases [OF assms(1)] by blast
    have "ReqHeader (o_req (proxied dir r1)) ''X-User-Id'' = ReqHeader (o_req (proxied (Director X) r1)) ''X-User-Id''"
      using X proxied_internal(4) [OF X_User_other(2)] by auto
    then show ?thesis
      unfolding proxied_other [OF X_User_other(1) not_hop(1)] call_connection [OF assms(1)] .
  qed
  have x: "ReqHeader r1 ''X-User-Id'' =
      (case access_identity J (unix now) (jwtSecret cfg) (ReqHeader r) of Some sub \<Rightarrow> [sub] | None \<Rightarrow> [])"
    using assms under_videos [OF assms(2)] by (auto simp: gw_call_def Let_def split: option.splits)
  show "hget (ReqHeader (o_req (proxied dir r1))) ''X-User-ID'' =
      (if ''X-User-Id'' \<in> canon ` set (connection_tokens (ReqHeader r)) then []
       else case access_identity J (unix now) (jwtSecret cfg) (ReqHeader r) of Some sub \<Rightarrow> sub | None \<Rightarrow> [])"
    unfolding hget_def canon_literals p x by (simp split: option.split)
qed

text \<open>Only paths of the API and of the segments go upstream, so none of a service's internal paths.\<close>

lemma call_first_segment:
  assumes "gw_call J now cfg T r dir r1"
  obtains s rest where "Split CHR ''/'' (URLPath r) = '''' # s # rest" "s = ''api'' \<or> s = ''hls''"
proof -
  have "under ['''', ''api''] r \<or> under ['''', ''hls''] r"
    using assms under_api by (auto simp: gw_call_def Let_def)
  then obtain s where s: "take 2 (Split CHR ''/'' (URLPath r)) = ['''', s]" "s = ''api'' \<or> s = ''hls''"
    by (auto simp: under_def numeral_2_eq_2)
  from s(1) have "Split CHR ''/'' (URLPath r) = '''' # s # drop 2 (Split CHR ''/'' (URLPath r))"
    by (metis append_Cons append_Nil append_take_drop_id)
  then show ?thesis using that s(2) by blast
qed

lemma Split_slash:
  assumes "Split CHR ''/'' p = '''' # s # rest"
  shows "\<exists>q. p = CHR ''/'' # q"
  using assms by (cases p) (auto split: if_splits list.splits)

lemma joining_slash:
  assumes "a = [] \<or> a = ''/''"
  shows "singleJoiningSlash a (CHR ''/'' # q) = CHR ''/'' # q"
  using assms by (auto simp: singleJoiningSlash_def HasSuffix_def HasPrefix_def)

lemma internal_first_segment:
  assumes "(m, p, H) \<in> set (md_static_routes metrics swagger @ md_internal_routes vh)" "route_match (m, p) r vid"
    and "Split CHR ''/'' (URLPath r) = '''' # s # rest"
  shows "s \<noteq> ''api'' \<and> s \<noteq> ''hls''"
proof -
  have split: "Split CHR ''/'' ''/'' = ['''', '''']" "Split CHR ''/'' ''/health'' = ['''', ''health'']"
    "Split CHR ''/'' ''/metrics'' = ['''', ''metrics'']" "Split CHR ''/'' ''/swagger/*'' = ['''', ''swagger'', ''*'']"
    "Split CHR ''/'' ''/openapi.json'' = ['''', ''openapi.json'']"
    "Split CHR ''/'' ''/internal/videos/{id}/status'' = ['''', ''internal'', ''videos'', ''{id}'', ''status'']"
    "Split CHR ''/'' ''/internal/videos/stale'' = ['''', ''internal'', ''videos'', ''stale'']"
    "Split CHR ''/'' ''/internal/videos/{id}'' = ['''', ''internal'', ''videos'', ''{id}'']"
    "Split CHR ''/'' ''/internal/videos/{id}/vod'' = ['''', ''internal'', ''videos'', ''{id}'', ''vod'']"
    by code_simp+
  have p: "p \<in> {''/'', ''/health'', ''/metrics'', ''/swagger/*'', ''/openapi.json'', ''/internal/videos/{id}/status'',
      ''/internal/videos/stale'', ''/internal/videos/{id}'', ''/internal/videos/{id}/vod''}"
    using assms(1) by (auto simp: md_static_routes_def md_internal_routes_def)
  have "segs_match (Split CHR ''/'' p) ('''' # s # rest) vid" using assms(2,3) by (simp add: route_match_def)
  then show ?thesis using p by (elim insertE emptyE) (auto simp: split segs_match_unfold)
qed

lemma call_path:
  assumes call: "gw_call J now cfg T r dir r1"
    and base: "\<forall>X \<in> {t_auth T, t_metadata T, t_upload T, t_vod T}. u_path X = [] \<or> u_path X = ''/''"
  shows "URLPath (o_req (proxied dir r1)) = URLPath r" "Method (o_req (proxied dir r1)) = Method r"
proof -
  obtain X where X: "X \<in> {t_auth T, t_upload T, t_metadata T, t_vod T}"
    "dir = Director X \<or> dir = InternalDirector (internalToken cfg) (Director X)"
    using call_cases [OF call] by blast
  obtain s rest where "Split CHR ''/'' (URLPath r) = '''' # s # rest" using call_first_segment [OF call] by blast
  from Split_slash [OF this] obtain q where q: "URLPath r = CHR ''/'' # q" by blast
  have p: "URLPath (o_req (proxied dir r1)) = singleJoiningSlash (u_path X) (URLPath r1)"
    and m: "Method (o_req (proxied dir r1)) = Method r1"
    using X(2) proxied_internal(1,2) proxied_path proxied_method by auto
  have "u_path X = [] \<or> u_path X = ''/''" using X(1) base by blast
  from p joining_slash [OF this] show "URLPath (o_req (proxied dir r1)) = URLPath r"
    unfolding call_same(1) [OF call] q by simp
  show "Method (o_req (proxied dir r1)) = Method r" using m call_same(2) [OF call] by simp
qed

subsection \<open>A gateway to evaluate\<close>

definition parse_url :: "string \<Rightarrow> go_error + target_url" where
  "parse_url s = Inr \<lparr>u_scheme = ''http'', u_host = TrimPrefix s ''http://'', u_path = []\<rparr>"

definition gw_env :: "string \<Rightarrow> string" where
  "gw_env k = (if k = ''JWT_SECRET'' then ''k'' else if k = ''INTERNAL_TOKEN'' then ''s3cret'' else [])"

definition sample_cfg :: "redis_db routerConfig" where
  "sample_cfg = (case gw_config (\<lambda>_. Inl (Err ''no redis'')) gw_env of Inr cfg \<Rightarrow> cfg
     | Inl _ \<Rightarrow> \<lparr>jwtSecret = [], internalToken = [], uploadMaxBytes = 0, authURL = [], metadataURL = [], uploadURL = [],
                  vodURL = [], corsOrigins = [], trusted = [], rdb = None\<rparr>)"

definition sample_libs :: "(redis_db, 'm) net_world_scheme gw_libs" where
  "sample_libs =
     \<lparr>gl_chi = sample_chi, gl_reqID = (\<lambda>r. ''id-1''), gl_metrics = library_page, gl_inc = (\<lambda>w. w),
      gl_client = sample_client, gl_Get = (\<lambda>u w. (Inl (Err ''down''), w)),
      gl_rt = recording (\<lambda>q w. Inr (WriteHeader no_header 200)), gl_emit = log_append, gl_parse = parse_url\<rparr>"

lemma sample_libs_ok:
  "chi_docs (gl_chi sample_libs)" "gw_libs_quiet sample_libs"
  "gl_rt sample_libs = recording (\<lambda>q w. Inr (WriteHeader no_header 200))" "gl_emit sample_libs = log_append"
  by (simp_all add: sample_libs_def sample_chi_docs gw_libs_quiet_def library_page_def) (simp add: sample_chi_def)

definition sample_gateway :: "redis_db net_world handler" where
  "sample_gateway = (case newRouter sample_libs sample_jwt 0 0 5 sample_cfg of Inr gw \<Rightarrow> gw | Inl _ \<Rightarrow> healthHandler)"

definition sample_net :: "redis_db net_world" where
  "sample_net = gw_world.extend sample_gw \<lparr>nw_sent = [], nw_log = []\<rparr>"

lemma sample_newRouter: "newRouter sample_libs sample_jwt 0 0 5 sample_cfg = Inr sample_gateway"
  by (simp add: sample_gateway_def newRouter_def gw_parse_targets_def sample_libs_def parse_url_def)

text \<open>A request of a client that claims to be somebody else.\<close>

definition liar :: "string \<Rightarrow> string \<Rightarrow> request" where
  "liar meth tok = blank_request\<lparr>Method := meth, URLPath := ''/api/v1/videos/v1'',
     ReqHeader := hset (hset no_header ''X-User-ID'' ''eve'') ''Authorization'' (''Bearer '' @ tok)\<rparr>"

subsection \<open>Properties\<close>



text \<open>C18: the internal paths are out of reach. The gateway adds the internal token to every request to the
  metadata service, but whatever the client sends, no request that it passes on, to any upstream,
  matches an internal route of the metadata service, its counters, its health check or its
  documentation. The upstream URLs are configured without a path.\<close>

theorem gateway_hides_internal:
  assumes "chi_docs (gl_chi L)" "gw_libs_quiet L" "gl_rt L = recording ans" "gl_emit L = log_append"
    and "newRouter L J now now2 dur cfg = Inr gw" "gw r wh w = (res, w')"
    and "\<forall>url \<in> {authURL cfg, metadataURL cfg, uploadURL cfg, vodURL cfg}. \<forall>X. gl_parse L url = Inr X \<longrightarrow> u_path X = [] \<or> u_path X = ''/''"
  shows "\<exists>qs. nw_sent w' = nw_sent w @ qs \<and>
    (\<forall>q \<in> set qs. URLPath (o_req q) = URLPath r \<and> Method (o_req q) = Method r \<and>
       (\<forall>(m, p, H) \<in> set (md_static_routes metrics swagger @ md_internal_routes vh). \<forall>vid. \<not> route_match (m, p) (o_req q) vid))"
proof (rule observed_call [OF assms(1-6)])
  assume "nw_sent w' = nw_sent w"
  then show ?thesis by (intro exI [of _ "[]"]) simp
next
  fix T dir r1
  let ?r = "logged_request (gl_reqID L) (real_ip_request (trusted cfg) r)"
  assume s: "nw_sent w' = nw_sent w @ [proxied dir r1]" and call: "gw_call J now cfg T ?r dir r1"
    and T: "gw_parse_targets (gl_parse L) cfg = Inr T"
  have "\<forall>X \<in> {t_auth T, t_metadata T, t_upload T, t_vod T}. u_path X = [] \<or> u_path X = ''/''"
    using T assms(7) unfolding gw_parse_targets_def by (auto split: sum.splits)
  note p = call_path [OF call this]
  obtain sg rest where sg: "Split CHR ''/'' (URLPath ?r) = '''' # sg # rest" "sg = ''api'' \<or> sg = ''hls''"
    using call_first_segment [OF call] by blast
  have "\<not> route_match (m, p) (o_req (proxied dir r1)) vid"
    if "(m, p, H) \<in> set (md_static_routes metrics swagger @ md_internal_routes vh)" for m p H vid
    using internal_first_segment [OF that, of "o_req (proxied dir r1)" vid sg rest] p(1) sg by auto
  then show ?thesis using s p by (intro exI [of _ "[proxied dir r1]"]) auto
qed

definition sneaky :: request where
  "sneaky = blank_request\<lparr>URLPath := ''/api/v1/videos/../../internal/videos/v1''\<rparr>"

lemma gateway_hides_internal_witness:
  "\<exists>res w' q. sample_gateway sneaky no_header sample_net = (res, w') \<and> nw_sent w' = [q] \<and>
     URLPath (o_req q) = ''/api/v1/videos/../../internal/videos/v1'' \<and>
     (\<forall>metrics swagger vh. \<forall>(m, p, H) \<in> set (md_static_routes metrics swagger @ md_internal_routes vh).
        \<forall>vid. \<not> route_match (m, p) (o_req q) vid)"
proof -
  let ?run = "sample_gateway sneaky no_header sample_net"
  have s: "length (nw_sent (snd ?run)) = 1" "nw_sent sample_net = []" "URLPath sneaky = ''/api/v1/videos/../../internal/videos/v1''"
    by code_simp+
  have run: "?run = (fst ?run, snd ?run)" by simp
  from s(1) obtain q where q: "nw_sent (snd ?run) = [q]" by (auto simp: length_Suc_conv)
  have base: "\<forall>url \<in> {authURL sample_cfg, metadataURL sample_cfg, uploadURL sample_cfg, vodURL sample_cfg}. \<forall>X.
      gl_parse sample_libs url = Inr X \<longrightarrow> u_path X = [] \<or> u_path X = ''/''"
    by (simp add: sample_libs_def parse_url_def)
  note hidden = gateway_hides_internal [OF sample_libs_ok sample_newRouter run base]
  have "URLPath (o_req q) = URLPath sneaky" using hidden [of undefined undefined undefined] s q by simp (elim conjE)
  moreover have "\<forall>(m, p, H) \<in> set (md_static_routes metrics swagger @ md_internal_routes vh).
      \<forall>vid. \<not> route_match (m, p) (o_req q) vid" for metrics swagger vh
    using hidden [of metrics swagger vh] s q by simp
  ultimately show ?thesis unfolding s(3) using run q
    by (intro exI [of _ "fst ?run"] exI [of _ "snd ?run"] exI [of _ q] conjI allI)
qed

text \<open>C21: one id for a request on its whole way. The line that the gateway writes to its log, the response
  that the client gets and the line of any service behind it that logs with the shared logger
  carry the same id, whatever id the client or the upstream sends; unless the client lists
  \<open>X-Request-Id\<close> in \<open>Connection\<close>, which takes the id off the way to the service. Of chi it is used
  that \<open>RequestID\<close> takes the id of the request's header when it has one.\<close>

theorem trace_id_end_to_end:
  assumes "chi_docs (gl_chi L)" "gw_libs_quiet L" "gl_rt L = recording ans" "gl_emit L = log_append"
    and "newRouter L J now now2 dur cfg = Inr gw" "gw r wh w = (res, w')"
    and "\<forall>r. hget (ReqHeader r) ''X-Request-Id'' \<noteq> [] \<longrightarrow> svcReqID r = hget (ReqHeader r) ''X-Request-Id''"
  shows "\<exists>qs. nw_sent w' = nw_sent w @ qs \<and>
    (\<forall>q \<in> set qs. \<exists>line. nw_log w' = nw_log w @ [line] \<and>
       (lg_trace_id line \<noteq> [] \<longrightarrow> RespHeader res ''X-Request-Id'' = [lg_trace_id line] \<and>
          (''X-Request-Id'' \<notin> canon ` set (connection_tokens (ReqHeader r)) \<longrightarrow>
             request_id (svcReqID (o_req q)) (ReqHeader (o_req q)) = lg_trace_id line)))"
proof (rule observed_call [OF assms(1-6)])
  assume "nw_sent w' = nw_sent w"
  then show ?thesis by (intro exI [of _ "[]"]) simp
next
  fix T dir r1 line
  let ?real = "real_ip_request (trusted cfg) r"
  let ?r = "logged_request (gl_reqID L) ?real"
  assume s: "nw_sent w' = nw_sent w @ [proxied dir r1]" "nw_log w' = nw_log w @ [line]"
    and call: "gw_call J now cfg T ?r dir r1"
    and t: "lg_trace_id line = request_id (gl_reqID L ?real) (ReqHeader ?real)"
    and res: "lg_trace_id line \<noteq> [] \<longrightarrow> RespHeader res ''X-Request-Id'' = [lg_trace_id line]"
  have "request_id (svcReqID (o_req (proxied dir r1))) (ReqHeader (o_req (proxied dir r1))) = lg_trace_id line"
    if ne: "lg_trace_id line \<noteq> []" and nl: "''X-Request-Id'' \<notin> canon ` set (connection_tokens (ReqHeader r))"
  proof -
    have "ReqHeader ?r ''X-Request-Id'' = [lg_trace_id line]"
      using ne t by (simp add: logged_request_def Let_def hset_def)
    then have h: "ReqHeader r1 ''X-Request-Id'' = [lg_trace_id line]" using call_same(3) [OF call] by simp
    have c: "''X-Request-Id'' \<notin> canon ` set (connection_tokens (ReqHeader r1))"
      using nl unfolding call_connection [OF call] incoming_connection .
    obtain X where X: "dir = Director X \<or> dir = InternalDirector (internalToken cfg) (Director X)"
      using call_cases [OF call] by blast
    have d: "ReqHeader (o_req (proxied (Director X) r1)) ''X-Request-Id'' = [lg_trace_id line]"
      by (rule proxied_request_id [OF h ne c])
    have "ReqHeader (o_req (proxied dir r1)) ''X-Request-Id'' = [lg_trace_id line]"
      using X
    proof
      assume "dir = Director X"
      then show ?thesis using d by simp
    next
      assume "dir = InternalDirector (internalToken cfg) (Director X)"
      moreover have "''X-Request-Id'' \<noteq> ''X-Internal-Token''" by simp
      ultimately show ?thesis using d proxied_internal(4) by simp
    qed
    then have "hget (ReqHeader (o_req (proxied dir r1))) ''X-Request-Id'' = lg_trace_id line"
      by (simp add: hget_def)
    then show ?thesis using assms(7) ne by (simp add: request_id_def Let_def)
  qed
  then show ?thesis using s res by (intro exI [of _ "[proxied dir r1]"]) auto
qed

lemma trace_id_end_to_end_witness:
  "\<exists>res w' q. sample_gateway (liar ''GET'' ''t-ann'') no_header sample_net = (res, w') \<and> nw_sent w' = [q] \<and>
     RespHeader res ''X-Request-Id'' = [''id-1''] \<and>
     request_id (hget (ReqHeader (o_req q)) ''X-Request-Id'') (ReqHeader (o_req q)) = ''id-1''"
proof -
  let ?run = "sample_gateway (liar ''GET'' ''t-ann'') no_header sample_net"
  have s: "length (nw_sent (snd ?run)) = 1" "nw_sent sample_net = []" "nw_log sample_net = []"
    "map lg_trace_id (nw_log (snd ?run)) = [''id-1'']" "connection_tokens (ReqHeader (liar ''GET'' ''t-ann'')) = []"
    by code_simp+
  have run: "?run = (fst ?run, snd ?run)" by simp
  from s(1) obtain q where q: "nw_sent (snd ?run) = [q]" by (auto simp: length_Suc_conv)
  have chi: "\<forall>r. hget (ReqHeader r) ''X-Request-Id'' \<noteq> [] \<longrightarrow>
    (\<lambda>r. hget (ReqHeader r) ''X-Request-Id'') r = hget (ReqHeader r) ''X-Request-Id''" by simp
  from trace_id_end_to_end [OF sample_libs_ok sample_newRouter run chi] s q
  have "RespHeader (fst ?run) ''X-Request-Id'' = [''id-1'']"
    "request_id (hget (ReqHeader (o_req q)) ''X-Request-Id'') (ReqHeader (o_req q)) = ''id-1''" by auto
  then show ?thesis using q run by blast
qed

end
