(* ===== verification/Up_Storage.thy ===== *)
theory Up_Storage
  imports Up_Client
begin

text \<open>
  \<open>services/upload/internal/storage/minio.go\<close>: object storage as the upload service uses it. The
  MinIO client library is a parameter, a record of its calls over a state \<open>'s\<close>; the documented
  behaviour of S3 that the proofs use is the predicate \<open>s3_docs\<close>. Main results: \<open>FindUploadID\<close>
  returns the session of this key that started last, and the page loop of \<open>ListParts\<close> returns
  all parts in order within eleven calls.
\<close>

subsection \<open>The client library\<close>

record multipart_upload =
  mu_Key :: string
  mu_UploadID :: string
  mu_Initiated :: int

record MultipartPart =
  PartNumber :: int
  PartSize :: int
  ETag :: string

record parts_page =
  ObjectParts :: "MultipartPart list"
  IsTruncated :: bool
  NextPartNumberMarker :: int

text \<open>
  The arguments are those of the calls, bucket and key first. \<open>mn_get\<close> opens an object; reading
  it to its end may still fail. A signer is a client bound to an endpoint: \<open>mn_new\<close> is
  \<open>minio.New(endpoint, secure)\<close> with the fixed region, and \<open>url_Parse\<close> gives the scheme and the
  host of a URL.
\<close>

record signer =
  sg_put :: "string \<Rightarrow> string \<Rightarrow> int \<Rightarrow> go_error + string"
  sg_part :: "string \<Rightarrow> string \<Rightarrow> int \<Rightarrow> (string \<times> string) list \<Rightarrow> go_error + string"

record 's minio =
  mn_put :: "string \<Rightarrow> string \<Rightarrow> string \<Rightarrow> int \<Rightarrow> string \<Rightarrow> (unit, 's) eff"
  mn_stat :: "string \<Rightarrow> string \<Rightarrow> (int \<times> string, 's) eff"
  mn_get :: "string \<Rightarrow> string \<Rightarrow> (go_error + string, 's) eff"
  mn_remove :: "string \<Rightarrow> string \<Rightarrow> (unit, 's) eff"
  mn_new_upload :: "string \<Rightarrow> string \<Rightarrow> string \<Rightarrow> (string, 's) eff"
  mn_list_uploads :: "string \<Rightarrow> string \<Rightarrow> int \<Rightarrow> (multipart_upload list, 's) eff"
  mn_list_parts :: "string \<Rightarrow> string \<Rightarrow> string \<Rightarrow> int \<Rightarrow> int \<Rightarrow> (parts_page, 's) eff"
  mn_complete :: "string \<Rightarrow> string \<Rightarrow> string \<Rightarrow> (int \<times> string) list \<Rightarrow> (int, 's) eff"
  mn_abort :: "string \<Rightarrow> string \<Rightarrow> string \<Rightarrow> (unit, 's) eff"
  mn_signer :: signer
  mn_new :: "string \<Rightarrow> bool \<Rightarrow> go_error + signer"
  url_Parse :: "string \<Rightarrow> (string \<times> string) option"
  url_with_host :: "string \<Rightarrow> string \<Rightarrow> string \<Rightarrow> string option"

record 's UpMinioClient =
  um_client :: "'s minio"
  um_bucket :: string

subsection \<open>Objects\<close>

definition ctx_err :: "string \<Rightarrow> string \<Rightarrow> (go_error + 'a) \<times> 's \<Rightarrow> (go_error + 'a) \<times> 's" where
  "ctx_err op key r =
     (case r of (Inl err, s) \<Rightarrow> (Inl (wrapf (op @ '' '' @ key) err), s) | (Inr x, s) \<Rightarrow> (Inr x, s))"

definition up_PutObject :: "'s UpMinioClient \<Rightarrow> string \<Rightarrow> string \<Rightarrow> int \<Rightarrow> string \<Rightarrow> (unit, 's) eff" where
  "up_PutObject m key data n contentType s =
     ctx_err ''put object'' key (mn_put (um_client m) (um_bucket m) key data n contentType s)"

definition up_StatObjectInfo :: "'s UpMinioClient \<Rightarrow> string \<Rightarrow> (int \<times> string, 's) eff" where
  "up_StatObjectInfo m key s = ctx_err ''stat'' key (mn_stat (um_client m) (um_bucket m) key s)"

definition up_StatObjectSize :: "'s UpMinioClient \<Rightarrow> string \<Rightarrow> (int, 's) eff" where
  "up_StatObjectSize m key s =
     (case up_StatObjectInfo m key s of (Inl err, s) \<Rightarrow> (Inl err, s) | (Inr (n, _), s) \<Rightarrow> (Inr n, s))"

definition up_StatObject :: "'s UpMinioClient \<Rightarrow> string \<Rightarrow> 's \<Rightarrow> go_error option \<times> 's" where
  "up_StatObject m key s =
     (case up_StatObjectInfo m key s of (Inl err, s) \<Rightarrow> (Some err, s) | (Inr _, s) \<Rightarrow> (None, s))"

definition up_GetObject :: "'s UpMinioClient \<Rightarrow> string \<Rightarrow> (go_error + string, 's) eff" where
  "up_GetObject m key s = ctx_err ''get'' key (mn_get (um_client m) (um_bucket m) key s)"

definition up_RemoveObject :: "'s UpMinioClient \<Rightarrow> string \<Rightarrow> (unit, 's) eff" where
  "up_RemoveObject m key s = ctx_err ''remove'' key (mn_remove (um_client m) (um_bucket m) key s)"

subsection \<open>Presigning\<close>

definition up_PresignedPutObject :: "'s UpMinioClient \<Rightarrow> string \<Rightarrow> int \<Rightarrow> go_error + string" where
  "up_PresignedPutObject m key expires =
     (case sg_put (mn_signer (um_client m)) (um_bucket m) key expires of
        Inl err \<Rightarrow> Inl (wrapf (''presign put '' @ key) err) | Inr u \<Rightarrow> Inr u)"

definition up_PresignedPutObjectExternal ::
  "'s UpMinioClient \<Rightarrow> string \<Rightarrow> int \<Rightarrow> string \<Rightarrow> go_error + string" where
  "up_PresignedPutObjectExternal m key expires publicEndpoint =
     (if publicEndpoint = [] then up_PresignedPutObject m key expires
      else (case url_Parse (um_client m) publicEndpoint of
          None \<Rightarrow> up_PresignedPutObject m key expires
        | Some (scheme, host) \<Rightarrow>
            if host = [] then up_PresignedPutObject m key expires
            else (case mn_new (um_client m) host (scheme = ''https'') of
                Inl _ \<Rightarrow>
                  (case up_PresignedPutObject m key expires of
                     Inl err2 \<Rightarrow> Inl err2
                   | Inr u \<Rightarrow> (case url_with_host (um_client m) u scheme host of
                        Some u' \<Rightarrow> Inr u' | None \<Rightarrow> Inr u))
              | Inr tmp \<Rightarrow>
                  (case sg_put tmp (um_bucket m) key expires of
                     Inl err \<Rightarrow> Inl (wrapf (''presign put '' @ key) err) | Inr u \<Rightarrow> Inr u))))"

definition publicClient :: "'s UpMinioClient \<Rightarrow> string \<Rightarrow> go_error + signer" where
  "publicClient m publicEndpoint =
     (if publicEndpoint = [] then Inr (mn_signer (um_client m))
      else (case url_Parse (um_client m) publicEndpoint of
          None \<Rightarrow> Inr (mn_signer (um_client m))
        | Some (scheme, host) \<Rightarrow>
            if host = [] then Inr (mn_signer (um_client m))
            else (case mn_new (um_client m) host (scheme = ''https'') of
                Inl err \<Rightarrow> Inl (wrapf (''public client '' @ publicEndpoint) err)
              | Inr tmp \<Rightarrow> Inr tmp)))"

definition up_PresignPart ::
  "'s UpMinioClient \<Rightarrow> string \<Rightarrow> string \<Rightarrow> int \<Rightarrow> int \<Rightarrow> string \<Rightarrow> go_error + string" where
  "up_PresignPart m key uploadID partNumber expires publicEndpoint =
     (case publicClient m publicEndpoint of
        Inl err \<Rightarrow> Inl err
      | Inr cl \<Rightarrow>
          (case sg_part cl (um_bucket m) key expires
                  [(''partNumber'', Itoa partNumber), (''uploadId'', uploadID)] of
             Inl err \<Rightarrow> Inl (wrapf (''presign part '' @ Itoa partNumber @ '' '' @ key) err)
           | Inr u \<Rightarrow> Inr u))"

subsection \<open>Multipart sessions\<close>

definition up_CreateMultipartUpload :: "'s UpMinioClient \<Rightarrow> string \<Rightarrow> string \<Rightarrow> (string, 's) eff" where
  "up_CreateMultipartUpload m key contentType s =
     (let contentType = (if contentType = [] then ''video/mp4'' else contentType)
      in ctx_err ''create multipart upload'' key (mn_new_upload (um_client m) (um_bucket m) key contentType s))"

text \<open>The loop of \<open>FindUploadID\<close>: the latest session so far and when it started.\<close>

fun latest_upload :: "string \<Rightarrow> multipart_upload list \<Rightarrow> string \<Rightarrow> int \<Rightarrow> string" where
  "latest_upload key [] latest initiated = latest"
| "latest_upload key (u # us) latest initiated =
     (if mu_Key u \<noteq> key then latest_upload key us latest initiated
      else if latest = [] \<or> initiated < mu_Initiated u
      then latest_upload key us (mu_UploadID u) (mu_Initiated u)
      else latest_upload key us latest initiated)"

definition up_FindUploadID :: "'s UpMinioClient \<Rightarrow> string \<Rightarrow> (string, 's) eff" where
  "up_FindUploadID m key s =
     (case mn_list_uploads (um_client m) (um_bucket m) key 1000 s of
        (Inl err, s) \<Rightarrow> (Inl (wrapf (''list multipart uploads '' @ key) err), s)
      | (Inr uploads, s) \<Rightarrow>
          (let latest = latest_upload key uploads [] 0
           in if latest = [] then (Inl (Err (''multipart upload not found for '' @ key)), s)
              else (Inr latest, s)))"

definition up_AbortMultipartUpload :: "'s UpMinioClient \<Rightarrow> string \<Rightarrow> string \<Rightarrow> (unit, 's) eff" where
  "up_AbortMultipartUpload m key uploadID s =
     ctx_err ''abort multipart upload'' key (mn_abort (um_client m) (um_bucket m) key uploadID s)"

text \<open>
  The page loop of \<open>ListParts\<close>. It ends by itself or when the request's context does, which
  makes the next call fail: \<open>live\<close> is the number of calls that the context outlives.
\<close>

primrec list_parts_loop ::
  "'s UpMinioClient \<Rightarrow> string \<Rightarrow> string \<Rightarrow> nat \<Rightarrow> int \<Rightarrow> MultipartPart list \<Rightarrow> (MultipartPart list, 's) eff" where
  "list_parts_loop m key uploadID 0 marker parts s =
     (Inl (wrapf (''list parts '' @ key) (Err ''context canceled'')), s)"
| "list_parts_loop m key uploadID (Suc live) marker parts s =
     (case mn_list_parts (um_client m) (um_bucket m) key uploadID marker 1000 s of
        (Inl err, s) \<Rightarrow> (Inl (wrapf (''list parts '' @ key) err), s)
      | (Inr res, s) \<Rightarrow>
          (let parts = parts @ ObjectParts res in
           if \<not> IsTruncated res \<or> ObjectParts res = [] then (Inr parts, s)
           else list_parts_loop m key uploadID live (NextPartNumberMarker res) parts s))"

definition up_ListParts :: "'s UpMinioClient \<Rightarrow> nat \<Rightarrow> string \<Rightarrow> string \<Rightarrow> (MultipartPart list, 's) eff" where
  "up_ListParts m live key uploadID s = list_parts_loop m key uploadID live 0 [] s"

definition up_CompleteMultipartUpload ::
  "'s UpMinioClient \<Rightarrow> string \<Rightarrow> string \<Rightarrow> MultipartPart list \<Rightarrow> (int, 's) eff" where
  "up_CompleteMultipartUpload m key uploadID parts s =
     (if parts = [] then (Inl (Err (''no parts uploaded for '' @ key)), s)
      else ctx_err ''complete multipart upload'' key
             (mn_complete (um_client m) (um_bucket m) key uploadID
                (map (\<lambda>p. (PartNumber p, ETag p)) parts) s))"

subsection \<open>The page loop\<close>

text \<open>
  S3's documentation of a listing of parts: it changes nothing, and a page holds the first
  \<open>n\<close> parts with a number above the marker, whether more follow, and the last number on it.
  \<open>pv s b k u\<close> is the list of the parts of an upload, ascending and numbered from 1 to 10000.
\<close>

type_synonym 's parts_view = "'s \<Rightarrow> string \<Rightarrow> string \<Rightarrow> string \<Rightarrow> MultipartPart list"

definition parts_ok :: "MultipartPart list \<Rightarrow> bool" where
  "parts_ok ps \<longleftrightarrow> sorted_wrt (<) (map PartNumber ps) \<and>
     list_all (\<lambda>p. 1 \<le> PartNumber p \<and> PartNumber p \<le> 10000) ps"

definition is_page :: "MultipartPart list \<Rightarrow> int \<Rightarrow> int \<Rightarrow> parts_page \<Rightarrow> bool" where
  "is_page ps marker n res \<longleftrightarrow>
     (let rest = filter (\<lambda>p. marker < PartNumber p) ps in
      ObjectParts res = take (nat n) rest \<and> (IsTruncated res \<longleftrightarrow> int (length rest) > n) \<and>
      (ObjectParts res \<noteq> [] \<longrightarrow> NextPartNumberMarker res = PartNumber (last (ObjectParts res))))"

definition lists_parts :: "'s minio \<Rightarrow> 's parts_view \<Rightarrow> bool" where
  "lists_parts C pv \<longleftrightarrow>
     (\<forall>b k u marker n s. parts_ok (pv s b k u) \<and>
        pv (snd (mn_list_parts C b k u marker n s)) = pv s \<and>
        (case fst (mn_list_parts C b k u marker n s) of
           Inl _ \<Rightarrow> True | Inr res \<Rightarrow> is_page (pv s b k u) marker n res))"

lemma filter_above:
  assumes "sorted_wrt (<) (map f xs)" "i < length xs"
  shows "filter (\<lambda>x. (f (xs ! i) :: int) < f x) xs = drop (Suc i) xs"
proof -
  have le: "\<not> f (xs ! i) < f x" if x: "x \<in> set (take (Suc i) xs)" for x
  proof -
    from x obtain j where j: "j \<le> i" "x = xs ! j" using assms(2) by (auto simp: in_set_conv_nth less_Suc_eq_le)
    then show ?thesis using assms sorted_wrt_nth_less [OF assms(1), of j i] by (cases "j = i") auto
  qed
  have gt: "f (xs ! i) < f x" if x: "x \<in> set (drop (Suc i) xs)" for x
  proof -
    from x obtain l where l: "l < length xs - Suc i" "x = xs ! (Suc i + l)" by (auto simp: in_set_conv_nth)
    then obtain j where j: "i < j" "j < length xs" "x = xs ! j" by (intro that [of "Suc i + l"]) auto
    then show ?thesis using sorted_wrt_nth_less [OF assms(1), of i j] by simp
  qed
  have "filter (\<lambda>x. f (xs ! i) < f x) (take (Suc i) xs @ drop (Suc i) xs) = drop (Suc i) xs"
    unfolding filter_append using le gt by (simp add: filter_empty_conv filter_id_conv)
  then show ?thesis by simp
qed

text \<open>After a full page the loop stands behind its last part.\<close>

lemma next_page:
  assumes ps: "parts_ok ps" and rest: "filter (\<lambda>p. marker < PartNumber p) ps = drop k ps"
    and page: "is_page ps marker 1000 res" and more: "IsTruncated res"
  shows "ObjectParts res = take 1000 (drop k ps)" "k + 1000 < length ps"
    "filter (\<lambda>p. NextPartNumberMarker res < PartNumber p) ps = drop (k + 1000) ps"
proof -
  show op: "ObjectParts res = take 1000 (drop k ps)" using page rest by (simp add: is_page_def Let_def)
  show len: "k + 1000 < length ps" using page more rest by (auto simp: is_page_def Let_def)
  have l: "last (take 1000 (drop k ps)) = ps ! (k + 999)"
    using len by (subst last_conv_nth) (auto simp: min_def add.commute)
  have "ObjectParts res \<noteq> []" unfolding op using len by auto
  then have "NextPartNumberMarker res = PartNumber (ps ! (k + 999))"
    using page l by (simp add: is_page_def Let_def op)
  then show "filter (\<lambda>p. NextPartNumberMarker res < PartNumber p) ps = drop (k + 1000) ps"
    using filter_above [of PartNumber ps "k + 999"] ps len by (simp add: parts_ok_def add.commute)
qed

lemma list_parts_loop_complete:
  assumes docs: "lists_parts (um_client m) pv"
  shows "\<lbrakk>pv s (um_bucket m) key u = ps; filter (\<lambda>p. marker < PartNumber p) ps = drop k ps;
      length ps \<le> 1000 * live + k; 1 \<le> live;
      list_parts_loop m key u live marker (take k ps) s = (r, s')\<rbrakk>
    \<Longrightarrow> pv s' = pv s \<and> (case r of Inr qs \<Rightarrow> qs = ps
        | Inl err \<Rightarrow> \<exists>e mk s1. err = wrapf (''list parts '' @ key) e \<and>
            fst (mn_list_parts (um_client m) (um_bucket m) key u mk 1000 s1) = Inl e)"
proof (induction live arbitrary: marker k s)
  case 0
  then show ?case by simp
next
  case (Suc live)
  let ?call = "mn_list_parts (um_client m) (um_bucket m) key u marker 1000 s"
  obtain a s1 where call: "?call = (a, s1)" by (rule that, rule surjective_pairing)
  have d: "parts_ok ps" "pv s1 = pv s"
    and page: "\<And>res. a = Inr res \<Longrightarrow> is_page ps marker 1000 res"
    using docs [unfolded lists_parts_def, rule_format, of s "um_bucket m" key u marker 1000] Suc.prems(1)
    by (auto simp: call)
  show ?case
  proof (cases a)
    case (Inl e)
    then have "r = Inl (wrapf (''list parts '' @ key) e)" "s' = s1"
      using Suc.prems(5) call by auto
    moreover have "fst ?call = Inl e" using call Inl by simp
    ultimately show ?thesis using d(2) by (simp, blast)
  next
    case (Inr res)
    note pg = page [OF Inr]
    have op: "ObjectParts res = take 1000 (drop k ps)"
      using pg Suc.prems(2) by (simp add: is_page_def Let_def)
    show ?thesis
    proof (cases "\<not> IsTruncated res \<or> ObjectParts res = []")
      case True
      have "length ps \<le> k + 1000"
        using True pg Suc.prems(2) op by (auto simp: is_page_def Let_def)
      then have "take k ps @ ObjectParts res = ps" using op by simp
      then have "r = Inr ps" "s' = s1" using Suc.prems(5) call Inr True by auto
      then show ?thesis using d(2) by simp
    next
      case False
      then have more: "IsTruncated res" by simp
      note n = next_page [OF d(1) Suc.prems(2) pg more]
      have "take k ps @ ObjectParts res = take (k + 1000) ps" unfolding n(1) by (simp add: take_add)
      then have "list_parts_loop m key u live (NextPartNumberMarker res) (take (k + 1000) ps) s1 = (r, s')"
        using Suc.prems(5) call Inr False by simp
      moreover have "1 \<le> live" "length ps \<le> 1000 * live + (k + 1000)"
        using n(2) Suc.prems(3) by (cases live; simp)+
      ultimately show ?thesis
        using Suc.IH [of s1 "NextPartNumberMarker res" "k + 1000"] n(3) d(2) Suc.prems(1) by simp
    qed
  qed
qed

lemma parts_ok_length: "parts_ok ps \<Longrightarrow> length ps \<le> 10000"
proof -
  assume ok: "parts_ok ps"
  then have "distinct (map PartNumber ps)"
    by (auto simp: parts_ok_def strict_sorted_iff)
  then have "length ps = card (set (map PartNumber ps))" by (metis distinct_card length_map)
  also have "\<dots> \<le> card {1..10000::int}"
    using ok by (intro card_mono) (auto simp: parts_ok_def list_all_iff)
  finally show ?thesis by simp
qed

text \<open>What the loop of \<open>FindUploadID\<close> keeps: the best session among those seen.\<close>

lemma latest_upload_seen:
  "\<lbrakk>\<forall>u \<in> set us. mu_Key u = key \<longrightarrow> mu_UploadID u \<noteq> [];
    latest \<noteq> [] \<Longrightarrow> \<exists>x \<in> S. mu_UploadID x = latest \<and> mu_Initiated x = initiated;
    latest = [] \<Longrightarrow> S = {}; \<forall>x \<in> S. mu_Initiated x \<le> initiated;
    R = S \<union> {u \<in> set us. mu_Key u = key}\<rbrakk>
   \<Longrightarrow> (latest_upload key us latest initiated = [] \<longleftrightarrow> R = {}) \<and>
      (latest_upload key us latest initiated \<noteq> [] \<longrightarrow>
         (\<exists>x \<in> R. mu_UploadID x = latest_upload key us latest initiated \<and> (\<forall>y \<in> R. mu_Initiated y \<le> mu_Initiated x)))"
proof (induction key us latest initiated arbitrary: S rule: latest_upload.induct)
  case (1 key latest initiated)
  then show ?case by auto
next
  case (2 key u us latest initiated)
  show ?case
  proof (cases "mu_Key u = key \<and> (latest = [] \<or> initiated < mu_Initiated u)")
    case True
    have "mu_UploadID u \<noteq> []" using 2(4) True by simp
    then have "(latest_upload key us (mu_UploadID u) (mu_Initiated u) = [] \<longleftrightarrow> R = {}) \<and>
      (latest_upload key us (mu_UploadID u) (mu_Initiated u) \<noteq> [] \<longrightarrow>
         (\<exists>x \<in> R. mu_UploadID x = latest_upload key us (mu_UploadID u) (mu_Initiated u) \<and>
            (\<forall>y \<in> R. mu_Initiated y \<le> mu_Initiated x)))"
      using 2(4-8) True by (intro "2.IH"(2) [of "insert u S"]) auto
    then show ?thesis using True by simp
  next
    case False
    then show ?thesis
    proof (cases "mu_Key u = key")
      case True
      with False have n: "latest \<noteq> []" "mu_Initiated u \<le> initiated" by auto
      have "(latest_upload key us latest initiated = [] \<longleftrightarrow> R = {}) \<and>
        (latest_upload key us latest initiated \<noteq> [] \<longrightarrow>
         (\<exists>x \<in> R. mu_UploadID x = latest_upload key us latest initiated \<and>
            (\<forall>y \<in> R. mu_Initiated y \<le> mu_Initiated x)))"
        using 2(4-8) True n by (intro "2.IH"(3) [of "insert u S"]) auto
      then show ?thesis using True False by simp
    next
      case neq: False
      have "(latest_upload key us latest initiated = [] \<longleftrightarrow> R = {}) \<and>
        (latest_upload key us latest initiated \<noteq> [] \<longrightarrow>
         (\<exists>x \<in> R. mu_UploadID x = latest_upload key us latest initiated \<and>
            (\<forall>y \<in> R. mu_Initiated y \<le> mu_Initiated x)))"
        using 2(4-8) neq by (intro "2.IH"(1) [of S]) auto
      then show ?thesis using neq by simp
    qed
  qed
qed

subsection \<open>An object store in memory\<close>

text \<open>What the witnesses run on: one bucket, with its objects, open sessions and parts.\<close>

record mem_s3 =
  ms_objs :: "(string \<times> string \<times> string) list"
  ms_uploads :: "multipart_upload list"
  ms_parts :: "(string \<times> MultipartPart list) list"

definition ms_page :: "MultipartPart list \<Rightarrow> int \<Rightarrow> int \<Rightarrow> parts_page" where
  "ms_page ps marker n =
     (let rest = filter (\<lambda>p. marker < PartNumber p) ps; page = take (nat n) rest
      in \<lparr>ObjectParts = page, IsTruncated = (n < int (length rest)),
          NextPartNumberMarker = (if page = [] then 0 else PartNumber (last page))\<rparr>)"

definition mem_minio :: "mem_s3 minio" where
  "mem_minio =
     \<lparr>mn_put = (\<lambda>b k d n ct s. (Inr (), s\<lparr>ms_objs := gmap_set k (d, ct) (ms_objs s)\<rparr>)),
      mn_stat = (\<lambda>b k s. (case map_of (ms_objs s) k of
         Some (d, ct) \<Rightarrow> Inr (int (length d), ct) | None \<Rightarrow> Inl (Err ''The specified key does not exist.''), s)),
      mn_get = (\<lambda>b k s. (case map_of (ms_objs s) k of
         Some (d, ct) \<Rightarrow> Inr (Inr d) | None \<Rightarrow> Inr (Inl (Err ''The specified key does not exist.'')), s)),
      mn_remove = (\<lambda>b k s. (Inr (), s\<lparr>ms_objs := gmap_del k (ms_objs s)\<rparr>)),
      mn_new_upload = (\<lambda>b k ct s. (Inr ''u-new'',
         s\<lparr>ms_uploads := \<lparr>mu_Key = k, mu_UploadID = ''u-new'', mu_Initiated = int (length (ms_uploads s))\<rparr> # ms_uploads s\<rparr>)),
      mn_list_uploads = (\<lambda>b pre n s. (Inr (take (nat n) (filter (\<lambda>u. HasPrefix (mu_Key u) pre) (ms_uploads s))), s)),
      mn_list_parts = (\<lambda>b k u marker n s.
         (Inr (ms_page (case map_of (ms_parts s) u of Some ps \<Rightarrow> if parts_ok ps then ps else [] | None \<Rightarrow> []) marker n), s)),
      mn_complete = (\<lambda>b k u ps s. (Inl (Err ''NoSuchUpload''), s)),
      mn_abort = (\<lambda>b k u s. (Inr (), s\<lparr>ms_uploads := filter (\<lambda>v. mu_UploadID v \<noteq> u) (ms_uploads s)\<rparr>)),
      mn_signer = \<lparr>sg_put = (\<lambda>b k e. Inr (''http://minio/'' @ k)), sg_part = (\<lambda>b k e q. Inr (''http://minio/'' @ k))\<rparr>,
      mn_new = (\<lambda>e sec. Inl (Err ''no endpoint'')), url_Parse = (\<lambda>u. None), url_with_host = (\<lambda>u s h. None)\<rparr>"

definition mem_parts :: "mem_s3 parts_view" where
  "mem_parts s b k u = (case map_of (ms_parts s) u of Some ps \<Rightarrow> if parts_ok ps then ps else [] | None \<Rightarrow> [])"

lemma mem_lists_parts: "lists_parts mem_minio mem_parts"
proof -
  have p: "is_page ps marker n (ms_page ps marker n)" for ps marker n
    by (auto simp: is_page_def ms_page_def Let_def)
  have ok: "parts_ok (mem_parts s b k u)" for s b k u
    by (auto simp: mem_parts_def parts_ok_def split: option.split)
  have "mn_list_parts mem_minio b k u marker n s = (Inr (ms_page (mem_parts s b k u) marker n), s)" for b k u marker n s
    by (simp add: mem_minio_def mem_parts_def)
  then show ?thesis using p ok by (simp add: lists_parts_def)
qed

definition mem_client :: "mem_s3 UpMinioClient" where
  "mem_client = \<lparr>um_client = mem_minio, um_bucket = ''videos''\<rparr>"

definition sample_s3 :: mem_s3 where
  "sample_s3 =
     \<lparr>ms_objs = [(''raw/v1/original.mp4'', ''abc'', ''video/mp4'')],
      ms_uploads = [\<lparr>mu_Key = ''raw/v2/original.mp4'', mu_UploadID = ''u1'', mu_Initiated = 5\<rparr>,
                    \<lparr>mu_Key = ''raw/v2/original.mp4'', mu_UploadID = ''u2'', mu_Initiated = 9\<rparr>],
      ms_parts = [(''u2'', [\<lparr>PartNumber = 1, PartSize = 8388608, ETag = ''e1''\<rparr>,
                          \<lparr>PartNumber = 2, PartSize = 10, ETag = ''e2''\<rparr>])]\<rparr>"

subsection \<open>Properties\<close>

text \<open>C38: the listing of parts is complete: when the request's context lasts for ten calls, \<open>ListParts\<close>
  returns all the parts of the session, in the order of their numbers, however many pages the
  server makes of them, or the error of a call that the server failed; it changes nothing.\<close>

theorem ListParts_all:
  assumes "lists_parts (um_client m) pv" "10 \<le> live" "up_ListParts m live key u s = (r, s')"
  shows "pv s' = pv s \<and> (case r of Inr ps \<Rightarrow> ps = pv s (um_bucket m) key u
    | Inl err \<Rightarrow> \<exists>e marker s1. err = wrapf (''list parts '' @ key) e \<and>
        fst (mn_list_parts (um_client m) (um_bucket m) key u marker 1000 s1) = Inl e)"
proof -
  let ?ps = "pv s (um_bucket m) key u"
  have ok: "parts_ok ?ps" using assms(1) by (simp add: lists_parts_def)
  then have "filter (\<lambda>p. 0 < PartNumber p) ?ps = ?ps"
    by (auto simp: parts_ok_def list_all_iff filter_id_conv)
  moreover have "length ?ps \<le> 1000 * live" using parts_ok_length [OF ok] assms(2) by simp
  ultimately show ?thesis
    using list_parts_loop_complete [OF assms(1), of s key u ?ps 0 0 live r s'] assms(2,3)
    by (simp add: up_ListParts_def)
qed

lemma ListParts_all_witness:
  "up_ListParts mem_client 10 ''raw/v2/original.mp4'' ''u2'' sample_s3 =
     (Inr (mem_parts sample_s3 ''videos'' ''raw/v2/original.mp4'' ''u2''), sample_s3) \<and>
   length (mem_parts sample_s3 ''videos'' ''raw/v2/original.mp4'' ''u2'') = 2"
proof -
  let ?run = "up_ListParts mem_client 10 ''raw/v2/original.mp4'' ''u2'' sample_s3"
  let ?ps = "mem_parts sample_s3 ''videos'' ''raw/v2/original.mp4'' ''u2''"
  have c: "length ?ps = 2" "snd ?run = sample_s3"
    "(case fst ?run of Inr ps \<Rightarrow> True | Inl err \<Rightarrow> False)" by code_simp+
  have m: "um_client mem_client = mem_minio" "um_bucket mem_client = ''videos''" by (simp_all add: mem_client_def)
  have run: "?run = (fst ?run, snd ?run)" by simp
  from ListParts_all [of mem_client mem_parts 10, unfolded m, OF mem_lists_parts _ run] c
  have "fst ?run = Inr ?ps" by (auto split: sum.splits)
  then show ?thesis using c run by simp
qed

text \<open>The session that a resumed upload binds to: of the open sessions that the server lists,
  \<open>FindUploadID\<close> returns one of exactly this key (not of a key it is a prefix of) that no other
  session of the key started after; it reports none only if there is none.\<close>

lemma FindUploadID_latest:
  assumes "mn_list_uploads (um_client m) (um_bucket m) key 1000 s = (Inr us, s')"
    and "\<forall>u \<in> set us. mu_UploadID u \<noteq> []"
  shows "snd (up_FindUploadID m key s) = s' \<and>
    (case fst (up_FindUploadID m key s) of
       Inr i \<Rightarrow> \<exists>u \<in> set us. mu_Key u = key \<and> mu_UploadID u = i \<and>
         (\<forall>v \<in> set us. mu_Key v = key \<longrightarrow> mu_Initiated v \<le> mu_Initiated u)
     | Inl err \<Rightarrow> \<forall>u \<in> set us. mu_Key u \<noteq> key)"
  using latest_upload_seen [of us key "[]" "{}" 0] assms
  by (auto simp: up_FindUploadID_def Let_def)

lemma FindUploadID_latest_witness:
  "fst (up_FindUploadID mem_client ''raw/v2/original.mp4'' sample_s3) = Inr ''u2'' \<and>
   (\<exists>u \<in> set (ms_uploads sample_s3). mu_UploadID u = ''u2'' \<and>
      (\<forall>v \<in> set (ms_uploads sample_s3). mu_Key v = ''raw/v2/original.mp4'' \<longrightarrow> mu_Initiated v \<le> mu_Initiated u))"
proof -
  let ?l = "mn_list_uploads (um_client mem_client) (um_bucket mem_client) ''raw/v2/original.mp4'' 1000 sample_s3"
  have c: "fst (up_FindUploadID mem_client ''raw/v2/original.mp4'' sample_s3) = Inr ''u2''"
    "?l = (Inr (ms_uploads sample_s3), sample_s3)" by code_simp+
  have "\<forall>u \<in> set (ms_uploads sample_s3). mu_UploadID u \<noteq> []" by (simp add: sample_s3_def)
  from FindUploadID_latest [OF c(2) this] c(1) show ?thesis by auto
qed

end
