(* ===== verification/Up_Handler.thy ===== *)
theory Up_Handler
  imports Up_Storage Pkg_Auth
begin

text \<open>
  \<open>services/upload/internal/handler\<close>: the HTTP handlers of the upload service. As in the code each
  handler works on the interfaces it is given, records of functions over a world \<open>'w\<close>; what the
  handlers rely on is stated in the locales of theory \<open>Up_Service\<close>, where the code's own clients
  are their interpretations.
\<close>

subsection \<open>The interfaces\<close>

type_synonym 'w PublisherI = "json \<Rightarrow> 'w \<Rightarrow> go_error option \<times> 'w"

type_synonym 'w MetadataCreator = "string \<Rightarrow> string \<Rightarrow> string \<Rightarrow> (string, 'w) eff"

type_synonym 'w OwnershipChecker = "string \<Rightarrow> (string, 'w) eff"

text \<open>\<open>Storage\<close>, \<open>PresignStorage\<close>, \<open>MultipartStorage\<close> and \<open>ResumableStorage\<close>: \<open>*MinioClient\<close> has all
  their methods, so one record holds them; signing has no effect on the world.\<close>

record 'w UploadStorage =
  us_PutObject :: "string \<Rightarrow> string \<Rightarrow> int \<Rightarrow> string \<Rightarrow> (unit, 'w) eff"
  us_PresignedPutObjectExternal :: "string \<Rightarrow> int \<Rightarrow> string \<Rightarrow> go_error + string"
  us_StatObjectInfo :: "string \<Rightarrow> (int \<times> string, 'w) eff"
  us_StatObjectSize :: "string \<Rightarrow> (int, 'w) eff"
  us_GetObject :: "string \<Rightarrow> (go_error + string, 'w) eff"
  us_CreateMultipartUpload :: "string \<Rightarrow> string \<Rightarrow> (string, 'w) eff"
  us_FindUploadID :: "string \<Rightarrow> (string, 'w) eff"
  us_ListParts :: "string \<Rightarrow> string \<Rightarrow> (MultipartPart list, 'w) eff"
  us_CompleteMultipartUpload :: "string \<Rightarrow> string \<Rightarrow> MultipartPart list \<Rightarrow> (int, 'w) eff"
  us_PresignPart :: "string \<Rightarrow> string \<Rightarrow> int \<Rightarrow> int \<Rightarrow> string \<Rightarrow> go_error + string"

text \<open>A handler's fields; \<open>uh_bytes\<close> is \<open>metrics.UploadBytes.Add\<close>.\<close>

record 'w UploadService =
  uh_storage :: "'w UploadStorage"
  uh_publisher :: "'w PublisherI"
  uh_metadata :: "'w MetadataCreator"
  uh_owner :: "'w OwnershipChecker"
  uh_bytes :: "int \<Rightarrow> 'w \<Rightarrow> 'w"

definition VideoUploadedEvent :: "string \<Rightarrow> string \<Rightarrow> string \<Rightarrow> json" where
  "VideoUploadedEvent videoID s3Key ownerID =
     JObj [(''video_id'', JStr videoID), (''s3_key'', JStr s3Key), (''owner_id'', JStr ownerID)]"

definition rawKey :: "string \<Rightarrow> string" where
  "rawKey videoID = ''raw/'' @ videoID @ ''/original.mp4''"

definition uploaded_json :: "string \<Rightarrow> string \<Rightarrow> json" where
  "uploaded_json videoID s3Key =
     JObj [(''id'', JStr videoID), (''s3_key'', JStr s3Key), (''status'', JStr ''uploaded'')]"

subsection \<open>Common pieces\<close>

definition bearer_token :: "request \<Rightarrow> string" where
  "bearer_token r =
     (let authHeader = hget (ReqHeader r) ''Authorization''
      in if length authHeader > 7 then drop 7 authHeader else [])"

definition upload_max_bytes :: "request \<Rightarrow> int" where
  "upload_max_bytes r =
     (let v = Getenv r ''UPLOAD_MAX_BYTES'' in
      if v \<noteq> [] \<and> snd (ParseInt v) \<and> 0 < fst (ParseInt v) then fst (ParseInt v) else 5368709120)"

definition too_large_msg :: "int \<Rightarrow> string" where
  "too_large_msg maxBytes = ''file too large (max '' @ Itoa maxBytes @ '' bytes)''"

definition allowedCT :: "string list" where
  "allowedCT = [''video/mp4'', ''video/quicktime'', ''video/x-matroska'', ''video/webm'', ''video/avi'',
     ''video/mov'', ''application/octet-stream'']"

definition isAllowedContentType :: "string \<Rightarrow> bool" where
  "isAllowedContentType ct =
     (let ct = (case IndexByte ct CHR '';'' of Some i \<Rightarrow> TrimSpace (take i ct) | None \<Rightarrow> ct);
          ct = ToLower (TrimSpace ct)
      in ct \<in> set allowedCT \<or> HasPrefix ct ''video/'')"

text \<open>\<open>requireOwnership\<close>: \<open>Inl\<close> is the response it wrote (the code returns false), \<open>Inr\<close> that it
  wrote none and returned true.\<close>

definition requireOwnership ::
  "'w OwnershipChecker \<Rightarrow> string \<Rightarrow> string \<Rightarrow> header \<Rightarrow> request \<Rightarrow> 'w \<Rightarrow> (response + unit) \<times> 'w" where
  "requireOwnership checker videoID userID wh r w =
     (case checker videoID w of
        (Inl err, w) \<Rightarrow>
          if Contains (Error err) ''404'' then (Inl (writeError wh r 404 ''video not found''), w)
          else (Inl (writeError wh r 502 ''metadata unavailable''), w)
      | (Inr owner, w) \<Rightarrow>
          if owner \<noteq> userID then (Inl (writeError wh r 403 ''forbidden''), w) else (Inr (), w))"

subsection \<open>upload.go\<close>

text \<open>\<open>FormValue\<close>: the query comes before the multipart form.\<close>

definition FormValue :: "request \<Rightarrow> mform \<Rightarrow> string \<Rightarrow> string" where
  "FormValue r f k =
     (case map_of (URLQuery r) k of Some v \<Rightarrow> v
      | None \<Rightarrow> (case map_of (form_values f) k of Some v \<Rightarrow> v | None \<Rightarrow> []))"

definition Upload :: "'w UploadService \<Rightarrow> 'w handler" where
  "Upload h r wh w =
     (let ownerID = UserIDFromCtx r; token = bearer_token r; maxBytes = upload_max_bytes r in
      case FormOf r maxBytes of
        Inl (MaxBytesError _) \<Rightarrow> (writeError wh r 413 (too_large_msg maxBytes), w)
      | Inl _ \<Rightarrow> (writeError wh r 400 ''invalid form'', w)
      | Inr form \<Rightarrow>
        (case form_file_of form of
           None \<Rightarrow> (writeError wh r 400 ''file required (field 'file')'', w)
         | Some file \<Rightarrow>
           if f_ctype file \<noteq> [] \<and> \<not> isAllowedContentType (f_ctype file)
           then (writeError wh r 400 (''unsupported content type: '' @ f_ctype file), w)
           else
             (let title = FormValue r form ''title'';
                  title = (if title = [] then f_name file else title);
                  title = (if title = [] then ''Untitled'' else title);
                  description = FormValue r form ''description''
              in case uh_metadata h token title description w of
                   (Inl err, w) \<Rightarrow> (writeError wh r 502 ''metadata unavailable'', w)
                 | (Inr videoID, w) \<Rightarrow>
                   (let s3Key = rawKey videoID;
                        contentType = (if f_ctype file = [] then ''video/mp4'' else f_ctype file)
                    in case us_PutObject (uh_storage h) s3Key (f_data file) (f_size file) contentType w of
                         (Inl err, w) \<Rightarrow>
                           if Contains (Error err) ''http: request body too large''
                           then (writeError wh r 413 ''file too large'', w)
                           else (writeError wh r 500 ''storage error'', w)
                       | (Inr _, w) \<Rightarrow>
                         (let w = (if 0 < f_size file then uh_bytes h (f_size file) w else w)
                          in case uh_publisher h (VideoUploadedEvent videoID s3Key ownerID) w of
                               (Some err, w) \<Rightarrow> (writeError wh r 500 ''queue error'', w)
                             | (None, w) \<Rightarrow> (WriteJSON wh r 201 (uploaded_json videoID s3Key), w))))))"

subsection \<open>presign.go\<close>

record presignRequest =
  pr_Title :: string
  pr_Description :: string
  pr_Filename :: string
  pr_ContentType :: string

definition decode_presign :: "json option \<Rightarrow> presignRequest option" where
  "decode_presign body =
     (case body of None \<Rightarrow> None
      | Some j \<Rightarrow> (case jmembers j of None \<Rightarrow> None
          | Some ms \<Rightarrow>
            (case (string_field ''title'' ms, string_field ''description'' ms,
                   string_field ''filename'' ms, string_field ''content_type'' ms) of
               (Some t, Some d, Some f, Some c) \<Rightarrow>
                 Some \<lparr>pr_Title = t, pr_Description = d, pr_Filename = f, pr_ContentType = c\<rparr>
             | _ \<Rightarrow> None)))"

definition presign_title :: "presignRequest \<Rightarrow> string" where
  "presign_title req =
     (let title = TrimSpace (pr_Title req);
          title = (if title = [] then TrimSpace (pr_Filename req) else title)
      in if title = [] then ''Untitled'' else title)"

definition publicEndpointFromEnv :: "request \<Rightarrow> string" where
  "publicEndpointFromEnv r =
     (if Getenv r ''MINIO_PUBLIC_ENDPOINT'' \<noteq> [] then Getenv r ''MINIO_PUBLIC_ENDPOINT''
      else Getenv r ''MINIO_EXTERNAL_URL'')"

definition time_Hour :: int where "time_Hour = 3600 * 1000000000"

definition Presign :: "'w UploadService \<Rightarrow> 'w handler" where
  "Presign h r wh w =
     (let token = bearer_token r in
      case decode_presign (BodyJSON r) of
        None \<Rightarrow> (writeError wh r 400 ''invalid body'', w)
      | Some req \<Rightarrow>
        (let title = presign_title req; ct = TrimSpace (pr_ContentType req) in
         if ct \<noteq> [] \<and> \<not> isAllowedContentType ct
         then (writeError wh r 400 (''unsupported content type: '' @ ct), w)
         else (case uh_metadata h token title (pr_Description req) w of
             (Inl err, w) \<Rightarrow> (writeError wh r 502 ''metadata unavailable'', w)
           | (Inr videoID, w) \<Rightarrow>
             (let s3Key = rawKey videoID in
              case us_PresignedPutObjectExternal (uh_storage h) s3Key time_Hour (publicEndpointFromEnv r) of
                Inl err \<Rightarrow> (writeError wh r 500 ''presign failed'', w)
              | Inr urlStr \<Rightarrow>
                (WriteJSON wh r 201 (JObj [(''id'', JStr videoID), (''video_id'', JStr videoID),
                   (''s3_key'', JStr s3Key), (''method'', JStr ''PUT''), (''url'', JStr urlStr),
                   (''expires_in'', JNum (Itoa 3600))]), w)))))"

text \<open>The checks of a stored object, and the event: the end of both \<open>Complete\<close> handlers.\<close>

definition verify_and_publish ::
  "'w UploadService \<Rightarrow> string \<Rightarrow> string \<Rightarrow> string \<Rightarrow> string \<Rightarrow> 'w handler" where
  "verify_and_publish h videoID s3Key ownerID notFound r wh w =
     (case us_StatObjectInfo (uh_storage h) s3Key w of
        (Inl err, w) \<Rightarrow> (writeError wh r 404 notFound, w)
      | (Inr (n, contentType), w) \<Rightarrow>
        if n = 0 then (writeError wh r 400 ''empty object'', w)
        else if contentType \<noteq> [] \<and> \<not> HasPrefix contentType ''video/''
        then (writeError wh r 400 (''unexpected content type: '' @ contentType), w)
        else (case uh_publisher h (VideoUploadedEvent videoID s3Key ownerID) (uh_bytes h 1 w) of
            (Some err, w) \<Rightarrow> (writeError wh r 500 ''queue error'', w)
          | (None, w) \<Rightarrow> (WriteJSON wh r 200 (uploaded_json videoID s3Key), w)))"

text \<open>The id of the path, or \<open>video_id\<close> of the body.\<close>

definition complete_id :: "request \<Rightarrow> string" where
  "complete_id r =
     (if UrlId r \<noteq> [] then UrlId r
      else (case decode_member ''video_id'' (BodyJSON r) of Inr i \<Rightarrow> i | Inl _ \<Rightarrow> []))"

definition Complete :: "'w UploadService \<Rightarrow> 'w handler" where
  "Complete h r wh w =
     (let ownerID = UserIDFromCtx r; videoID = complete_id r in
      if videoID = [] then (writeError wh r 400 ''video_id required'', w)
      else (case requireOwnership (uh_owner h) videoID ownerID wh r w of
          (Inl res, w) \<Rightarrow> (res, w)
        | (Inr _, w) \<Rightarrow>
          verify_and_publish h videoID (rawKey videoID) ownerID
            ''object not found, upload via presigned URL first'' r wh w))"

subsection \<open>multipart.go\<close>

definition MultipartChunkSize :: int where "MultipartChunkSize = 8388608"

definition maxPartNumber :: int where "maxPartNumber = 10000"

definition multipartKey :: "string \<Rightarrow> string" where
  "multipartKey videoID = ''raw/'' @ videoID @ ''/original.mp4''"

definition mp_Create :: "'w UploadService \<Rightarrow> 'w handler" where
  "mp_Create h r wh w =
     (let token = bearer_token r in
      case decode_presign (BodyJSON r) of
        None \<Rightarrow> (writeError wh r 400 ''invalid body'', w)
      | Some req \<Rightarrow>
        (let title = presign_title req; ct = TrimSpace (pr_ContentType req) in
         if ct \<noteq> [] \<and> \<not> isAllowedContentType ct
         then (writeError wh r 400 (''unsupported content type: '' @ ct), w)
         else (case uh_metadata h token title (pr_Description req) w of
             (Inl err, w) \<Rightarrow> (writeError wh r 502 ''metadata unavailable'', w)
           | (Inr videoID, w) \<Rightarrow>
             (let key = multipartKey videoID in
              case us_CreateMultipartUpload (uh_storage h) key ct w of
                (Inl err, w) \<Rightarrow> (writeError wh r 500 ''create multipart upload failed'', w)
              | (Inr uploadID, w) \<Rightarrow>
                (WriteJSON wh r 201 (JObj [(''id'', JStr videoID), (''video_id'', JStr videoID),
                   (''s3_key'', JStr key), (''upload_id'', JStr uploadID),
                   (''chunk_size'', JNum (Itoa MultipartChunkSize))]), w)))))"

text \<open>The multipart routes carry the id in the path; \<open>with_owned_id\<close> is their common beginning.\<close>

definition with_owned_id :: "'w UploadService \<Rightarrow> (string \<Rightarrow> 'w handler) \<Rightarrow> 'w handler" where
  "with_owned_id h body r wh w =
     (let videoID = UrlId r in
      if videoID = [] then (writeError wh r 400 ''video_id required'', w)
      else (case requireOwnership (uh_owner h) videoID (UserIDFromCtx r) wh r w of
          (Inl res, w) \<Rightarrow> (res, w)
        | (Inr _, w) \<Rightarrow> body videoID r wh w))"

definition part_json :: "MultipartPart \<Rightarrow> json" where
  "part_json p = JObj [(''PartNumber'', JNum (Itoa (PartNumber p))), (''Size'', JNum (Itoa (PartSize p))),
     (''ETag'', JStr (ETag p))]"

definition mp_Parts :: "'w UploadService \<Rightarrow> 'w handler" where
  "mp_Parts h = with_owned_id h (\<lambda>videoID r wh w.
     (let key = multipartKey videoID in
      case us_FindUploadID (uh_storage h) key w of
        (Inl err, w) \<Rightarrow> (writeError wh r 404 ''multipart upload not found'', w)
      | (Inr uploadID, w) \<Rightarrow>
        (case us_ListParts (uh_storage h) key uploadID w of
           (Inl err, w) \<Rightarrow> (writeError wh r 500 ''list parts failed'', w)
         | (Inr parts, w) \<Rightarrow>
           (WriteJSON wh r 200 (JObj [(''video_id'', JStr videoID), (''upload_id'', JStr uploadID),
              (''chunk_size'', JNum (Itoa MultipartChunkSize)),
              (''parts'', if parts = [] then JNull else JArr (map part_json parts))]), w))))"

definition decode_part_number :: "json option \<Rightarrow> int option" where
  "decode_part_number body =
     (case body of None \<Rightarrow> None
      | Some j \<Rightarrow> (case jmembers j of None \<Rightarrow> None | Some ms \<Rightarrow> int_field ''part_number'' ms))"

definition mp_PresignPart :: "'w UploadService \<Rightarrow> 'w handler" where
  "mp_PresignPart h = with_owned_id h (\<lambda>videoID r wh w.
     (case decode_part_number (BodyJSON r) of
        None \<Rightarrow> (writeError wh r 400 ''invalid body'', w)
      | Some n \<Rightarrow>
        if n < 1 \<or> maxPartNumber < n
        then (writeError wh r 400 (''part_number must be in [1,'' @ Itoa maxPartNumber @ '']''), w)
        else
          (let key = multipartKey videoID in
           case us_FindUploadID (uh_storage h) key w of
             (Inl err, w) \<Rightarrow> (writeError wh r 404 ''multipart upload not found'', w)
           | (Inr uploadID, w) \<Rightarrow>
             (case us_PresignPart (uh_storage h) key uploadID n time_Hour (publicEndpointFromEnv r) of
                Inl err \<Rightarrow> (writeError wh r 500 ''presign part failed'', w)
              | Inr urlStr \<Rightarrow>
                (WriteJSON wh r 200 (JObj [(''part_number'', JNum (Itoa n)), (''url'', JStr urlStr),
                   (''expires_in'', JNum (Itoa 3600))]), w)))))"

definition mp_Complete :: "'w UploadService \<Rightarrow> 'w handler" where
  "mp_Complete h = with_owned_id h (\<lambda>videoID r wh w.
     (let ownerID = UserIDFromCtx r; key = multipartKey videoID in
      case us_FindUploadID (uh_storage h) key w of
        (Inl err, w) \<Rightarrow> (writeError wh r 404 ''multipart upload not found'', w)
      | (Inr uploadID, w) \<Rightarrow>
        (case us_ListParts (uh_storage h) key uploadID w of
           (Inl err, w) \<Rightarrow> (writeError wh r 500 ''list parts failed'', w)
         | (Inr parts, w) \<Rightarrow>
           if parts = [] then (writeError wh r 400 ''no parts uploaded'', w)
           else (case us_CompleteMultipartUpload (uh_storage h) key uploadID parts w of
               (Inl err, w) \<Rightarrow> (writeError wh r 500 ''complete multipart upload failed'', w)
             | (Inr _, w) \<Rightarrow>
               verify_and_publish h videoID key ownerID ''assembled object not found'' r wh w))))"

end
