(* ===== verification/Up_Resumable.thy ===== *)
theory Up_Resumable
  imports Up_Handler
begin

text \<open>
  \<open>services/upload/internal/handler/resumable.go\<close>: the upload of a file in chunks with
  \<open>Content-Range\<close>. Sizes and offsets are \<open>int64\<close>, their arithmetic wraps around. The main result:
  uploading the chunks of a file one after the other stores the file.
\<close>

subsection \<open>The header\<close>

text \<open>
  The expression \<open>^bytes (\d+)-(\d+)/(\d+|\*)$\<close>; no character after a run of digits in it is a
  digit, so the runs are maximal. The total is \<open>None\<close> for \<open>*\<close>. A number out of range is the
  largest \<open>int64\<close>, as the code ignores that error.
\<close>

definition span_digits :: "string \<Rightarrow> string \<times> string" where
  "span_digits s = (takeWhile is_digit s, dropWhile is_digit s)"

definition parseContentRange :: "string \<Rightarrow> (int \<times> int \<times> int option) option" where
  "parseContentRange v =
     (let v = TrimSpace v in
      if \<not> HasPrefix v ''bytes '' then None
      else (case span_digits (drop 6 v) of (m1, s1) \<Rightarrow>
        if m1 = [] \<or> \<not> HasPrefix s1 ''-'' then None
        else (case span_digits (drop 1 s1) of (m2, s2) \<Rightarrow>
          if m2 = [] \<or> \<not> HasPrefix s2 ''/'' then None
          else let s3 = drop 1 s2; s = fst (ParseInt m1); e = fst (ParseInt m2) in
            if s3 = ''*'' then Some (s, e, None)
            else if s3 \<noteq> [] \<and> list_all is_digit s3 then Some (s, e, Some (fst (ParseInt s3)))
            else None)))"

subsection \<open>The handlers\<close>

definition rs_Status :: "'w UploadService \<Rightarrow> 'w handler" where
  "rs_Status h = with_owned_id h (\<lambda>videoID r wh w.
     (case us_StatObjectSize (uh_storage h) (rawKey videoID) w of
        (res, w) \<Rightarrow>
          let n = (case res of Inl err \<Rightarrow> 0 | Inr n \<Rightarrow> n)
          in (WriteJSON wh r 200 (JObj [(''uploaded'', JNum (Itoa n))]), w)))"

definition content_type_or_mp4 :: "request \<Rightarrow> string" where
  "content_type_or_mp4 r =
     (let ct = hget (ReqHeader r) ''Content-Type'' in if ct = [] then ''video/mp4'' else ct)"

text \<open>A request without \<open>Content-Range\<close> stores the whole body.\<close>

definition rs_put_whole :: "'w UploadService \<Rightarrow> int \<Rightarrow> string \<Rightarrow> 'w handler" where
  "rs_put_whole h maxBytes key r wh w =
     (case read_all r maxBytes of
        Inl (MaxBytesError _) \<Rightarrow> (writeError wh r 413 (too_large_msg maxBytes), w)
      | Inl _ \<Rightarrow> (writeError wh r 400 ''read body'', w)
      | Inr data \<Rightarrow>
        (case us_PutObject (uh_storage h) key data (int (length data)) (content_type_or_mp4 r) w of
           (Inl err, w) \<Rightarrow> (writeError wh r 500 ''storage error'', w)
         | (Inr _, w) \<Rightarrow>
             (WriteJSON wh r 200 (JObj [(''status'', JStr ''ok''),
                (''uploaded'', JStr (Itoa (int (length data))))]), w)))"

text \<open>The object after the append: the chunk, or what is stored and the chunk.\<close>

definition rs_appended :: "'w UploadService \<Rightarrow> string \<Rightarrow> int \<Rightarrow> string \<Rightarrow> (string, 'w) eff" where
  "rs_appended h key existing chunk w =
     (if existing = 0 then (Inr chunk, w)
      else (case us_GetObject (uh_storage h) key w of
          (Inl err, w) \<Rightarrow> (Inl (Err ''get existing failed''), w)
        | (Inr (Inl err), w) \<Rightarrow> (Inl (Err ''read existing failed''), w)
        | (Inr (Inr existingData), w) \<Rightarrow> (Inr (existingData @ chunk), w)))"

definition range_header :: "header \<Rightarrow> int \<Rightarrow> header" where
  "range_header wh uploaded = hset wh ''Range'' (''bytes=0-'' @ Itoa (wrap64 (uploaded - 1)))"

definition rs_answer :: "int option \<Rightarrow> int \<Rightarrow> request \<Rightarrow> header \<Rightarrow> response" where
  "rs_answer tot uploaded r wh =
     (case tot of
        Some t \<Rightarrow>
          if uploaded = t
          then WriteJSON wh r 200 (JObj [(''status'', JStr ''complete''), (''total'', JNum (Itoa t)),
                 (''uploaded'', JNum (Itoa uploaded))])
          else if uploaded < t
          then WriteJSON (range_header wh uploaded) r 308 (JObj [(''status'', JStr ''resume''),
                 (''total'', JNum (Itoa t)), (''uploaded'', JNum (Itoa uploaded))])
          else WriteJSON (range_header wh uploaded) r 308
                 (JObj [(''status'', JStr ''resume''), (''uploaded'', JNum (Itoa uploaded))])
      | None \<Rightarrow> WriteJSON (range_header wh uploaded) r 308
                 (JObj [(''status'', JStr ''resume''), (''uploaded'', JNum (Itoa uploaded))]))"

definition rs_put_chunk ::
  "'w UploadService \<Rightarrow> int \<Rightarrow> string \<Rightarrow> int \<Rightarrow> int \<Rightarrow> int option \<Rightarrow> 'w handler" where
  "rs_put_chunk h maxBytes key s e tot r wh w =
     (let chunkSize = wrap64 (e - s + 1) in
      case us_StatObjectSize (uh_storage h) key w of (res, w) \<Rightarrow>
        let existing = (case res of Inl err \<Rightarrow> 0 | Inr n \<Rightarrow> n) in
        if s \<noteq> existing then
          (let wh = range_header wh existing;
               wh = (if existing = 0 then hset wh ''Range'' ''bytes=0-0'' else wh)
           in (WriteJSON wh r 416 (JObj [(''error'', JStr (''range mismatch: expected start '' @ Itoa existing
                 @ '' got '' @ Itoa s)), (''uploaded'', JNum (Itoa existing))]), w))
        else if maxBytes < wrap64 (existing + chunkSize)
        then (writeError wh r 413 (too_large_msg maxBytes), w)
        else (case read_limited r maxBytes (wrap64 (chunkSize + 1)) of
            Inl (MaxBytesError _) \<Rightarrow> (writeError wh r 413 (too_large_msg maxBytes), w)
          | Inl _ \<Rightarrow> (writeError wh r 400 ''read chunk'', w)
          | Inr chunk \<Rightarrow>
            if int (length chunk) \<noteq> chunkSize
            then (writeError wh r 400 (''chunk size mismatch: expected '' @ Itoa chunkSize @ '' got '' @
                    Itoa (int (length chunk))), w)
            else (case rs_appended h key existing chunk w of
                (Inl err, w) \<Rightarrow> (writeError wh r 500 (Error err), w)
              | (Inr toPut, w) \<Rightarrow>
                (case us_PutObject (uh_storage h) key toPut (int (length toPut)) (content_type_or_mp4 r) w of
                   (Inl err, w) \<Rightarrow> (writeError wh r 500 ''storage error'', w)
                 | (Inr _, w) \<Rightarrow> (rs_answer tot (int (length toPut)) r wh, w)))))"

definition rs_upload_body :: "'w UploadService \<Rightarrow> string \<Rightarrow> 'w handler" where
  "rs_upload_body h videoID r wh w =
     (let maxBytes = upload_max_bytes r; key = rawKey videoID; cr = hget (ReqHeader r) ''Content-Range'' in
      if cr = [] then rs_put_whole h maxBytes key r wh w
      else (case parseContentRange cr of
          None \<Rightarrow> (writeError wh r 400 ''invalid Content-Range'', w)
        | Some (s, e, tot) \<Rightarrow>
            if s < 0 \<or> e < s then (writeError wh r 400 ''invalid range'', w)
            else rs_put_chunk h maxBytes key s e tot r wh w))"

definition rs_Upload :: "'w UploadService \<Rightarrow> 'w handler" where
  "rs_Upload h = with_owned_id h (rs_upload_body h)"

subsection \<open>Writing and reading the header\<close>

text \<open>The header that a client writes for the bytes from \<open>s\<close> to \<open>e\<close> of \<open>n\<close>.\<close>

definition content_range :: "int \<Rightarrow> int \<Rightarrow> int option \<Rightarrow> string" where
  "content_range s e tot =
     ''bytes '' @ Itoa s @ ''-'' @ Itoa e @ ''/'' @ (case tot of Some t \<Rightarrow> Itoa t | None \<Rightarrow> ''*'')"

lemma span_digits_append:
  assumes "list_all is_digit ds" "s = [] \<or> \<not> is_digit (hd s)"
  shows "span_digits (ds @ s) = (ds, s)"
  using assms by (cases s) (auto simp: span_digits_def takeWhile_append dropWhile_append list_all_iff)

lemma Itoa_digit_text: "0 \<le> n \<Longrightarrow> list_all is_digit (Itoa n) \<and> Itoa n \<noteq> []"
  using dec_digits_correct [of n] by (simp add: Itoa_def)

lemma not_digit_seps: "\<not> is_digit CHR ''-''" "\<not> is_digit CHR ''/''" "\<not> is_digit CHR ''*''"
  by code_simp+

lemma dropWhile_id: "s \<noteq> [] \<Longrightarrow> \<not> P (hd s) \<Longrightarrow> dropWhile P s = s"
  by (cases s) auto

lemma TrimSpace_ends: "s \<noteq> [] \<Longrightarrow> \<not> is_space (hd s) \<Longrightarrow> \<not> is_space (last s) \<Longrightarrow> TrimSpace s = s"
  by (simp add: TrimSpace_def dropWhile_id hd_rev)

lemma digit_not_space: "is_digit c \<Longrightarrow> \<not> is_space c"
  by (auto simp: is_digit_def is_space_def)

lemma last_digits: "list_all is_digit ds \<Longrightarrow> ds \<noteq> [] \<Longrightarrow> is_digit (last ds)"
  by (auto simp: list_all_iff)

lemma parse_written:
  assumes "0 \<le> s" "s \<le> MaxInt64" "0 \<le> e" "e \<le> MaxInt64"
    and "case tot of Some t \<Rightarrow> 0 \<le> t \<and> t \<le> MaxInt64 | None \<Rightarrow> True"
  shows "parseContentRange (content_range s e tot) = Some (s, e, tot) \<and>
    parseContentRange (''bytes */'' @ Itoa s) = None"
proof -
  let ?t = "case tot of Some t \<Rightarrow> Itoa t | None \<Rightarrow> ''*''"
  note ds = Itoa_digit_text [OF assms(1)] Itoa_digit_text [OF assms(3)]
  have t: "?t \<noteq> []" "\<not> is_space (last ?t)"
  proof -
    have "\<not> is_space CHR ''*''" by code_simp
    then show "?t \<noteq> []" "\<not> is_space (last ?t)"
      using assms(5) Itoa_digit_text digit_not_space last_digits by (auto split: option.split)
  qed
  have b: "\<not> is_space CHR ''b''" by code_simp
  have trim: "TrimSpace (content_range s e tot) = content_range s e tot"
    using t b by (intro TrimSpace_ends) (auto simp: content_range_def)
  have s1: "span_digits (Itoa s @ ''-'' @ x) = (Itoa s, ''-'' @ x)" for x
    using ds not_digit_seps by (intro span_digits_append) auto
  have s2: "span_digits (Itoa e @ ''/'' @ x) = (Itoa e, ''/'' @ x)" for x
    using ds not_digit_seps by (intro span_digits_append) auto
  have p: "fst (ParseInt (Itoa s)) = s" "fst (ParseInt (Itoa e)) = e"
    using assms ParseInt_Itoa by simp_all
  have d: "drop 6 (content_range s e tot) = Itoa s @ ''-'' @ Itoa e @ ''/'' @ ?t"
    "HasPrefix (content_range s e tot) ''bytes ''"
    by (simp_all add: content_range_def HasPrefix_def)
  have "parseContentRange (content_range s e tot) = Some (s, e, tot)"
  proof (cases tot)
    case None
    then show ?thesis
      unfolding parseContentRange_def trim Let_def d s1 using ds s2 p d(2) None by (simp add: HasPrefix_def)
  next
    case (Some t)
    have "0 \<le> t" "t \<le> MaxInt64" using assms(5) Some by auto
    then have "list_all is_digit (Itoa t)" "Itoa t \<noteq> []" "fst (ParseInt (Itoa t)) = t"
      using Itoa_digit_text ParseInt_Itoa by auto
    moreover have "Itoa t \<noteq> ''*''" using calculation not_digit_seps by auto
    ultimately show ?thesis
      unfolding parseContentRange_def trim Let_def d s1 using ds s2 p d(2) Some by (simp add: HasPrefix_def)
  qed
  moreover have "parseContentRange (''bytes */'' @ Itoa s) = None"
  proof -
    have "TrimSpace (''bytes */'' @ Itoa s) = ''bytes */'' @ Itoa s"
      using ds b digit_not_space last_digits by (intro TrimSpace_ends) auto
    then show ?thesis using not_digit_seps by (simp add: parseContentRange_def span_digits_def Let_def)
  qed
  ultimately show ?thesis by blast
qed

text \<open>C37: the header round trip: the server reads from \<open>bytes start-end/total\<close>, or with \<open>*\<close> for
  the total, exactly the numbers that were written, for all offsets that fit an \<open>int64\<close>. The
  form \<open>bytes */total\<close>, which the comment above the expression lists, is not accepted.\<close>

theorem parseContentRange_roundtrip:
  assumes "0 \<le> s" "s \<le> MaxInt64" "0 \<le> e" "e \<le> MaxInt64"
    and "case tot of Some t \<Rightarrow> 0 \<le> t \<and> t \<le> MaxInt64 | None \<Rightarrow> True"
  shows "parseContentRange (content_range s e tot) = Some (s, e, tot) \<and>
    parseContentRange (''bytes */'' @ Itoa s) = None"
  using assms by (rule parse_written)

lemma parseContentRange_roundtrip_witness:
  "parseContentRange ''bytes 0-999/5000'' = Some (0, 999, Some 5000) \<and> parseContentRange ''bytes */5000'' = None"
proof -
  have c: "content_range 0 999 (Some 5000) = ''bytes 0-999/5000''" "Itoa 5000 = ''5000''" by code_simp+
  show ?thesis
    using parseContentRange_roundtrip [of 0 999 "Some 5000"] parseContentRange_roundtrip [of 5000 0 None] c
    by (simp add: MaxInt64_def)
qed

end
