(* ===== verification/Up_Publisher.thy ===== *)
theory Up_Publisher
  imports Up_Client
begin

text \<open>
  \<open>services/upload/internal/queue/publisher.go\<close>: the RabbitMQ publisher with its reconnection. The
  AMQP library and the broker behind it are a parameter over a state \<open>'q\<close>; connections and
  channels are handles. Main results: whatever fails and whenever, the publisher never holds
  more than the one connection it keeps in its state; a publish that reports success has handed
  the message over, at most twice; and a fan-out queue with other arguments makes the repair
  delete the main queue at each attempt.
\<close>

subsection \<open>The AMQP library\<close>

text \<open>The argument table of a queue: names and values as text.\<close>

type_synonym amqp_args = "(string \<times> string) list"

record 'q amqp =
  aq_Dial :: "string \<Rightarrow> (nat, 'q) eff"
  aq_Channel :: "nat \<Rightarrow> (nat, 'q) eff"
  aq_conn_Close :: "nat \<Rightarrow> 'q \<Rightarrow> 'q"
  aq_chan_Close :: "nat \<Rightarrow> 'q \<Rightarrow> 'q"
  aq_conn_IsClosed :: "'q \<Rightarrow> nat \<Rightarrow> bool"
  aq_chan_IsClosed :: "'q \<Rightarrow> nat \<Rightarrow> bool"
  aq_ExchangeDeclare :: "nat \<Rightarrow> string \<Rightarrow> string \<Rightarrow> 'q \<Rightarrow> go_error option \<times> 'q"
  aq_QueueDeclare :: "nat \<Rightarrow> string \<Rightarrow> amqp_args \<Rightarrow> 'q \<Rightarrow> go_error option \<times> 'q"
  aq_QueueBind :: "nat \<Rightarrow> string \<Rightarrow> string \<Rightarrow> string \<Rightarrow> 'q \<Rightarrow> go_error option \<times> 'q"
  aq_QueueDelete :: "nat \<Rightarrow> string \<Rightarrow> 'q \<Rightarrow> 'q"
  aq_Publish :: "nat \<Rightarrow> string \<Rightarrow> json \<Rightarrow> 'q \<Rightarrow> go_error option \<times> 'q"

subsection \<open>The publisher\<close>

record Publisher =
  p_url :: string
  p_queue :: string
  p_conn :: "nat option"
  p_channel :: "nat option"

definition dlxExchange :: string where "dlxExchange = ''dlx''"

definition retryTTL :: int where "retryTTL = 30000"

definition fanout_queues :: "string list" where
  "fanout_queues = [''video.transcode.360p'', ''video.transcode.720p'', ''video.transcode.1080p'']"

fun declare_fanout :: "'q amqp \<Rightarrow> nat \<Rightarrow> amqp_args \<Rightarrow> string list \<Rightarrow> 'q \<Rightarrow> go_error option \<times> 'q" where
  "declare_fanout A ch args [] q = (None, q)"
| "declare_fanout A ch args (fq # fqs) q =
     (case aq_QueueDeclare A ch fq args q of
        (Some err, q) \<Rightarrow> (Some (wrapf (''fanout queue declare '' @ fq) err), q)
      | (None, q) \<Rightarrow> declare_fanout A ch args fqs q)"

definition declareTopology :: "'q amqp \<Rightarrow> nat \<Rightarrow> string \<Rightarrow> 'q \<Rightarrow> go_error option \<times> 'q" where
  "declareTopology A ch queue q =
     (if queue \<noteq> ''video.uploaded'' then
        (case aq_QueueDeclare A ch queue [] q of
           (Some err, q) \<Rightarrow> (Some (wrapf ''queue declare'' err), q) | (None, q) \<Rightarrow> (None, q))
      else
        (case aq_ExchangeDeclare A ch dlxExchange ''direct'' q of
           (Some err, q) \<Rightarrow> (Some (wrapf ''exchange declare dlx'' err), q)
         | (None, q) \<Rightarrow>
        (let dlq = queue @ ''.dlq'' in
         case aq_QueueDeclare A ch dlq [] q of
           (Some err, q) \<Rightarrow> (Some (wrapf ''dlq declare'' err), q)
         | (None, q) \<Rightarrow>
        (case aq_QueueBind A ch dlq dlq dlxExchange q of
           (Some err, q) \<Rightarrow> (Some (wrapf ''dlq bind'' err), q)
         | (None, q) \<Rightarrow>
        (let retryQ = queue @ ''.retry'';
             retryArgs = [(''x-dead-letter-exchange'', ''''), (''x-dead-letter-routing-key'', queue),
                          (''x-message-ttl'', Itoa retryTTL)]
         in case aq_QueueDeclare A ch retryQ retryArgs q of
           (Some err, q) \<Rightarrow> (Some (wrapf ''retry queue declare'' err), q)
         | (None, q) \<Rightarrow>
        (let mainArgs = [(''x-dead-letter-exchange'', dlxExchange), (''x-dead-letter-routing-key'', dlq)]
         in case aq_QueueDeclare A ch queue mainArgs q of
           (Some err, q) \<Rightarrow> (Some (wrapf ''queue declare'' err), q)
         | (None, q) \<Rightarrow> declare_fanout A ch mainArgs fanout_queues q))))))"

text \<open>The opening of a connection with a channel, which \<open>connect\<close> does in two places; it closes the
  connection when there is no channel.\<close>

definition dial_channel :: "'q amqp \<Rightarrow> string \<Rightarrow> string \<Rightarrow> (nat \<times> nat, 'q) eff" where
  "dial_channel A suffix url q =
     (case aq_Dial A url q of
        (Inl err, q) \<Rightarrow> (Inl (wrapf (''amqp dial'' @ suffix) err), q)
      | (Inr conn, q) \<Rightarrow>
          (case aq_Channel A conn q of
             (Inl err, q) \<Rightarrow> (Inl (wrapf (''amqp channel'' @ suffix) err), aq_conn_Close A conn q)
           | (Inr ch, q) \<Rightarrow> (Inr (conn, ch), q)))"

definition close_both :: "'q amqp \<Rightarrow> nat \<Rightarrow> nat \<Rightarrow> 'q \<Rightarrow> 'q" where
  "close_both A conn ch q = aq_conn_Close A conn (aq_chan_Close A ch q)"

text \<open>Deleting the queue over a temporary connection, best effort.\<close>

definition delete_stale_queue :: "'q amqp \<Rightarrow> string \<Rightarrow> string \<Rightarrow> 'q \<Rightarrow> 'q" where
  "delete_stale_queue A url queue q =
     (case aq_Dial A url q of
        (Inl _, q) \<Rightarrow> q
      | (Inr tmpConn, q) \<Rightarrow>
          (case aq_Channel A tmpConn q of
             (Inl _, q) \<Rightarrow> aq_conn_Close A tmpConn q
           | (Inr tmpCh, q) \<Rightarrow> close_both A tmpConn tmpCh (aq_QueueDelete A tmpCh queue q)))"

definition connect :: "'q amqp \<Rightarrow> Publisher \<Rightarrow> 'q \<Rightarrow> go_error option \<times> Publisher \<times> 'q" where
  "connect A p q =
     (case dial_channel A '''' (p_url p) q of
        (Inl err, q) \<Rightarrow> (Some err, p, q)
      | (Inr (conn, ch), q) \<Rightarrow>
          (case declareTopology A ch (p_queue p) q of
             (Some err, q) \<Rightarrow>
               if Contains (Error err) ''PRECONDITION'' \<or> Contains (Error err) ''inequivalent'' then
                 (let q = close_both A conn ch q;
                      q = delete_stale_queue A (p_url p) (p_queue p) q
                  in case dial_channel A '' retry'' (p_url p) q of
                       (Inl err2, q) \<Rightarrow> (Some err2, p, q)
                     | (Inr (conn2, ch2), q) \<Rightarrow>
                         (case declareTopology A ch2 (p_queue p) q of
                            (Some err2, q) \<Rightarrow> (Some err2, p, close_both A conn2 ch2 q)
                          | (None, q) \<Rightarrow> (None, p\<lparr>p_conn := Some conn2, p_channel := Some ch2\<rparr>, q)))
               else (Some err, p, close_both A conn ch q)
           | (None, q) \<Rightarrow> (None, p\<lparr>p_conn := Some conn, p_channel := Some ch\<rparr>, q)))"

definition NewPublisher :: "'q amqp \<Rightarrow> string \<Rightarrow> string \<Rightarrow> 'q \<Rightarrow> (go_error + Publisher) \<times> 'q" where
  "NewPublisher A url queue q =
     (case connect A \<lparr>p_url = url, p_queue = queue, p_conn = None, p_channel = None\<rparr> q of
        (Some err, p, q) \<Rightarrow> (Inl err, q) | (None, p, q) \<Rightarrow> (Inr p, q))"

text \<open>\<open>Close\<close>, and the closing part of \<open>ensure\<close>, which does the same.\<close>

definition close_held :: "'q amqp \<Rightarrow> Publisher \<Rightarrow> 'q \<Rightarrow> 'q" where
  "close_held A p q =
     (let q = (case p_channel p of Some ch \<Rightarrow> aq_chan_Close A ch q | None \<Rightarrow> q)
      in case p_conn p of Some conn \<Rightarrow> aq_conn_Close A conn q | None \<Rightarrow> q)"

definition pub_Close :: "'q amqp \<Rightarrow> Publisher \<Rightarrow> 'q \<Rightarrow> 'q" where
  "pub_Close A p q = close_held A p q"

definition ensure :: "'q amqp \<Rightarrow> Publisher \<Rightarrow> 'q \<Rightarrow> go_error option \<times> Publisher \<times> 'q" where
  "ensure A p q =
     (if (case p_conn p of Some conn \<Rightarrow> \<not> aq_conn_IsClosed A q conn | None \<Rightarrow> False) \<and>
         (case p_channel p of Some ch \<Rightarrow> \<not> aq_chan_IsClosed A q ch | None \<Rightarrow> False)
      then (None, p, q)
      else connect A p (close_held A p q))"

text \<open>\<open>publish\<close>; after a successful \<open>ensure\<close> there is a channel, so the nil case is not reached.\<close>

definition publish_once :: "'q amqp \<Rightarrow> Publisher \<Rightarrow> json \<Rightarrow> 'q \<Rightarrow> go_error option \<times> 'q" where
  "publish_once A p body q =
     (case p_channel p of
        Some ch \<Rightarrow> aq_Publish A ch (p_queue p) body q
      | None \<Rightarrow> (Some (Err ''runtime error: invalid memory address or nil pointer dereference''), q))"

definition Publish :: "'q amqp \<Rightarrow> json \<Rightarrow> Publisher \<Rightarrow> 'q \<Rightarrow> go_error option \<times> Publisher \<times> 'q" where
  "Publish A body p q =
     (case ensure A p q of
        (Some err, p, q) \<Rightarrow> (Some err, p, q)
      | (None, p, q) \<Rightarrow>
          (case publish_once A p body q of
             (None, q) \<Rightarrow> (None, p, q)
           | (Some _, q) \<Rightarrow>
               (case ensure A p q of
                  (Some err, p, q) \<Rightarrow> (Some err, p, q)
                | (None, p, q) \<Rightarrow>
                    (case publish_once A p body q of (e, q) \<Rightarrow> (e, p, q)))))"

subsection \<open>What is documented of the library\<close>

text \<open>
  \<open>oc q\<close> are the open connections and \<open>acc q\<close> the messages handed to the broker so far, with
  their queue. Only \<open>Dial\<close> opens a connection, any call may see connections die, and a closed
  one does not open again. Only a publish hands a message over; one that reports an error may
  have done so all the same.
\<close>

definition quiet :: "('q \<Rightarrow> nat set) \<Rightarrow> ('q \<Rightarrow> (string \<times> json) list) \<Rightarrow> 'q \<Rightarrow> 'q \<Rightarrow> bool" where
  "quiet oc acc q q' \<longleftrightarrow> oc q' \<subseteq> oc q \<and> acc q' = acc q"

definition amqp_docs :: "'q amqp \<Rightarrow> ('q \<Rightarrow> nat set) \<Rightarrow> ('q \<Rightarrow> (string \<times> json) list) \<Rightarrow> bool" where
  "amqp_docs A oc acc \<longleftrightarrow>
     (\<forall>url q r q'. aq_Dial A url q = (r, q') \<longrightarrow> acc q' = acc q \<and>
        oc q' \<subseteq> (case r of Inl _ \<Rightarrow> oc q | Inr c \<Rightarrow> insert c (oc q))) \<and>
     (\<forall>c q r q'. aq_Channel A c q = (r, q') \<longrightarrow> quiet oc acc q q') \<and>
     (\<forall>c q. acc (aq_conn_Close A c q) = acc q \<and> oc (aq_conn_Close A c q) \<subseteq> oc q - {c}) \<and>
     (\<forall>c q. quiet oc acc q (aq_chan_Close A c q)) \<and>
     (\<forall>c q. aq_conn_IsClosed A q c \<longleftrightarrow> c \<notin> oc q) \<and>
     (\<forall>ch x t q e q'. aq_ExchangeDeclare A ch x t q = (e, q') \<longrightarrow> quiet oc acc q q') \<and>
     (\<forall>ch n a q e q'. aq_QueueDeclare A ch n a q = (e, q') \<longrightarrow> quiet oc acc q q') \<and>
     (\<forall>ch n k x q e q'. aq_QueueBind A ch n k x q = (e, q') \<longrightarrow> quiet oc acc q q') \<and>
     (\<forall>ch n q. quiet oc acc q (aq_QueueDelete A ch n q)) \<and>
     (\<forall>ch n b q e q'. aq_Publish A ch n b q = (e, q') \<longrightarrow> oc q' \<subseteq> oc q \<and>
        (acc q' = acc q @ [(n, b)] \<or> e \<noteq> None \<and> acc q' = acc q))"

lemma quiet_refl [simp]: "quiet oc acc q q"
  by (simp add: quiet_def)

lemma quiet_trans [trans]: "quiet oc acc q q' \<Longrightarrow> quiet oc acc q' q'' \<Longrightarrow> quiet oc acc q q''"
  by (auto simp: quiet_def)

lemma amqp_quiet:
  assumes "amqp_docs A oc acc"
  shows "aq_Channel A c q = (r, q') \<Longrightarrow> quiet oc acc q q'"
    "quiet oc acc q (aq_chan_Close A c q)"
    "aq_ExchangeDeclare A ch x t q = (e, q') \<Longrightarrow> quiet oc acc q q'"
    "aq_QueueDeclare A ch n a q = (e, q') \<Longrightarrow> quiet oc acc q q'"
    "aq_QueueBind A ch n k x q = (e, q') \<Longrightarrow> quiet oc acc q q'"
    "quiet oc acc q (aq_QueueDelete A ch n q)"
  using assms unfolding amqp_docs_def by - (elim conjE, metis)+

lemma amqp_other:
  assumes "amqp_docs A oc acc"
  shows "aq_Dial A url q = (r, q') \<Longrightarrow> acc q' = acc q \<and>
      oc q' \<subseteq> (case r of Inl _ \<Rightarrow> oc q | Inr c \<Rightarrow> insert c (oc q))"
    "acc (aq_conn_Close A c q) = acc q" "oc (aq_conn_Close A c q) \<subseteq> oc q - {c}"
    "aq_conn_IsClosed A q c \<longleftrightarrow> c \<notin> oc q"
    "aq_Publish A ch n b q = (e, q') \<Longrightarrow> oc q' \<subseteq> oc q \<and>
      (acc q' = acc q @ [(n, b)] \<or> e \<noteq> None \<and> acc q' = acc q)"
  using assms unfolding amqp_docs_def by - (elim conjE, metis)+

subsection \<open>Each operation\<close>

lemma declare_fanout_quiet:
  "amqp_docs A oc acc \<Longrightarrow> declare_fanout A ch args fqs q = (e, q') \<Longrightarrow> quiet oc acc q q'"
  by (induction A ch args fqs q rule: declare_fanout.induct)
     (auto split: prod.splits option.splits dest: amqp_quiet(4) intro: quiet_trans)

lemma declareTopology_quiet:
  assumes A: "amqp_docs A oc acc" and d: "declareTopology A ch queue q = (e, q')"
  shows "quiet oc acc q q'"
  using d unfolding declareTopology_def Let_def
  by (auto split: if_splits prod.splits option.splits
      dest!: amqp_quiet(3) [OF A] amqp_quiet(4) [OF A] amqp_quiet(5) [OF A] declare_fanout_quiet [OF A]
      simp: quiet_def) blast+

lemma dial_channel_opens:
  assumes A: "amqp_docs A oc acc" and d: "dial_channel A suffix url q = (r, q')"
  shows "acc q' = acc q" "oc q' \<subseteq> (case r of Inl _ \<Rightarrow> oc q | Inr (c, _) \<Rightarrow> insert c (oc q))"
proof -
  have "acc q' = acc q \<and> oc q' \<subseteq> (case r of Inl _ \<Rightarrow> oc q | Inr (c, _) \<Rightarrow> insert c (oc q))"
    using d amqp_other(2,3) [OF A] unfolding dial_channel_def
    by (auto split: prod.splits sum.splits simp: quiet_def
        dest!: amqp_other(1) [OF A] amqp_quiet(1) [OF A]) blast+
  then show "acc q' = acc q" "oc q' \<subseteq> (case r of Inl _ \<Rightarrow> oc q | Inr (c, _) \<Rightarrow> insert c (oc q))" by auto
qed

lemma close_both_closes:
  assumes "amqp_docs A oc acc"
  shows "acc (close_both A c ch q) = acc q" "oc (close_both A c ch q) \<subseteq> oc q - {c}"
  using amqp_other(2,3) [OF assms, of c "aq_chan_Close A ch q"] amqp_quiet(2) [OF assms, of q ch]
  by (auto simp: close_both_def quiet_def)

lemma delete_stale_quiet:
  assumes A: "amqp_docs A oc acc"
  shows "quiet oc acc q (delete_stale_queue A url queue q)"
  unfolding delete_stale_queue_def quiet_def
  using amqp_other(2,3) [OF A] close_both_closes [OF A] amqp_quiet(6) [OF A]
  by (auto split: prod.splits sum.splits simp: quiet_def
      dest!: amqp_other(1) [OF A] amqp_quiet(1) [OF A]) blast+

text \<open>A successful \<open>connect\<close> opens one connection and holds it; a failed one leaves nothing open.\<close>

lemma connect_opens:
  assumes A: "amqp_docs A oc acc" and c: "connect A p q = (e, p', q')"
  shows "acc q' = acc q \<and> p_queue p' = p_queue p \<and>
    (if e = None then p_channel p' \<noteq> None \<and> oc q' \<subseteq> oc q \<union> set_option (p_conn p')
     else p' = p \<and> oc q' \<subseteq> oc q)"
proof -
  obtain r1 q1 where d1: "dial_channel A '''' (p_url p) q = (r1, q1)" by (rule that, rule surjective_pairing)
  note o1 = dial_channel_opens [OF A d1]
  show ?thesis
  proof (cases r1)
    case (Inl err)
    then show ?thesis using c d1 o1 by (auto simp: connect_def)
  next
    case (Inr cc)
    obtain conn ch where cc: "cc = (conn, ch)" by (cases cc)
    obtain e2 q2 where t1: "declareTopology A ch (p_queue p) q1 = (e2, q2)" by (rule that, rule surjective_pairing)
    note u1 = declareTopology_quiet [OF A t1]
    note b1 = close_both_closes [OF A, of conn ch q2]
    show ?thesis
    proof (cases e2)
      case None
      then show ?thesis using c d1 o1 u1 by (auto simp: connect_def Inr cc t1 quiet_def)
    next
      case (Some err)
      show ?thesis
      proof (cases "Contains (Error err) ''PRECONDITION'' \<or> Contains (Error err) ''inequivalent''")
        case False
        then show ?thesis using c d1 o1 u1 b1 by (auto simp: connect_def Inr cc t1 Some quiet_def)
      next
        case True
        let ?q3 = "delete_stale_queue A (p_url p) (p_queue p) (close_both A conn ch q2)"
        have o3: "acc ?q3 = acc q" "oc ?q3 \<subseteq> oc q"
          using delete_stale_quiet [OF A, of "close_both A conn ch q2" "p_url p" "p_queue p"] b1 u1 o1
          by (auto simp: quiet_def Inr cc)
        obtain r4 q4 where d4: "dial_channel A '' retry'' (p_url p) ?q3 = (r4, q4)"
          by (rule that, rule surjective_pairing)
        note o4 = dial_channel_opens [OF A d4]
        have run: "(e, p', q') = (case (r4, q4) of
            (Inl err2, q) \<Rightarrow> (Some err2, p, q)
          | (Inr (conn2, ch2), q) \<Rightarrow>
              (case declareTopology A ch2 (p_queue p) q of
                 (Some err2, q) \<Rightarrow> (Some err2, p, close_both A conn2 ch2 q)
               | (None, q) \<Rightarrow> (None, p\<lparr>p_conn := Some conn2, p_channel := Some ch2\<rparr>, q)))"
          using c True unfolding connect_def by (simp add: d1 Inr cc t1 Some d4)
        show ?thesis
        proof (cases r4)
          case (Inl err2)
          then show ?thesis using run o3 o4 by auto
        next
          case (Inr cc2)
          obtain c2 ch2 where cc2: "cc2 = (c2, ch2)" by (cases cc2)
          obtain e5 q5 where t5: "declareTopology A ch2 (p_queue p) q4 = (e5, q5)"
            by (rule that, rule surjective_pairing)
          show ?thesis
            using run o3 o4 declareTopology_quiet [OF A t5] close_both_closes [OF A, of c2 ch2 q5]
            by (cases e5) (auto simp: Inr cc2 t5 quiet_def)
        qed
      qed
    qed
  qed
qed

lemma close_held_closes:
  assumes A: "amqp_docs A oc acc"
  shows "acc (close_held A p q) = acc q" "oc (close_held A p q) \<subseteq> oc q - set_option (p_conn p)"
proof -
  let ?q = "case p_channel p of Some ch \<Rightarrow> aq_chan_Close A ch q | None \<Rightarrow> q"
  have "quiet oc acc q ?q" using amqp_quiet(2) [OF A] by (simp split: option.split)
  then show "acc (close_held A p q) = acc q" "oc (close_held A p q) \<subseteq> oc q - set_option (p_conn p)"
    using amqp_other(2,3) [OF A, of _ ?q]
    by (auto simp: close_held_def quiet_def Let_def split: option.split) blast+
qed

subsection \<open>The state of the publisher\<close>

text \<open>The invariant: the only open connection is the one that the publisher holds.\<close>

definition holds_all :: "('q \<Rightarrow> nat set) \<Rightarrow> Publisher \<Rightarrow> 'q \<Rightarrow> bool" where
  "holds_all oc p q \<longleftrightarrow> oc q \<subseteq> set_option (p_conn p)"

lemma ensure_holds:
  assumes A: "amqp_docs A oc acc" and h: "holds_all oc p q" and e: "ensure A p q = (e, p', q')"
  shows "holds_all oc p' q' \<and> acc q' = acc q \<and> p_queue p' = p_queue p \<and> (e = None \<longrightarrow> p_channel p' \<noteq> None)"
proof (cases "e = None \<and> p' = p \<and> q' = q \<and> p_channel p \<noteq> None")
  case True
  then show ?thesis using h by simp
next
  case False
  then have "connect A p (close_held A p q) = (e, p', q')"
    using e by (auto simp: ensure_def split: if_splits option.splits)
  moreover have "oc (close_held A p q) = {}" "acc (close_held A p q) = acc q"
    using close_held_closes [OF A, of p q] h by (auto simp: holds_all_def)
  ultimately show ?thesis
    using connect_opens [OF A, of p "close_held A p q" e p' q'] by (auto simp: holds_all_def split: if_splits)
qed

lemma publish_once_sends:
  assumes A: "amqp_docs A oc acc" and h: "holds_all oc p q" and e: "publish_once A p body q = (e, q')"
    and ch: "p_channel p \<noteq> None"
  shows "holds_all oc p q' \<and> (acc q' = acc q @ [(p_queue p, body)] \<or> e \<noteq> None \<and> acc q' = acc q)"
  using e h ch by (auto simp: publish_once_def holds_all_def dest!: amqp_other(5) [OF A]) blast+

lemma Publish_sends:
  assumes A: "amqp_docs A oc acc" and h: "holds_all oc p q" and e: "Publish A body p q = (e, p', q')"
  shows "holds_all oc p' q' \<and> p_queue p' = p_queue p \<and>
    (\<exists>n \<le> 2. acc q' = acc q @ replicate n (p_queue p, body) \<and> (e = None \<longrightarrow> 1 \<le> n))"
proof -
  obtain e1 p1 q1 where n1: "ensure A p q = (e1, p1, q1)" by (metis prod.exhaust)
  note i1 = ensure_holds [OF A h n1]
  show ?thesis
  proof (cases e1)
    case (Some err)
    then show ?thesis using e n1 i1 by (auto simp: Publish_def intro: exI [of _ 0])
  next
    case None
    obtain e2 q2 where s1: "publish_once A p1 body q1 = (e2, q2)" by (rule that, rule surjective_pairing)
    have i2: "holds_all oc p1 q2"
      "acc q2 = acc q @ replicate 1 (p_queue p, body) \<or> e2 \<noteq> None \<and> acc q2 = acc q @ replicate 0 (p_queue p, body)"
      using publish_once_sends [OF A _ s1] i1 None by auto
    show ?thesis
    proof (cases e2)
      case None1: None
      then show ?thesis using e n1 i1 i2 s1 None by (auto simp: Publish_def intro: exI [of _ 1])
    next
      case Some2: (Some err2)
      obtain k where k: "k \<le> 1" "acc q2 = acc q @ replicate k (p_queue p, body)"
        using i2(2) that [of 1] that [of 0] by auto
      obtain e3 p3 q3 where n3: "ensure A p1 q2 = (e3, p3, q3)" by (metis prod.exhaust)
      note i3 = ensure_holds [OF A i2(1) n3]
      show ?thesis
      proof (cases e3)
        case Some3: (Some err3)
        then have "e = Some err3 \<and> p' = p3 \<and> q' = q3"
          using e n1 None s1 Some2 n3 by (simp add: Publish_def)
        then show ?thesis using i1 i3 k by (intro conjI exI [of _ k]) auto
      next
        case None3: None
        obtain e4 q4 where s4: "publish_once A p3 body q3 = (e4, q4)" by (rule that, rule surjective_pairing)
        have r: "e = e4 \<and> p' = p3 \<and> q' = q4"
          using e n1 None s1 Some2 n3 None3 s4 by (simp add: Publish_def)
        note i4 = publish_once_sends [OF A _ s4]
        have "replicate k (p_queue p, body) @ [(p_queue p, body)] = replicate (Suc k) (p_queue p, body)"
          by (simp add: replicate_append_same)
        then have "acc q4 = acc q @ replicate (Suc k) (p_queue p, body) \<or>
            e4 \<noteq> None \<and> acc q4 = acc q @ replicate k (p_queue p, body)"
          using i4 i3 i1 k None3 by simp
        then show ?thesis
        proof
          assume "acc q4 = acc q @ replicate (Suc k) (p_queue p, body)"
          then show ?thesis using r i1 i3 i4 k None3 by (intro conjI exI [of _ "Suc k"]) auto
        next
          assume "e4 \<noteq> None \<and> acc q4 = acc q @ replicate k (p_queue p, body)"
          then show ?thesis using r i1 i3 i4 k None3 by (intro conjI exI [of _ k]) auto
        qed
      qed
    qed
  qed
qed

text \<open>
  The life of a publisher: it starts on a broker without open connections of this process,
  publishes any messages, and between the calls any connection may die.
\<close>

inductive pub_reach :: "'q amqp \<Rightarrow> ('q \<Rightarrow> nat set) \<Rightarrow> string \<Rightarrow> string \<Rightarrow> Publisher \<Rightarrow> 'q \<Rightarrow> bool"
  for A oc url queue where
  start: "oc q = {} \<Longrightarrow> NewPublisher A url queue q = (Inr p, q') \<Longrightarrow> pub_reach A oc url queue p q'"
| publish: "pub_reach A oc url queue p q \<Longrightarrow> Publish A body p q = (e, p', q') \<Longrightarrow> pub_reach A oc url queue p' q'"
| lost: "pub_reach A oc url queue p q \<Longrightarrow> oc q' \<subseteq> oc q \<Longrightarrow> pub_reach A oc url queue p q'"

lemma NewPublisher_opens:
  assumes A: "amqp_docs A oc acc" and n: "NewPublisher A url queue q = (r, q')"
  shows "oc q' \<subseteq> oc q \<union> (case r of Inr p \<Rightarrow> set_option (p_conn p) | Inl _ \<Rightarrow> {})"
proof -
  let ?p0 = "\<lparr>p_url = url, p_queue = queue, p_conn = None, p_channel = None\<rparr>"
  obtain e p1 q1 where c: "connect A ?p0 q = (e, p1, q1)" by (metis prod.exhaust)
  from connect_opens [OF A c] n c show ?thesis by (cases e) (auto simp: NewPublisher_def)
qed

lemma pub_reach_holds:
  assumes A: "amqp_docs A oc acc"
  shows "pub_reach A oc url queue p q \<Longrightarrow> holds_all oc p q"
proof (induction rule: pub_reach.induct)
  case (start q p q')
  then show ?case using NewPublisher_opens [OF A start(2)] by (simp add: holds_all_def)
next
  case (publish p q body e p' q')
  then show ?case using Publish_sends [OF A] by blast
next
  case (lost p q q')
  then show ?case by (auto simp: holds_all_def)
qed

subsection \<open>A broker that is back\<close>

text \<open>The arguments of each queue of the topology.\<close>

definition main_queue_args :: "string \<Rightarrow> amqp_args" where
  "main_queue_args queue =
     [(''x-dead-letter-exchange'', dlxExchange), (''x-dead-letter-routing-key'', queue @ ''.dlq'')]"

definition topology_args :: "string \<Rightarrow> string \<Rightarrow> amqp_args" where
  "topology_args queue n =
     (if n = queue @ ''.dlq'' then []
      else if n = queue @ ''.retry'' then
        [(''x-dead-letter-exchange'', ''''), (''x-dead-letter-routing-key'', queue), (''x-message-ttl'', Itoa retryTTL)]
      else main_queue_args queue)"

text \<open>
  While \<open>up\<close> holds the broker answers: a connection and a channel can be opened, the declarations of
  the topology agree with what exists, a publish on an open channel is confirmed, and a channel
  stays open through the declarations.
\<close>

definition broker_up :: "'q amqp \<Rightarrow> ('q \<Rightarrow> bool) \<Rightarrow> string \<Rightarrow> bool" where
  "broker_up A up queue \<longleftrightarrow>
     (\<forall>url q r q'. up q \<and> aq_Dial A url q = (r, q') \<longrightarrow> up q' \<and> (\<exists>c. r = Inr c)) \<and>
     (\<forall>url q c q1 r q'. up q \<and> aq_Dial A url q = (Inr c, q1) \<and> aq_Channel A c q1 = (r, q') \<longrightarrow>
        up q' \<and> (\<exists>ch. r = Inr ch \<and> \<not> aq_chan_IsClosed A q' ch)) \<and>
     (\<forall>c q. up q \<longrightarrow> up (aq_conn_Close A c q)) \<and> (\<forall>c q. up q \<longrightarrow> up (aq_chan_Close A c q)) \<and>
     (\<forall>ch x t q e q'. up q \<and> \<not> aq_chan_IsClosed A q ch \<and> aq_ExchangeDeclare A ch x t q = (e, q') \<longrightarrow>
        up q' \<and> \<not> aq_chan_IsClosed A q' ch \<and> e = None) \<and>
     (\<forall>ch n q e q'. up q \<and> \<not> aq_chan_IsClosed A q ch \<and> aq_QueueDeclare A ch n (topology_args queue n) q = (e, q') \<longrightarrow>
        up q' \<and> \<not> aq_chan_IsClosed A q' ch \<and> e = None) \<and>
     (\<forall>ch n k x q e q'. up q \<and> \<not> aq_chan_IsClosed A q ch \<and> aq_QueueBind A ch n k x q = (e, q') \<longrightarrow>
        up q' \<and> \<not> aq_chan_IsClosed A q' ch \<and> e = None) \<and>
     (\<forall>ch n b q e q'. up q \<and> \<not> aq_chan_IsClosed A q ch \<and> aq_Publish A ch n b q = (e, q') \<longrightarrow> up q' \<and> e = None)"

lemma broker_upD:
  assumes "broker_up A up queue" "up q"
  shows "aq_Dial A url q = (r, q') \<Longrightarrow> up q' \<and> (\<exists>c. r = Inr c)"
    "aq_Dial A url q = (Inr c, q1) \<Longrightarrow> aq_Channel A c q1 = (r2, q') \<Longrightarrow> up q' \<and> (\<exists>ch. r2 = Inr ch \<and> \<not> aq_chan_IsClosed A q' ch)"
    "up (aq_conn_Close A c q)" "up (aq_chan_Close A c q)"
    "\<not> aq_chan_IsClosed A q ch \<Longrightarrow> aq_ExchangeDeclare A ch x t q = (e, q') \<Longrightarrow> up q' \<and> \<not> aq_chan_IsClosed A q' ch \<and> e = None"
    "\<not> aq_chan_IsClosed A q ch \<Longrightarrow> aq_QueueDeclare A ch n (topology_args queue n) q = (e, q') \<Longrightarrow>
      up q' \<and> \<not> aq_chan_IsClosed A q' ch \<and> e = None"
    "\<not> aq_chan_IsClosed A q ch \<Longrightarrow> aq_QueueBind A ch n k x q = (e, q') \<Longrightarrow> up q' \<and> \<not> aq_chan_IsClosed A q' ch \<and> e = None"
    "\<not> aq_chan_IsClosed A q ch \<Longrightarrow> aq_Publish A ch n b q = (e, q') \<Longrightarrow> up q' \<and> e = None"
  using assms unfolding broker_up_def by - (elim conjE, metis)+

lemma topology_args_simps:
  "topology_args ''video.uploaded'' (''video.uploaded'' @ ''.dlq'') = []"
  "topology_args ''video.uploaded'' ''video.uploaded'' = main_queue_args ''video.uploaded''"
  "topology_args ''video.uploaded'' (''video.uploaded'' @ ''.retry'') =
     [(''x-dead-letter-exchange'', ''''), (''x-dead-letter-routing-key'', ''video.uploaded''), (''x-message-ttl'', Itoa retryTTL)]"
  "n \<in> set fanout_queues \<Longrightarrow> topology_args ''video.uploaded'' n = main_queue_args ''video.uploaded''"
  by (auto simp: topology_args_def fanout_queues_def)

lemma declare_fanout_up:
  assumes B: "broker_up A up queue"
  shows "up q \<Longrightarrow> \<not> aq_chan_IsClosed A q ch \<Longrightarrow> \<forall>n \<in> set fqs. topology_args queue n = args \<Longrightarrow>
    declare_fanout A ch args fqs q = (e, q') \<Longrightarrow> up q' \<and> \<not> aq_chan_IsClosed A q' ch \<and> e = None"
proof (induction fqs arbitrary: q)
  case (Cons n fqs)
  obtain e1 q1 where d: "aq_QueueDeclare A ch n args q = (e1, q1)" by (rule that, rule surjective_pairing)
  have "up q1 \<and> \<not> aq_chan_IsClosed A q1 ch \<and> e1 = None"
    using broker_upD(6) [OF B Cons.prems(1,2), of n e1 q1] d Cons.prems(3) by simp
  then show ?case using Cons.IH [of q1] Cons.prems(3,4) d by simp
qed simp

lemma declareTopology_up:
  assumes B: "broker_up A up ''video.uploaded''" and q: "up q" "\<not> aq_chan_IsClosed A q ch"
    and d: "declareTopology A ch ''video.uploaded'' q = (e, q')"
  shows "up q' \<and> \<not> aq_chan_IsClosed A q' ch \<and> e = None"
proof -
  let ?n = "''video.uploaded''"
  obtain e1 q1 where 1: "aq_ExchangeDeclare A ch dlxExchange ''direct'' q = (e1, q1)" by (rule that, rule surjective_pairing)
  note u1 = broker_upD(5) [OF B q 1]
  obtain e2 q2 where 2: "aq_QueueDeclare A ch (?n @ ''.dlq'') [] q1 = (e2, q2)" by (rule that, rule surjective_pairing)
  have u2: "up q2 \<and> \<not> aq_chan_IsClosed A q2 ch \<and> e2 = None"
    using broker_upD(6) [OF B, of q1 ch "?n @ ''.dlq''" e2 q2] u1 2 unfolding topology_args_simps by blast
  obtain e3 q3 where 3: "aq_QueueBind A ch (?n @ ''.dlq'') (?n @ ''.dlq'') dlxExchange q2 = (e3, q3)"
    by (rule that, rule surjective_pairing)
  have u3: "up q3 \<and> \<not> aq_chan_IsClosed A q3 ch \<and> e3 = None" using broker_upD(7) [OF B _ _ 3] u2 by blast
  let ?ra = "[(''x-dead-letter-exchange'', ''''), (''x-dead-letter-routing-key'', ?n), (''x-message-ttl'', Itoa retryTTL)]"
  obtain e4 q4 where 4: "aq_QueueDeclare A ch (?n @ ''.retry'') ?ra q3 = (e4, q4)" by (rule that, rule surjective_pairing)
  have u4: "up q4 \<and> \<not> aq_chan_IsClosed A q4 ch \<and> e4 = None"
    using broker_upD(6) [OF B, of q3 ch "?n @ ''.retry''" e4 q4] u3 4 unfolding topology_args_simps by blast
  obtain e5 q5 where 5: "aq_QueueDeclare A ch ?n (main_queue_args ?n) q4 = (e5, q5)" by (rule that, rule surjective_pairing)
  have u5: "up q5 \<and> \<not> aq_chan_IsClosed A q5 ch \<and> e5 = None"
    using broker_upD(6) [OF B, of q4 ch ?n e5 q5] u4 5 unfolding topology_args_simps by blast
  have es: "e1 = None" "e2 = None" "e3 = None" "e4 = None" "e5 = None" using u1 u2 u3 u4 u5 by blast+
  have run: "declareTopology A ch ?n q = declare_fanout A ch (main_queue_args ?n) fanout_queues q5"
    by (simp only: declareTopology_def Let_def main_queue_args_def [symmetric] 1 2 3 4 5 es prod.case option.case simp_thms if_False)
  show ?thesis
    using declare_fanout_up [OF B _ _ _ d [unfolded run]] u5 topology_args_simps(4) by blast
qed

lemma connect_up:
  assumes B: "broker_up A up ''video.uploaded''" and q: "up q" and p: "p_queue p = ''video.uploaded''"
    and c: "connect A p q = (e, p', q')"
  shows "e = None \<and> up q' \<and> (\<exists>ch. p_channel p' = Some ch \<and> \<not> aq_chan_IsClosed A q' ch)"
proof -
  obtain r1 q1 where 1: "aq_Dial A (p_url p) q = (r1, q1)" by (rule that, rule surjective_pairing)
  from broker_upD(1) [OF B q 1] obtain conn where r1: "r1 = Inr conn" by blast
  obtain r2 q2 where 2: "aq_Channel A conn q1 = (r2, q2)" by (rule that, rule surjective_pairing)
  from broker_upD(2) [OF B q 1 [unfolded r1] 2] obtain ch where r2: "r2 = Inr ch" "up q2" "\<not> aq_chan_IsClosed A q2 ch" by blast
  have dial: "dial_channel A '''' (p_url p) q = (Inr (conn, ch), q2)" by (simp add: dial_channel_def 1 2 r1 r2)
  obtain e3 q3 where 3: "declareTopology A ch ''video.uploaded'' q2 = (e3, q3)" by (rule that, rule surjective_pairing)
  from declareTopology_up [OF B r2(2,3) 3] have u3: "up q3" "\<not> aq_chan_IsClosed A q3 ch" "e3 = None" by simp_all
  show ?thesis using c u3 by (auto simp: connect_def dial p 3)
qed

lemma ensure_up:
  assumes B: "broker_up A up ''video.uploaded''" and q: "up q" and p: "p_queue p = ''video.uploaded''"
    and c: "ensure A p q = (e, p', q')"
  shows "e = None \<and> up q' \<and> (\<exists>ch. p_channel p' = Some ch \<and> \<not> aq_chan_IsClosed A q' ch)"
proof -
  have held: "up (close_held A p q)"
    using q broker_upD(3,4) [OF B] by (auto simp: close_held_def Let_def split: option.split)
  show ?thesis
    using c connect_up [OF B held p] q unfolding ensure_def by (auto split: if_splits option.splits)
qed

lemma pub_reach_queue:
  assumes A: "amqp_docs A oc acc"
  shows "pub_reach A oc url queue p q \<Longrightarrow> p_queue p = queue"
proof (induction rule: pub_reach.induct)
  case (start q p q')
  let ?p0 = "\<lparr>p_url = url, p_queue = queue, p_conn = None, p_channel = None\<rparr>"
  obtain e p1 q1 where c: "connect A ?p0 q = (e, p1, q1)" by (metis prod.exhaust)
  from connect_opens [OF A c] start(2) c show ?case by (cases e) (auto simp: NewPublisher_def)
next
  case (publish p q body e p' q')
  from Publish_sends [OF A pub_reach_holds [OF A publish(1)] publish(2)] publish(3) show ?case by simp
qed

subsection \<open>A broker in memory\<close>

text \<open>
  The broker that the witnesses run on: it follows the AMQP rules that the code relies on, a
  redeclaration with other arguments closes the channel with the 406 error, a deletion drops
  the messages.
\<close>

record membroker =
  mb_next :: nat
  mb_conns :: "nat list"
  mb_chans :: "(nat \<times> nat) list"
  mb_queues :: "(string \<times> amqp_args \<times> json list) list"
  mb_sent :: "(string \<times> json) list"

definition mb_declare :: "nat \<Rightarrow> string \<Rightarrow> amqp_args \<Rightarrow> membroker \<Rightarrow> go_error option \<times> membroker" where
  "mb_declare ch n args q =
     (if ch \<notin> fst ` set (mb_chans q) then (Some (Err ''channel/connection is not open''), q)
      else (case map_of (mb_queues q) n of
          None \<Rightarrow> (None, q\<lparr>mb_queues := mb_queues q @ [(n, args, [])]\<rparr>)
        | Some (args', _) \<Rightarrow>
            if args' = args then (None, q)
            else (Some (Err ''Exception (406) Reason: PRECONDITION_FAILED - inequivalent arg''),
                  q\<lparr>mb_chans := filter (\<lambda>c. fst c \<noteq> ch) (mb_chans q)\<rparr>)))"

definition mb_publish :: "nat \<Rightarrow> string \<Rightarrow> json \<Rightarrow> membroker \<Rightarrow> go_error option \<times> membroker" where
  "mb_publish ch n body q =
     (if ch \<notin> fst ` set (mb_chans q) then (Some (Err ''channel/connection is not open''), q)
      else (None, q\<lparr>mb_queues := map (\<lambda>(m, args, ms). (m, args, if m = n then ms @ [body] else ms)) (mb_queues q),
                    mb_sent := mb_sent q @ [(n, body)]\<rparr>))"

definition mem_amqp :: "membroker amqp" where
  "mem_amqp =
     \<lparr>aq_Dial = (\<lambda>url q. (Inr (mb_next q), q\<lparr>mb_next := mb_next q + 1, mb_conns := mb_next q # mb_conns q\<rparr>)),
      aq_Channel = (\<lambda>c q. if c \<in> set (mb_conns q)
         then (Inr (mb_next q), q\<lparr>mb_next := mb_next q + 1, mb_chans := (mb_next q, c) # mb_chans q\<rparr>)
         else (Inl (Err ''channel/connection is not open''), q)),
      aq_conn_Close = (\<lambda>c q. q\<lparr>mb_conns := filter (\<lambda>d. d \<noteq> c) (mb_conns q),
         mb_chans := filter (\<lambda>h. snd h \<noteq> c) (mb_chans q)\<rparr>),
      aq_chan_Close = (\<lambda>ch q. q\<lparr>mb_chans := filter (\<lambda>h. fst h \<noteq> ch) (mb_chans q)\<rparr>),
      aq_conn_IsClosed = (\<lambda>q c. c \<notin> set (mb_conns q)),
      aq_chan_IsClosed = (\<lambda>q ch. ch \<notin> fst ` set (mb_chans q)),
      aq_ExchangeDeclare = (\<lambda>ch x t q. (None, q)),
      aq_QueueDeclare = mb_declare,
      aq_QueueBind = (\<lambda>ch n k x q. (None, q)),
      aq_QueueDelete = (\<lambda>ch n q. if ch \<in> fst ` set (mb_chans q)
         then q\<lparr>mb_queues := filter (\<lambda>e. fst e \<noteq> n) (mb_queues q)\<rparr> else q),
      aq_Publish = mb_publish\<rparr>"

lemma mem_amqp_docs: "amqp_docs mem_amqp (\<lambda>q. set (mb_conns q)) mb_sent"
  unfolding amqp_docs_def
  by (auto simp: mem_amqp_def quiet_def mb_declare_def mb_publish_def split: if_splits option.splits)

definition main_args :: amqp_args where
  "main_args = [(''x-dead-letter-exchange'', ''dlx''), (''x-dead-letter-routing-key'', ''video.uploaded.dlq'')]"

text \<open>A broker with one waiting upload, and a fan-out queue declared without the dead-letter arguments.\<close>

definition stale_broker :: membroker where
  "stale_broker =
     \<lparr>mb_next = 0, mb_conns = [], mb_chans = [],
      mb_queues = [(''video.uploaded'', main_args, [JStr ''waiting'']), (''video.transcode.360p'', [], [])],
      mb_sent = []\<rparr>"

definition empty_broker :: membroker where
  "empty_broker = \<lparr>mb_next = 0, mb_conns = [], mb_chans = [], mb_queues = [], mb_sent = []\<rparr>"

definition mb_up :: "membroker \<Rightarrow> bool" where
  "mb_up q \<longleftrightarrow> (\<forall>(n, args, ms) \<in> set (mb_queues q). args = topology_args ''video.uploaded'' n)"

lemma mb_declare_up:
  assumes "mb_up q" "ch \<in> fst ` set (mb_chans q)" "mb_declare ch n (topology_args ''video.uploaded'' n) q = (e, q')"
  shows "mb_up q' \<and> ch \<in> fst ` set (mb_chans q') \<and> e = None"
proof (cases "map_of (mb_queues q) n")
  case None
  then show ?thesis using assms by (auto simp: mb_declare_def mb_up_def)
next
  case (Some v)
  then have "fst v = topology_args ''video.uploaded'' n" using assms(1) map_of_SomeD by (fastforce simp: mb_up_def)
  then show ?thesis using assms Some by (cases v) (auto simp: mb_declare_def)
qed

lemma mb_publish_up:
  "mb_up q \<Longrightarrow> ch \<in> fst ` set (mb_chans q) \<Longrightarrow> mb_publish ch n b q = (e, q') \<Longrightarrow> mb_up q' \<and> e = None"
  by (auto simp: mb_publish_def mb_up_def)

lemma mb_up_simps [simp]:
  "mb_up (q\<lparr>mb_next := k\<rparr>) = mb_up q" "mb_up (q\<lparr>mb_conns := cs\<rparr>) = mb_up q" "mb_up (q\<lparr>mb_chans := hs\<rparr>) = mb_up q"
  by (simp_all add: mb_up_def)

lemma mem_broker_up: "broker_up mem_amqp mb_up ''video.uploaded''"
  unfolding broker_up_def
proof (intro conjI allI impI)
  fix ch n q e q'
  assume "mb_up q \<and> \<not> aq_chan_IsClosed mem_amqp q ch \<and>
    aq_QueueDeclare mem_amqp ch n (topology_args ''video.uploaded'' n) q = (e, q')"
  then have "mb_up q' \<and> ch \<in> fst ` set (mb_chans q') \<and> e = None"
    using mb_declare_up [of q ch n e q'] by (simp add: mem_amqp_def)
  then show "mb_up q'" "\<not> aq_chan_IsClosed mem_amqp q' ch" "e = None" by (simp_all add: mem_amqp_def)
next
  fix ch n b q e q'
  assume "mb_up q \<and> \<not> aq_chan_IsClosed mem_amqp q ch \<and> aq_Publish mem_amqp ch n b q = (e, q')"
  then have "mb_up q' \<and> e = None" using mb_publish_up [of q ch n b e q'] by (simp add: mem_amqp_def)
  then show "mb_up q'" "e = None" by simp_all
qed (auto simp: mem_amqp_def)

subsection \<open>Properties\<close>

text \<open>C34: no connection leaks: after any history of publishes, failures and lost connections, at any
  point and of any kind, the only connection of the publisher that can be open is the one in
  its state, and after \<open>Close\<close> none is.\<close>

theorem publisher_no_leak:
  assumes "amqp_docs A oc acc" "pub_reach A oc url queue p q"
  shows "oc q \<subseteq> set_option (p_conn p) \<and> oc (pub_Close A p q) = {}"
  using pub_reach_holds [OF assms] close_held_closes [OF assms(1), of p q]
  by (auto simp: holds_all_def pub_Close_def)

lemma publisher_no_leak_witness:
  "\<exists>p q. NewPublisher mem_amqp ''amqp://mq'' ''jobs'' empty_broker = (Inr p, q) \<and>
     mb_conns q = [0] \<and> set (mb_conns (pub_Close mem_amqp p q)) = {}"
proof -
  let ?run = "NewPublisher mem_amqp ''amqp://mq'' ''jobs'' empty_broker"
  let ?p = "\<lparr>p_url = ''amqp://mq'', p_queue = ''jobs'', p_conn = Some 0, p_channel = Some 1\<rparr>"
  have f: "fst ?run = Inr ?p" "mb_conns (snd ?run) = [0]" by code_simp+
  then have r: "?run = (Inr ?p, snd ?run)" by (metis prod.collapse)
  have "set (mb_conns empty_broker) = {}" by code_simp
  from pub_reach.start [where oc = "\<lambda>q. set (mb_conns q)", OF this r]
  have "pub_reach mem_amqp (\<lambda>q. set (mb_conns q)) ''amqp://mq'' ''jobs'' ?p (snd ?run)" .
  from publisher_no_leak [OF mem_amqp_docs this] r f show ?thesis by blast
qed




text \<open>C19: the publisher comes back. Whatever happened before and whatever connection and channel the
  publisher still holds, once the broker answers again the next publish succeeds, and the message
  has been handed over.\<close>

theorem Publish_recovers:
  assumes "amqp_docs A oc acc" "broker_up A up ''video.uploaded''" "pub_reach A oc url ''video.uploaded'' p q" "up q"
    and "Publish A body p q = (e, p', q')"
  shows "e = None \<and> up q' \<and> (''video.uploaded'', body) \<in> set (acc q')"
proof -
  note queue = pub_reach_queue [OF assms(1,3)]
  obtain e1 p1 q1 where 1: "ensure A p q = (e1, p1, q1)" by (metis prod.exhaust)
  from ensure_up [OF assms(2,4) queue 1] obtain ch
    where u1: "e1 = None" "up q1" "p_channel p1 = Some ch" "\<not> aq_chan_IsClosed A q1 ch" by blast
  obtain e2 q2 where 2: "aq_Publish A ch (p_queue p1) body q1 = (e2, q2)" by (rule that, rule surjective_pairing)
  from broker_upD(8) [OF assms(2) u1(2,4) 2] have u2: "up q2" "e2 = None" by simp_all
  have run: "e = None" "q' = q2" using assms(5) 1 u1 2 u2 by (simp_all add: Publish_def publish_once_def)
  from Publish_sends [OF assms(1) pub_reach_holds [OF assms(1,3)] assms(5)] run(1) queue obtain n where
    "acc q' = acc q @ replicate n (''video.uploaded'', body)" "1 \<le> n" by auto
  then show ?thesis using run u2 by (simp add: set_replicate_conv_if)
qed

lemma Publish_recovers_witness:
  "\<exists>p q p' q'. NewPublisher mem_amqp ''amqp://mq'' ''video.uploaded'' empty_broker = (Inr p, q) \<and>
     Publish mem_amqp (JStr ''m'') p (q\<lparr>mb_conns := [], mb_chans := []\<rparr>) = (None, p', q') \<and>
     (''video.uploaded'', JStr ''m'') \<in> set (mb_sent q')"
proof -
  let ?run = "NewPublisher mem_amqp ''amqp://mq'' ''video.uploaded'' empty_broker"
  let ?p = "\<lparr>p_url = ''amqp://mq'', p_queue = ''video.uploaded'', p_conn = Some 0, p_channel = Some 1\<rparr>"
  let ?q = "(snd ?run)\<lparr>mb_conns := [], mb_chans := []\<rparr>"
  let ?oc = "\<lambda>q. set (mb_conns q)"
  have f: "fst ?run = Inr ?p" by code_simp
  then have r: "?run = (Inr ?p, snd ?run)" by (metis prod.collapse)
  have empty: "set (mb_conns empty_broker) = {}" "mb_up empty_broker" by code_simp+
  have "list_all (\<lambda>(n, args, ms). args = topology_args ''video.uploaded'' n) (mb_queues ?q)" by code_simp
  then have up: "mb_up ?q" by (simp add: mb_up_def list_all_iff)
  from pub_reach.start [where oc = ?oc, OF empty(1) r]
  have "pub_reach mem_amqp ?oc ''amqp://mq'' ''video.uploaded'' ?p (snd ?run)" .
  then have reach: "pub_reach mem_amqp ?oc ''amqp://mq'' ''video.uploaded'' ?p ?q" by (rule pub_reach.lost) simp
  obtain e p' q' where pub: "Publish mem_amqp (JStr ''m'') ?p ?q = (e, p', q')" by (metis prod.exhaust)
  from Publish_recovers [OF mem_amqp_docs mem_broker_up reach up pub] pub r show ?thesis by blast
qed

end
