(* ===== verification/Up_Service.thy ===== *)
theory Up_Service
  imports Up_Resumable Up_Publisher
begin

text \<open>
  What the upload handlers rely on, as locales for their interfaces, and what they guarantee on
  top of it: nothing is touched before the owner has been checked, an event names the caller
  and its object, a chunk is appended as a whole or not at all, and the chunks of a file make
  the file. The world of the service and the code's own clients, which interpret the locales,
  are in \<open>Up_Main\<close>.
\<close>

subsection \<open>The ownership check\<close>

text \<open>
  \<open>own w id\<close> is the answer that the metadata service gives for a video, \<open>rest w\<close> whatever of the
  world a look-up of the owner must leave alone.
\<close>

locale ownership_checker =
  fixes check :: "'w OwnershipChecker"
    and own :: "'w \<Rightarrow> string \<Rightarrow> go_error + string"
    and rest :: "'w \<Rightarrow> 'v"
  assumes check_own: "check videoID w = (a, w') \<Longrightarrow> a = own w videoID \<and> rest w' = rest w"
begin

lemma requireOwnership_spec:
  assumes "requireOwnership check videoID userID wh r w = (a, w')"
  shows "rest w' = rest w \<and> (case a of
      Inr _ \<Rightarrow> own w videoID = Inr userID
    | Inl resp \<Rightarrow> own w videoID \<noteq> Inr userID \<and> Status resp \<in> {403, 404, 502})"
proof -
  obtain b w1 where c: "check videoID w = (b, w1)" by (rule that, rule surjective_pairing)
  from check_own [OF c] assms c show ?thesis
    by (auto simp: requireOwnership_def split: sum.splits if_splits)
qed

text \<open>Fail closed: without the owner's identity nothing but the check has happened.\<close>

lemma owned_id_gate:
  assumes "uh_owner h = check" "with_owned_id h body r wh w = (res, w')"
    and "own w (UrlId r) \<noteq> Inr (UserIDFromCtx r)"
  shows "rest w' = rest w \<and> Status res \<in> {400, 403, 404, 502}"
proof (cases "UrlId r = []")
  case True
  then show ?thesis using assms(2) by (auto simp: with_owned_id_def)
next
  case False
  obtain a w1 where c: "requireOwnership check (UrlId r) (UserIDFromCtx r) wh r w = (a, w1)"
    by (rule that, rule surjective_pairing)
  from requireOwnership_spec [OF c] False assms c show ?thesis
    by (auto simp: with_owned_id_def split: sum.splits)
qed

lemma owned_id_body:
  assumes "uh_owner h = check" "with_owned_id h body r wh w = (res, w')"
    and "own w (UrlId r) = Inr (UserIDFromCtx r)" "UrlId r \<noteq> []"
  shows "\<exists>w1. rest w1 = rest w \<and> body (UrlId r) r wh w1 = (res, w')"
proof -
  obtain a w1 where c: "requireOwnership check (UrlId r) (UserIDFromCtx r) wh r w = (a, w1)"
    by (rule that, rule surjective_pairing)
  from requireOwnership_spec [OF c] assms c show ?thesis
    by (auto simp: with_owned_id_def split: sum.splits)
qed

lemma Complete_gate:
  assumes "uh_owner h = check" "Complete h r wh w = (res, w')"
    and "own w (complete_id r) \<noteq> Inr (UserIDFromCtx r)"
  shows "rest w' = rest w \<and> Status res \<in> {400, 403, 404, 502}"
proof (cases "complete_id r = []")
  case True
  then show ?thesis using assms(2) by (auto simp: Complete_def Let_def)
next
  case False
  obtain a w1 where c: "requireOwnership check (complete_id r) (UserIDFromCtx r) wh r w = (a, w1)"
    by (rule that, rule surjective_pairing)
  from requireOwnership_spec [OF c] False assms c show ?thesis
    by (auto simp: Complete_def Let_def split: sum.splits)
qed

lemma Complete_body:
  assumes "uh_owner h = check" "Complete h r wh w = (res, w')"
    and "own w (complete_id r) = Inr (UserIDFromCtx r)" "complete_id r \<noteq> []"
  shows "\<exists>w1. rest w1 = rest w \<and> verify_and_publish h (complete_id r) (rawKey (complete_id r)) (UserIDFromCtx r)
      ''object not found, upload via presigned URL first'' r wh w1 = (res, w')"
proof -
  obtain a w1 where c: "requireOwnership check (complete_id r) (UserIDFromCtx r) wh r w = (a, w1)"
    by (rule that, rule surjective_pairing)
  from requireOwnership_spec [OF c] assms c show ?thesis
    by (auto simp: Complete_def Let_def split: sum.splits)
qed

end

subsection \<open>The object store\<close>

text \<open>
  \<open>obj w\<close> maps the keys of the bucket to data and content type, \<open>side w\<close> is what the store leaves
  alone. A put that fails may have stored the object all the same; it never stores a part.
\<close>

type_synonym objects = "string \<Rightarrow> (string \<times> string) option"

locale object_store =
  fixes S :: "'w UploadStorage"
    and obj :: "'w \<Rightarrow> objects"
    and side :: "'w \<Rightarrow> 'v"
  assumes put: "us_PutObject S k d (int (length d)) ct w = (a, w') \<Longrightarrow> side w' = side w \<and>
      (obj w' = (obj w)(k \<mapsto> (d, ct)) \<or> a \<noteq> Inr () \<and> obj w' = obj w)"
    and stat: "us_StatObjectInfo S k w = (a', w') \<Longrightarrow> side w' = side w \<and> obj w' = obj w \<and>
      (case a' of Inr (n, ct) \<Rightarrow> \<exists>d. obj w k = Some (d, ct) \<and> n = int (length d) | Inl _ \<Rightarrow> True)"
    and stat_size: "us_StatObjectSize S k w = (a'', w') \<Longrightarrow> side w' = side w \<and> obj w' = obj w \<and>
      (case a'' of Inr n \<Rightarrow> \<exists>d ct. obj w k = Some (d, ct) \<and> n = int (length d) | Inl _ \<Rightarrow> True)"
    and get: "us_GetObject S k w = (g, w') \<Longrightarrow> side w' = side w \<and> obj w' = obj w \<and>
      (case g of Inr (Inr d) \<Rightarrow> \<exists>ct. obj w k = Some (d, ct) | _ \<Rightarrow> True)"
begin

lemma appended_spec:
  assumes st: "uh_storage h = S" and run: "rs_appended h key n chunk w = (a, w')"
    and n: "n = 0 \<or> (\<exists>d ct. obj w key = Some (d, ct) \<and> n = int (length d))"
  shows "side w' = side w \<and> obj w' = obj w \<and>
    (case a of Inl _ \<Rightarrow> n \<noteq> 0 | Inr d' \<Rightarrow> \<exists>old. d' = old @ chunk \<and> int (length old) = n \<and>
       (n = 0 \<or> (\<exists>ct. obj w key = Some (old, ct))))"
proof (cases "n = 0")
  case True
  then show ?thesis using run by (auto simp: rs_appended_def)
next
  case False
  obtain g w1 where g: "us_GetObject S key w = (g, w1)" by (rule that, rule surjective_pairing)
  from get [OF g] g run False n st show ?thesis
    by (auto simp: rs_appended_def split: sum.splits)
qed

end

text \<open>A chunk of the announced size is the whole body: a longer or a shorter body is refused, and so
  are sizes whose arithmetic wraps around.\<close>

lemma read_limited_exact:
  assumes "read_limited r bound (wrap64 (wrap64 (e - s + 1) + 1)) = Inr chunk"
    and "int (length chunk) = wrap64 (e - s + 1)" "0 \<le> s" "s \<le> e" "e \<le> MaxInt64"
  shows "chunk = BodyText r \<and> int (length chunk) = e - s + 1 \<and> int (length chunk) \<le> bound"
proof (cases "e - s + 1 \<le> MaxInt64")
  case True
  then have w: "wrap64 (e - s + 1) = e - s + 1" using assms(3,4) by (intro wrap64_id) (auto simp: MinInt64_def)
  show ?thesis
  proof (cases "e - s + 2 \<le> MaxInt64")
    case True
    then have "wrap64 (e - s + 1 + 1) = e - s + 2" using assms(3,4) by (subst wrap64_id) (auto simp: MinInt64_def)
    then show ?thesis using assms w by (auto simp: read_limited_def split: if_splits option.splits)
  next
    case False
    with True have "e - s + 1 = MaxInt64" by simp
    then show ?thesis using assms(1,2) w by (simp add: read_limited_def wrap64_def MaxInt64_def)
  qed
next
  case False
  with assms(3-5) have "e - s + 1 = MaxInt64 + 1" by simp
  then have "wrap64 (e - s + 1) < 0" by (simp add: wrap64_def MaxInt64_def)
  with assms(2) show ?thesis by simp
qed

context object_store begin

text \<open>A chunk is appended as a whole or not at all, whatever the offsets and wherever it fails.\<close>

lemma put_chunk_spec:
  assumes st: "uh_storage h = S" and bnd: "0 \<le> s" "s \<le> e" "e \<le> MaxInt64"
    and run: "rs_put_chunk h bound key s e tot r wh w = (res, w')"
  shows "side w' = side w \<and>
    (obj w' = obj w \<and> Status res \<notin> {200, 308} \<or>
     (\<exists>old. int (length old) = s \<and> (s = 0 \<or> (\<exists>ct. obj w key = Some (old, ct))) \<and>
        int (length (BodyText r)) = e - s + 1 \<and> int (length (BodyText r)) \<le> bound \<and>
        (s + bound \<le> MaxInt64 \<longrightarrow> e + 1 \<le> bound) \<and>
        obj w' = (obj w)(key \<mapsto> (old @ BodyText r, content_type_or_mp4 r)) \<and>
        (Status res = 500 \<or> res = rs_answer tot (s + int (length (BodyText r))) r wh)))"
proof -
  let ?size = "wrap64 (e - s + 1)"
  obtain a w1 where sz: "us_StatObjectSize S key w = (a, w1)" by (rule that, rule surjective_pairing)
  note s1 = stat_size [OF sz]
  let ?ex = "case a of Inl err \<Rightarrow> 0 | Inr n \<Rightarrow> n"
  consider "s \<noteq> ?ex \<or> bound < wrap64 (?ex + ?size) \<or> (\<forall>c. read_limited r bound (wrap64 (?size + 1)) = Inr c \<longrightarrow> int (length c) \<noteq> ?size)"
    | c where "s = ?ex" "read_limited r bound (wrap64 (?size + 1)) = Inr c" "int (length c) = ?size"
        "\<not> bound < wrap64 (?ex + ?size)"
    by blast
  then show ?thesis
  proof cases
    case 1
    then show ?thesis using run s1
      by (auto simp: rs_put_chunk_def Let_def st sz split: if_splits sum.splits go_error.splits)
  next
    case 2
    note ex = read_limited_exact [OF 2(2,3) bnd]
    have total: "s + bound \<le> MaxInt64 \<longrightarrow> e + 1 \<le> bound"
      using 2 ex bnd wrap64_id [of "s + (e - s + 1)"] by (auto simp: MinInt64_def)
    obtain b w2 where ap: "rs_appended h key s c w1 = (b, w2)" by (rule that, rule surjective_pairing)
    have "s = 0 \<or> (\<exists>d ct. obj w1 key = Some (d, ct) \<and> s = int (length d))"
      using s1 2(1) by (auto split: sum.splits)
    note a2 = appended_spec [OF st ap this]
    show ?thesis
    proof (cases b)
      case (Inl err)
      then have "res = writeError wh r 500 (Error err)" "w' = w2"
        using run 2 sz ap by (auto simp: rs_put_chunk_def Let_def st)
      then show ?thesis using s1 a2 by simp
    next
      case (Inr toPut)
      then obtain old where old: "toPut = old @ c" "int (length old) = s" "s = 0 \<or> (\<exists>ct. obj w1 key = Some (old, ct))"
        using a2 by auto
      obtain p w3 where pt: "us_PutObject S key toPut (int (length toPut)) (content_type_or_mp4 r) w2 = (p, w3)"
        by (rule that, rule surjective_pairing)
      have r3: "w' = w3" "res = (case p of Inl err \<Rightarrow> writeError wh r 500 ''storage error''
          | Inr _ \<Rightarrow> rs_answer tot (int (length toPut)) r wh)"
        using run 2 sz ap Inr pt by (auto simp: rs_put_chunk_def Let_def st split: sum.splits)
      have len: "int (length toPut) = s + int (length c)" using old by simp
      from put [OF pt] consider "obj w3 = (obj w2)(key \<mapsto> (toPut, content_type_or_mp4 r))"
        | "p \<noteq> Inr ()" "obj w3 = obj w2" by blast
      then show ?thesis
      proof cases
        case 1
        have "side w' = side w" using put [OF pt] r3 a2 s1 by simp
        moreover have "obj w' = (obj w)(key \<mapsto> (old @ BodyText r, content_type_or_mp4 r))"
          using 1 r3 a2 s1 old ex by simp
        moreover have "Status res = 500 \<or> res = rs_answer tot (s + int (length (BodyText r))) r wh"
          using r3(2) len ex by (cases p) auto
        ultimately show ?thesis using old ex s1 total by auto
      next
        case 2
        then have "Status res = 500" using r3 by (cases p) auto
        then show ?thesis using 2 put [OF pt] r3 a2 s1 by simp
      qed
    qed
  qed
qed

lemma Upload_chunk_spec:
  assumes st: "uh_storage h = S" and cr: "hget (ReqHeader r) ''Content-Range'' = content_range s e tot"
    and bnd: "0 \<le> s" "s \<le> e" "e \<le> MaxInt64" "case tot of Some t \<Rightarrow> 0 \<le> t \<and> t \<le> MaxInt64 | None \<Rightarrow> True"
  shows "rs_upload_body h videoID r wh w =
    rs_put_chunk h (upload_max_bytes r) (rawKey videoID) s e tot r wh w"
proof -
  have "parseContentRange (content_range s e tot) = Some (s, e, tot)"
    using parse_written [of s e tot] bnd by auto
  moreover have "content_range s e tot \<noteq> []" by (simp add: content_range_def)
  ultimately show ?thesis using bnd by (simp add: rs_upload_body_def cr Let_def)
qed

end

subsection \<open>The publisher\<close>

locale event_publisher =
  fixes pub :: "'w PublisherI"
    and inv :: "'w \<Rightarrow> bool"
    and sent :: "'w \<Rightarrow> json list"
    and pside :: "'w \<Rightarrow> 'v"
  assumes publish: "inv w \<Longrightarrow> pub body w = (e, w') \<Longrightarrow> inv w' \<and> pside w' = pside w \<and>
      (\<exists>n. sent w' = sent w @ replicate n body \<and> n \<le> 2 \<and> (e = None \<longrightarrow> 1 \<le> n))"

subsection \<open>A store that works\<close>

text \<open>For what is to happen, not only what may not: the calls of a working store succeed.\<close>

locale working_store = object_store +
  assumes put_works: "fst (us_PutObject S k d (int (length d)) ct w) = Inr ()"
    and stat_works: "obj w k = Some (d, ct) \<Longrightarrow> fst (us_StatObjectSize S k w) = Inr (int (length d))"
    and get_works: "obj w k = Some (d, ct) \<Longrightarrow> fst (us_GetObject S k w) = Inr (Inr d)"
begin

lemma put_chunk_works:
  assumes st: "uh_storage h = S" and bnd: "0 \<le> s" "s \<le> e" "e \<le> MaxInt64"
    and old: "if s = 0 then obj w key = None else \<exists>d ct. obj w key = Some (d, ct) \<and> int (length d) = s"
    and body: "int (length (BodyText r)) = e - s + 1" "BodyErr r = None" "e + 1 \<le> bound" "bound < MaxInt64"
  shows "fst (rs_put_chunk h bound key s e tot r wh w) = rs_answer tot (e + 1) r wh"
proof -
  have w: "wrap64 (e - s + 1) = e - s + 1" "wrap64 (e + 1) = e + 1"
    using bnd body by (auto intro!: wrap64_id simp: MinInt64_def)
  obtain a w1 where sz: "us_StatObjectSize S key w = (a, w1)" by (rule that, rule surjective_pairing)
  have ex: "(case a of Inl err \<Rightarrow> 0 | Inr n \<Rightarrow> n) = s"
    using stat_size [OF sz] stat_works [of w key] sz old by (auto split: if_splits sum.splits)
  have rd: "read_limited r bound (wrap64 (e - s + 1 + 1)) = Inr (BodyText r)"
  proof (cases "e - s + 2 \<le> MaxInt64")
    case True
    then have "wrap64 (e - s + 1 + 1) = e - s + 2" using bnd by (subst wrap64_id) (auto simp: MinInt64_def)
    then show ?thesis using bnd body by (simp add: read_limited_def)
  next
    case False
    then show ?thesis using bnd body by simp
  qed
  obtain b w2 where ap: "rs_appended h key s (BodyText r) w1 = (b, w2)" by (rule that, rule surjective_pairing)
  have o1: "obj w1 = obj w" using stat_size [OF sz] by simp
  have "b \<noteq> Inl err" for err
  proof (cases "s = 0")
    case True
    then show ?thesis using ap by (auto simp: rs_appended_def)
  next
    case False
    then obtain d ct where "obj w1 key = Some (d, ct)" using old o1 by auto
    from get_works [OF this] ap False st show ?thesis
      by (auto simp: rs_appended_def split: prod.splits sum.splits)
  qed
  then obtain toPut where tp: "b = Inr toPut" by (cases b) auto
  have len: "int (length toPut) = e + 1"
    using appended_spec [OF st ap] tp old o1 body by (auto split: if_splits)
  have "fst (us_PutObject S key toPut (int (length toPut)) (content_type_or_mp4 r) w2) = Inr ()"
    by (rule put_works)
  then show ?thesis
    using sz ex rd ap tp len body(1,3) bnd w
    by (auto simp: rs_put_chunk_def Let_def st split: prod.splits)
qed

end

text \<open>A file in chunks: the request of the chunk at an offset, and all of them, one after the other.\<close>

definition chunk_request :: "request \<Rightarrow> int \<Rightarrow> string \<Rightarrow> int \<Rightarrow> request" where
  "chunk_request r off c n =
     r\<lparr>ReqHeader := hset (ReqHeader r) ''Content-Range'' (content_range off (off + int (length c) - 1) (Some n)),
       BodyText := c, BodyErr := None\<rparr>"

fun send_chunks :: "'w handler \<Rightarrow> request \<Rightarrow> int \<Rightarrow> int \<Rightarrow> string list \<Rightarrow> 'w \<Rightarrow> nat list \<times> 'w" where
  "send_chunks H r n off [] w = ([], w)"
| "send_chunks H r n off (c # cs) w =
     (let (res, w) = H (chunk_request r off c n) no_header w;
          (codes, w) = send_chunks H r n (off + int (length c)) cs w
      in (Status res # codes, w))"

subsection \<open>The service\<close>

locale upload_service =
  ownership_checker "uh_owner h" own "\<lambda>w. (obj w, sent w, inv w)" +
  object_store "uh_storage h" obj "\<lambda>w. (sent w, inv w)" +
  event_publisher "uh_publisher h" inv sent obj
  for h :: "'w UploadService" and own and obj :: "'w \<Rightarrow> objects" and sent :: "'w \<Rightarrow> json list" and inv +
  assumes bytes: "obj (uh_bytes h n w) = obj w \<and> sent (uh_bytes h n w) = sent w \<and> inv (uh_bytes h n w) = inv w"
    and find: "us_FindUploadID (uh_storage h) k w = (f, w') \<Longrightarrow> obj w' = obj w \<and> sent w' = sent w \<and> inv w' = inv w"
    and parts: "us_ListParts (uh_storage h) k u w = (p, w') \<Longrightarrow> obj w' = obj w \<and> sent w' = sent w \<and> inv w' = inv w"
    and assemble: "us_CompleteMultipartUpload (uh_storage h) k u ps w = (z, w') \<Longrightarrow>
      sent w' = sent w \<and> inv w' = inv w \<and> (\<forall>k'. k' \<noteq> k \<longrightarrow> obj w' k' = obj w k')"
begin

text \<open>What an event of a completed upload says, and that the object is there when it is sent.\<close>

definition announced :: "string \<Rightarrow> request \<Rightarrow> response \<Rightarrow> 'w \<Rightarrow> 'w \<Rightarrow> bool" where
  "announced videoID r res w w' \<longleftrightarrow>
     (\<exists>n. sent w' = sent w @ replicate n (VideoUploadedEvent videoID (rawKey videoID) (UserIDFromCtx r)) \<and> n \<le> 2 \<and>
        (Status res = 200 \<longrightarrow> 1 \<le> n) \<and>
        (1 \<le> n \<longrightarrow> own w videoID = Inr (UserIDFromCtx r) \<and>
           (\<exists>d ct. obj w' (rawKey videoID) = Some (d, ct) \<and> d \<noteq> [] \<and> (ct = [] \<or> HasPrefix ct ''video/''))))"

lemma verify_and_publish_spec:
  assumes i: "inv w" and run: "verify_and_publish h videoID key user msg r wh w = (res, w')"
  shows "inv w' \<and> obj w' = obj w \<and>
     (\<exists>n. sent w' = sent w @ replicate n (VideoUploadedEvent videoID key user) \<and> n \<le> 2 \<and>
        (Status res = 200 \<longrightarrow> 1 \<le> n) \<and>
        (1 \<le> n \<longrightarrow> (\<exists>d ct. obj w' key = Some (d, ct) \<and> d \<noteq> [] \<and> (ct = [] \<or> HasPrefix ct ''video/''))))"
proof -
  obtain a w1 where st: "us_StatObjectInfo (uh_storage h) key w = (a, w1)" by (rule that, rule surjective_pairing)
  note s1 = stat [OF st]
  show ?thesis
  proof (cases "\<exists>n ct. a = Inr (n, ct) \<and> n \<noteq> 0 \<and> (ct = [] \<or> HasPrefix ct ''video/'')")
    case False
    then have "w' = w1 \<and> Status res \<noteq> 200"
      using run st by (auto simp: verify_and_publish_def split: sum.splits prod.splits if_splits)
    then show ?thesis using s1 i by (auto intro!: exI [of _ 0])
  next
    case True
    then obtain n ct where a: "a = Inr (n, ct)" "n \<noteq> 0" "ct = [] \<or> HasPrefix ct ''video/''" by blast
    let ?ev = "VideoUploadedEvent videoID key user"
    obtain e w2 where pb: "uh_publisher h ?ev (uh_bytes h 1 w1) = (e, w2)" by (rule that, rule surjective_pairing)
    have r2: "w' = w2" "Status res = 200 \<longleftrightarrow> e = None"
      using run st a pb by (auto simp: verify_and_publish_def split: option.splits)
    from a s1 obtain d where d: "obj w key = Some (d, ct)" "d \<noteq> []" by auto
    have "inv (uh_bytes h 1 w1)" using i s1 bytes by simp
    from publish [OF this pb] obtain k where k: "inv w2" "obj w2 = obj w"
        "sent w2 = sent w @ replicate k ?ev" "k \<le> 2" "e = None \<longrightarrow> 1 \<le> k"
      using s1 bytes by auto
    then show ?thesis using r2 a d by (intro conjI exI [of _ k]) auto
  qed
qed

lemma Complete_announces:
  assumes i: "inv w" and run: "Complete h r wh w = (res, w')"
  shows "inv w' \<and> obj w' = obj w \<and> announced (complete_id r) r res w w'"
proof (cases "own w (complete_id r) = Inr (UserIDFromCtx r) \<and> complete_id r \<noteq> []")
  case True
  with Complete_body [OF refl run] obtain w1 where w1: "obj w1 = obj w" "sent w1 = sent w" "inv w1 = inv w"
    "verify_and_publish h (complete_id r) (rawKey (complete_id r)) (UserIDFromCtx r)
      ''object not found, upload via presigned URL first'' r wh w1 = (res, w')" by auto
  have "inv w1" using i w1(3) by simp
  from verify_and_publish_spec [OF this w1(4), unfolded w1(1,2)] True show ?thesis
    unfolding announced_def by blast
next
  case False
  have "(obj w', sent w', inv w') = (obj w, sent w, inv w) \<and> Status res \<noteq> 200"
  proof (cases "complete_id r = []")
    case True
    then show ?thesis using run by (auto simp: Complete_def Let_def)
  next
    case neq: False
    then show ?thesis using False Complete_gate [OF refl run] by auto
  qed
  then show ?thesis using i by (auto simp: announced_def intro!: exI [of _ 0])
qed

lemma mp_Complete_announces:
  assumes i: "inv w" and run: "mp_Complete h r wh w = (res, w')"
  shows "inv w' \<and> (\<forall>k. k \<noteq> rawKey (UrlId r) \<longrightarrow> obj w' k = obj w k) \<and> announced (UrlId r) r res w w'"
proof (cases "own w (UrlId r) = Inr (UserIDFromCtx r) \<and> UrlId r \<noteq> []")
  case True
  from True owned_id_body [OF refl run [unfolded mp_Complete_def]] obtain w1
    where w1: "obj w1 = obj w" "sent w1 = sent w" "inv w1 = inv w" and
      b: "(let ownerID = UserIDFromCtx r; key = multipartKey (UrlId r) in
      case us_FindUploadID (uh_storage h) key w1 of
        (Inl err, w) \<Rightarrow> (writeError wh r 404 ''multipart upload not found'', w)
      | (Inr uploadID, w) \<Rightarrow>
        (case us_ListParts (uh_storage h) key uploadID w of
           (Inl err, w) \<Rightarrow> (writeError wh r 500 ''list parts failed'', w)
         | (Inr parts, w) \<Rightarrow>
           if parts = [] then (writeError wh r 400 ''no parts uploaded'', w)
           else (case us_CompleteMultipartUpload (uh_storage h) key uploadID parts w of
               (Inl err, w) \<Rightarrow> (writeError wh r 500 ''complete multipart upload failed'', w)
             | (Inr _, w) \<Rightarrow>
               verify_and_publish h (UrlId r) key ownerID ''assembled object not found'' r wh w))) = (res, w')"
    by auto
  have key: "multipartKey (UrlId r) = rawKey (UrlId r)" by (simp add: multipartKey_def rawKey_def)
  obtain f w2 where f: "us_FindUploadID (uh_storage h) (rawKey (UrlId r)) w1 = (f, w2)"
    by (rule that, rule surjective_pairing)
  obtain p w3 where p: "us_ListParts (uh_storage h) (rawKey (UrlId r)) (projr f) w2 = (p, w3)"
    by (rule that, rule surjective_pairing)
  obtain z w4 where z: "us_CompleteMultipartUpload (uh_storage h) (rawKey (UrlId r)) (projr f) (projr p) w3 = (z, w4)"
    by (rule that, rule surjective_pairing)
  note fr = find [OF f] parts [OF p] assemble [OF z]
  consider "sent w' = sent w" "inv w'" "\<forall>k. k \<noteq> rawKey (UrlId r) \<longrightarrow> obj w' k = obj w k" "Status res \<noteq> 200"
    | "verify_and_publish h (UrlId r) (rawKey (UrlId r)) (UserIDFromCtx r) ''assembled object not found'' r wh w4 = (res, w')"
    using b fr i w1 f p z
    by (cases f; cases p; cases z) (auto simp: Let_def key split: if_splits)
  then show ?thesis
  proof cases
    case 1
    then show ?thesis using i by (auto simp: announced_def intro!: exI [of _ 0])
  next
    case 2
    have w4: "inv w4" "sent w4 = sent w" "\<forall>k. k \<noteq> rawKey (UrlId r) \<longrightarrow> obj w4 k = obj w k"
      using fr w1 i by auto
    note v = verify_and_publish_spec [OF w4(1) 2, unfolded w4(2)]
    then have "\<forall>k. k \<noteq> rawKey (UrlId r) \<longrightarrow> obj w' k = obj w k" using w4(3) by simp
    then show ?thesis using v True unfolding announced_def by blast
  qed
next
  case False
  have "(obj w', sent w', inv w') = (obj w, sent w, inv w) \<and> Status res \<noteq> 200"
  proof (cases "UrlId r = []")
    case True
    then show ?thesis using run by (auto simp: mp_Complete_def with_owned_id_def)
  next
    case neq: False
    then show ?thesis using False owned_id_gate [OF refl run [unfolded mp_Complete_def]] by auto
  qed
  then show ?thesis using i by (auto simp: announced_def intro!: exI [of _ 0])
qed

text \<open>Either completion: what is announced belongs to the caller and is stored.\<close>

lemma completion_announces:
  assumes i: "inv w" and H: "H \<in> {Complete h, mp_Complete h}" and run: "H r wh w = (res, w')"
  shows "(Status res = 200 \<longrightarrow> sent w' \<noteq> sent w) \<and>
    (sent w' = sent w \<or>
     own w (complete_id r) = Inr (UserIDFromCtx r) \<and>
     (\<exists>n d ct. 1 \<le> n \<and> n \<le> 2 \<and>
        sent w' = sent w @ replicate n (VideoUploadedEvent (complete_id r) (rawKey (complete_id r)) (UserIDFromCtx r)) \<and>
        obj w' (rawKey (complete_id r)) = Some (d, ct) \<and> d \<noteq> [] \<and> (ct = [] \<or> HasPrefix ct ''video/'')))"
proof -
  have "announced (complete_id r) r res w w'"
  proof (cases "H = Complete h")
    case True
    then show ?thesis using Complete_announces [OF i] run by blast
  next
    case False
    then have m: "mp_Complete h r wh w = (res, w')" using H run by auto
    show ?thesis
    proof (cases "UrlId r = []")
      case True
      then have "w' = w" "Status res \<noteq> 200" using m by (auto simp: mp_Complete_def with_owned_id_def)
      then show ?thesis by (auto simp: announced_def intro!: exI [of _ 0])
    next
      case False
      then have "complete_id r = UrlId r" by (simp add: complete_id_def)
      then show ?thesis using mp_Complete_announces [OF i m] by simp
    qed
  qed
  then obtain n where n: "sent w' = sent w @ replicate n (VideoUploadedEvent (complete_id r) (rawKey (complete_id r)) (UserIDFromCtx r))"
      "n \<le> 2" "Status res = 200 \<longrightarrow> 1 \<le> n"
      "1 \<le> n \<longrightarrow> own w (complete_id r) = Inr (UserIDFromCtx r) \<and> (\<exists>d ct. obj w' (rawKey (complete_id r)) = Some (d, ct) \<and>
         d \<noteq> [] \<and> (ct = [] \<or> HasPrefix ct ''video/''))"
    unfolding announced_def by blast
  show ?thesis
  proof (cases "n = 0")
    case True
    then show ?thesis using n(1,3) by simp
  next
    case False
    then show ?thesis using n by (intro conjI disjI2) auto
  qed
qed

end

lemma chunk_request_simps [simp]:
  "UrlId (chunk_request r off c n) = UrlId r" "UserIDFromCtx (chunk_request r off c n) = UserIDFromCtx r"
  "upload_max_bytes (chunk_request r off c n) = upload_max_bytes r"
  "BodyText (chunk_request r off c n) = c" "BodyErr (chunk_request r off c n) = None"
  "hget (ReqHeader (chunk_request r off c n)) ''Content-Range'' = content_range off (off + int (length c) - 1) (Some n)"
  by (simp_all add: chunk_request_def UserIDFromCtx_def upload_max_bytes_def)

lemma rs_answer_status: "Status (rs_answer (Some t) n r wh) = (if n = t then 200 else 308)"
  by (simp add: rs_answer_def)

locale working_service = upload_service + working_store "uh_storage h" obj "\<lambda>w. (sent w, inv w)"
begin

text \<open>One chunk: what was stored before it, the chunk behind it, and 200 for the last one.\<close>

lemma chunk_works:
  assumes owner: "own w (UrlId r) = Inr (UserIDFromCtx r)" "UrlId r \<noteq> []"
    and max: "off + int (length c) \<le> n" "n \<le> upload_max_bytes r" "upload_max_bytes r < MaxInt64"
    and off: "0 \<le> off" "int (length pre) = off" "c \<noteq> []"
    and old: "if off = 0 then obj w (rawKey (UrlId r)) = None else \<exists>ct. obj w (rawKey (UrlId r)) = Some (pre, ct)"
    and run: "rs_Upload h (chunk_request r off c n) no_header w = (res, w')"
  shows "Status res = (if off + int (length c) = n then 200 else 308)"
    "\<exists>ct. obj w' (rawKey (UrlId r)) = Some (pre @ c, ct)"
proof -
  let ?r = "chunk_request r off c n" and ?key = "rawKey (UrlId r)" and ?e = "off + int (length c) - 1"
  have "own w (UrlId ?r) = Inr (UserIDFromCtx ?r)" "UrlId ?r \<noteq> []" using owner by simp_all
  from owned_id_body [OF refl run [unfolded rs_Upload_def] this] obtain w1
    where w1: "obj w1 = obj w" and b1: "rs_upload_body h (UrlId r) ?r no_header w1 = (res, w')" by auto
  have pos: "1 \<le> int (length c)" using off(3) by (cases c) auto
  have bnd: "0 \<le> off" "off \<le> ?e" "?e \<le> MaxInt64" "case Some n of Some t \<Rightarrow> 0 \<le> t \<and> t \<le> MaxInt64 | None \<Rightarrow> True"
    using off max pos by auto
  have run1: "rs_put_chunk h (upload_max_bytes r) ?key off ?e (Some n) ?r no_header w1 = (res, w')"
    using Upload_chunk_spec [of h ?r off ?e "Some n" "UrlId r" no_header w1] bnd b1 by simp
  have old1: "if off = 0 then obj w1 ?key = None else \<exists>d ct. obj w1 ?key = Some (d, ct) \<and> int (length d) = off"
    using old off(2) w1 by auto
  have "fst (rs_put_chunk h (upload_max_bytes r) ?key off ?e (Some n) ?r no_header w1)
      = rs_answer (Some n) (?e + 1) ?r no_header"
    using bnd old1 max by (intro put_chunk_works) auto
  then have res: "res = rs_answer (Some n) (off + int (length c)) ?r no_header" using run1 by simp
  then show st: "Status res = (if off + int (length c) = n then 200 else 308)" by (simp add: rs_answer_status)
  from put_chunk_spec [OF refl bnd(1-3) run1] st
  obtain p where p: "int (length p) = off" "off = 0 \<or> (\<exists>ct. obj w1 ?key = Some (p, ct))"
      "obj w' = (obj w1)(?key \<mapsto> (p @ c, content_type_or_mp4 ?r))"
    by (auto split: if_splits)
  have "p = pre" using p(1,2) old off(2) w1 by (auto split: if_splits)
  then show "\<exists>ct. obj w' ?key = Some (pre @ c, ct)" using p(3) by simp
qed

lemma send_chunks_works:
  assumes keep: "\<And>off c w res w'. own w (UrlId r) = Inr (UserIDFromCtx r) \<Longrightarrow>
      rs_Upload h (chunk_request r off c n) no_header w = (res, w') \<Longrightarrow> own w' (UrlId r) = Inr (UserIDFromCtx r)"
    and url: "UrlId r \<noteq> []"
    and max: "n \<le> upload_max_bytes r" "upload_max_bytes r < MaxInt64"
  shows "\<lbrakk>own w (UrlId r) = Inr (UserIDFromCtx r); n = off + int (length (concat cs)); 0 \<le> off; int (length pre) = off; \<forall>c \<in> set cs. c \<noteq> []; cs \<noteq> [];
    if off = 0 then obj w (rawKey (UrlId r)) = None else \<exists>ct. obj w (rawKey (UrlId r)) = Some (pre, ct);
    send_chunks (rs_Upload h) r n off cs w = (codes, w')\<rbrakk>
   \<Longrightarrow> codes = replicate (length cs - 1) 308 @ [200] \<and>
      (\<exists>ct. obj w' (rawKey (UrlId r)) = Some (pre @ concat cs, ct))"
proof (induction cs arbitrary: off pre w codes w')
  case Nil
  then show ?case by simp
next
  case (Cons c cs)
  let ?key = "rawKey (UrlId r)"
  obtain res w1 where run: "rs_Upload h (chunk_request r off c n) no_header w = (res, w1)"
    by (rule that, rule surjective_pairing)
  obtain codes1 w2 where rest: "send_chunks (rs_Upload h) r n (off + int (length c)) cs w1 = (codes1, w2)"
    by (rule that, rule surjective_pairing)
  note p = Cons.prems(2-)
  have out: "codes = Status res # codes1" "w' = w2" using p(7) run rest by auto
  have "off + int (length c) \<le> n" "c \<noteq> []" using p(1,4) by auto
  note step = chunk_works [OF Cons.prems(1) url this(1) max p(2,3) this(2) p(6) run]
  show ?case
  proof (cases "cs = []")
    case True
    then show ?thesis using step out rest p(1) by simp
  next
    case False
    have pos: "0 < off + int (length c)" using p(2,4) by (cases c) auto
    have "concat cs \<noteq> []" using False p(4) by (cases cs) auto
    then have lt: "off + int (length c) \<noteq> n" using p(1) by auto
    have ih: "codes1 = replicate (length cs - 1) 308 @ [200] \<and> (\<exists>ct. obj w2 ?key = Some ((pre @ c) @ concat cs, ct))"
      by (rule Cons.IH [OF keep [OF Cons.prems(1) run] _ _ _ _ False _ rest])
         (use p(1-4) pos step(2) in auto)
    have "replicate (length cs) (308::nat) = 308 # replicate (length cs - 1) 308"
      using False by (cases cs) auto
    then show ?thesis using ih step(1) lt out by simp
  qed
qed

end

end
