(* ===== verification/Up_Reconciler.thy ===== *)
theory Up_Reconciler
  imports Up_Service
begin

text \<open>
  \<open>services/upload/internal/reconciler/reconciler.go\<close>: the job that heals videos that stay in
  \<open>uploaded\<close>. A row whose object is stored gets its event again, any other is failed. Main
  result: one pass over a store that works does exactly this for every row of the list.
\<close>

subsection \<open>The reconciler\<close>

record 'w Reconciler =
  rc_ListStaleUploaded :: "int \<Rightarrow> int \<Rightarrow> (StaleRow list, 'w) eff"
  rc_SetStatus :: "string \<Rightarrow> string \<Rightarrow> 'w \<Rightarrow> go_error option \<times> 'w"
  rc_StatObjectSize :: "string \<Rightarrow> (int, 'w) eff"
  rc_FindUploadID :: "string \<Rightarrow> (string, 'w) eff"
  rc_AbortMultipartUpload :: "string \<Rightarrow> string \<Rightarrow> (unit, 'w) eff"
  rc_publisher :: "'w PublisherI"
  rc_ttl :: int
  rc_limit :: int

definition rc_New :: "'w Reconciler \<Rightarrow> 'w Reconciler" where
  "rc_New rc = (if rc_limit rc \<le> 0 then rc\<lparr>rc_limit := 100\<rparr> else rc)"

text \<open>One row: the object is there, or the upload is taken for abandoned.\<close>

definition rc_republish :: "'w Reconciler \<Rightarrow> StaleRow \<Rightarrow> 'w \<Rightarrow> 'w" where
  "rc_republish rc v w =
     snd (rc_publisher rc (VideoUploadedEvent (sr_ID v) (rawKey (sr_ID v)) (sr_OwnerID v)) w)"

definition rc_fail :: "'w Reconciler \<Rightarrow> StaleRow \<Rightarrow> 'w \<Rightarrow> 'w" where
  "rc_fail rc v w =
     (let key = rawKey (sr_ID v);
          w = (case rc_FindUploadID rc key w of
                 (Inr uploadID, w) \<Rightarrow> snd (rc_AbortMultipartUpload rc key uploadID w)
               | (Inl err, w) \<Rightarrow> w)
      in snd (rc_SetStatus rc (sr_ID v) ''failed'' w))"

definition rc_handle :: "'w Reconciler \<Rightarrow> StaleRow \<Rightarrow> 'w \<Rightarrow> 'w" where
  "rc_handle rc v w =
     (case rc_StatObjectSize rc (rawKey (sr_ID v)) w of
        (Inr n, w) \<Rightarrow> if 0 < n then rc_republish rc v w else rc_fail rc v w
      | (Inl err, w) \<Rightarrow> rc_fail rc v w)"

definition rc_reconcile :: "'w Reconciler \<Rightarrow> 'w \<Rightarrow> 'w" where
  "rc_reconcile rc w =
     (case rc_ListStaleUploaded rc (rc_ttl rc) (rc_limit rc) w of
        (Inl err, w) \<Rightarrow> w | (Inr stale, w) \<Rightarrow> fold (rc_handle rc) stale w)"

text \<open>What the publish of a row answers when the row is handled in the world \<open>w\<close>.\<close>

definition rc_published :: "'w Reconciler \<Rightarrow> 'w \<Rightarrow> StaleRow \<Rightarrow> bool" where
  "rc_published rc w v \<longleftrightarrow> fst (rc_publisher rc (VideoUploadedEvent (sr_ID v) (rawKey (sr_ID v)) (sr_OwnerID v))
     (snd (rc_StatObjectSize rc (rawKey (sr_ID v)) w))) = None"

text \<open>\<open>Run\<close>: a pass per tick; \<open>n\<close> ticks come before the context ends.\<close>

primrec rc_Run :: "'w Reconciler \<Rightarrow> nat \<Rightarrow> 'w \<Rightarrow> 'w" where
  "rc_Run rc 0 w = w"
| "rc_Run rc (Suc n) w = rc_Run rc n (rc_reconcile rc w)"

subsection \<open>What it relies on\<close>

text \<open>
  \<open>marked w\<close> are the status changes requested so far, \<open>mk i st\<close> is the request for one. The store works: it reports the size of
  an object that is there and an error for one that is not.
\<close>

locale reconciler_deps =
  fixes rc :: "'w Reconciler" and obj :: "'w \<Rightarrow> objects" and sent :: "'w \<Rightarrow> json list"
    and inv :: "'w \<Rightarrow> bool" and marked :: "'w \<Rightarrow> 'x list" and mk :: "string \<Rightarrow> string \<Rightarrow> 'x"
  assumes rc_list: "rc_ListStaleUploaded rc t l w = (a, w') \<Longrightarrow>
      obj w' = obj w \<and> sent w' = sent w \<and> inv w' = inv w \<and> marked w' = marked w"
    and rc_stat: "rc_StatObjectSize rc k w = (b, w') \<Longrightarrow>
      obj w' = obj w \<and> sent w' = sent w \<and> inv w' = inv w \<and> marked w' = marked w \<and>
      (case obj w k of Some (d, ct) \<Rightarrow> b = Inr (int (length d)) | None \<Rightarrow> \<exists>err. b = Inl err)"
    and rc_find: "rc_FindUploadID rc k w = (c, w') \<Longrightarrow>
      obj w' = obj w \<and> sent w' = sent w \<and> inv w' = inv w \<and> marked w' = marked w"
    and rc_abort: "rc_AbortMultipartUpload rc k u w = (e, w') \<Longrightarrow>
      obj w' = obj w \<and> sent w' = sent w \<and> inv w' = inv w \<and> marked w' = marked w"
    and rc_pub: "inv w \<Longrightarrow> rc_publisher rc body w = (f, w') \<Longrightarrow>
      inv w' \<and> obj w' = obj w \<and> marked w' = marked w \<and>
      (\<exists>n. sent w' = sent w @ replicate n body \<and> n \<le> 2 \<and> (f = None \<longrightarrow> 1 \<le> n))"
    and rc_mark: "rc_SetStatus rc i st w = (g, w') \<Longrightarrow>
      obj w' = obj w \<and> sent w' = sent w \<and> inv w' = inv w \<and> marked w' = marked w @ [mk i st]"
begin

lemma rc_fail_spec:
  "obj (rc_fail rc v w) = obj w \<and> sent (rc_fail rc v w) = sent w \<and> inv (rc_fail rc v w) = inv w \<and>
   marked (rc_fail rc v w) = marked w @ [mk (sr_ID v) ''failed'']"
proof -
  let ?key = "rawKey (sr_ID v)"
  obtain c w1 where f: "rc_FindUploadID rc ?key w = (c, w1)" by (rule that, rule surjective_pairing)
  obtain e w2 where a: "rc_AbortMultipartUpload rc ?key (projr c) w1 = (e, w2)" by (rule that, rule surjective_pairing)
  let ?w = "case c of Inr u \<Rightarrow> w2 | Inl err \<Rightarrow> w1"
  obtain g w3 where m: "rc_SetStatus rc (sr_ID v) ''failed'' ?w = (g, w3)" by (rule that, rule surjective_pairing)
  have "rc_fail rc v w = w3" using f a m by (cases c) (auto simp: rc_fail_def Let_def)
  moreover have "obj ?w = obj w \<and> sent ?w = sent w \<and> inv ?w = inv w \<and> marked ?w = marked w"
    using rc_find [OF f] rc_abort [OF a] by (cases c) auto
  ultimately show ?thesis using rc_mark [OF m] by simp
qed

definition stored :: "'w \<Rightarrow> StaleRow \<Rightarrow> bool" where
  "stored w v \<longleftrightarrow> (case obj w (rawKey (sr_ID v)) of Some (d, ct) \<Rightarrow> d \<noteq> [] | None \<Rightarrow> False)"

definition row_event :: "StaleRow \<Rightarrow> json" where
  "row_event v = VideoUploadedEvent (sr_ID v) (rawKey (sr_ID v)) (sr_OwnerID v)"

lemma rc_handle_spec:
  assumes i: "inv w"
  shows "inv (rc_handle rc v w) \<and> obj (rc_handle rc v w) = obj w \<and>
    marked (rc_handle rc v w) = marked w @ (if stored w v then [] else [mk (sr_ID v) ''failed'']) \<and>
    (\<exists>n. sent (rc_handle rc v w) = sent w @ replicate n (row_event v) \<and> (\<not> stored w v \<longrightarrow> n = 0) \<and>
       (stored w v \<and> rc_published rc w v \<longrightarrow> 1 \<le> n))"
proof -
  obtain b w1 where s: "rc_StatObjectSize rc (rawKey (sr_ID v)) w = (b, w1)" by (rule that, rule surjective_pairing)
  note s1 = rc_stat [OF s]
  show ?thesis
  proof (cases "stored w v")
    case True
    then obtain d ct where d: "obj w (rawKey (sr_ID v)) = Some (d, ct)" "d \<noteq> []"
      by (auto simp: stored_def split: option.splits)
    then have "b = Inr (int (length d))" using s1 by simp
    with d(2) have h: "rc_handle rc v w = rc_republish rc v w1" using s by (simp add: rc_handle_def)
    obtain f w2 where p: "rc_publisher rc (row_event v) w1 = (f, w2)" by (rule that, rule surjective_pairing)
    have "inv w1" using i s1 by simp
    from rc_pub [OF this p] obtain n where n: "inv w2" "obj w2 = obj w" "marked w2 = marked w"
        "sent w2 = sent w @ replicate n (row_event v)" "f = None \<longrightarrow> 1 \<le> n"
      using s1 by auto
    have "rc_handle rc v w = w2" using h p by (simp add: rc_republish_def row_event_def)
    moreover have "rc_published rc w v \<longrightarrow> 1 \<le> n" using n(5) p s by (simp add: rc_published_def row_event_def)
    ultimately show ?thesis using n True by (intro conjI exI [of _ n]) auto
  next
    case False
    then have "rc_handle rc v w = rc_fail rc v w1"
      using s s1 by (auto simp: rc_handle_def stored_def split: option.splits sum.splits)
    then show ?thesis using rc_fail_spec [of v w1] s1 i False by (auto intro: exI [of _ 0])
  qed
qed

text \<open>A pass: events for the stored ones, in the order of the list, and a mark for each of the others.\<close>

lemma handle_all:
  "inv w \<Longrightarrow>
    inv (fold (rc_handle rc) vs w) \<and> obj (fold (rc_handle rc) vs w) = obj w \<and>
    marked (fold (rc_handle rc) vs w) =
      marked w @ map (\<lambda>v. mk (sr_ID v) ''failed'') (filter (\<lambda>v. \<not> stored w v) vs) \<and>
    (\<exists>evs. sent (fold (rc_handle rc) vs w) = sent w @ evs \<and>
       set evs \<subseteq> row_event ` {v \<in> set vs. stored w v} \<and>
       (\<forall>i < length vs. stored w (vs ! i) \<and> rc_published rc (fold (rc_handle rc) (take i vs) w) (vs ! i) \<longrightarrow>
          row_event (vs ! i) \<in> set evs))"
proof (induction vs arbitrary: w)
  case Nil
  then show ?case by (auto intro: exI [of _ "[]"])
next
  case (Cons v vs)
  let ?w1 = "rc_handle rc v w"
  from rc_handle_spec [OF Cons.prems, of v] obtain n where h: "inv ?w1" "obj ?w1 = obj w"
      "marked ?w1 = marked w @ (if stored w v then [] else [mk (sr_ID v) ''failed''])"
      "sent ?w1 = sent w @ replicate n (row_event v)" "\<not> stored w v \<longrightarrow> n = 0"
      "stored w v \<and> rc_published rc w v \<longrightarrow> 1 \<le> n"
    by auto
  have st: "stored ?w1 = stored w" using h(2) by (simp add: stored_def fun_eq_iff)
  from Cons.IH [OF h(1), unfolded st h(2,3,4)] obtain evs
    where ih: "inv (fold (rc_handle rc) vs ?w1)" "obj (fold (rc_handle rc) vs ?w1) = obj w"
      "marked (fold (rc_handle rc) vs ?w1) = (marked w @ (if stored w v then [] else [mk (sr_ID v) ''failed''])) @
         map (\<lambda>v. mk (sr_ID v) ''failed'') (filter (\<lambda>v. \<not> stored w v) vs)"
      "sent (fold (rc_handle rc) vs ?w1) = (sent w @ replicate n (row_event v)) @ evs"
      "set evs \<subseteq> row_event ` {v \<in> set vs. stored w v}"
      "\<forall>i < length vs. stored w (vs ! i) \<and> rc_published rc (fold (rc_handle rc) (take i vs) ?w1) (vs ! i) \<longrightarrow>
          row_event (vs ! i) \<in> set evs"
    by blast
  let ?evs = "replicate n (row_event v) @ evs"
  have sub: "set ?evs \<subseteq> row_event ` {u \<in> set (v # vs). stored w u}"
    using ih(5) h(5) by auto
  have all: "row_event ((v # vs) ! i) \<in> set ?evs"
    if "i < length (v # vs)" "stored w ((v # vs) ! i)"
      "rc_published rc (fold (rc_handle rc) (take i (v # vs)) w) ((v # vs) ! i)" for i
    using that h(6) ih(6) by (cases i) auto
  show ?case using ih(1-4) sub all by (intro conjI exI [of _ ?evs]) auto
qed

end

end
