(* ===== verification/Up_Main.thy ===== *)
theory Up_Main
  imports Up_Reconciler
begin

text \<open>
  \<open>services/upload/cmd/server/main.go\<close>: the upload service put together. Its world is the state of
  the three systems it talks to (the metadata service, the object store, the broker), with the
  state of its publisher and its byte counter. The code's own clients interpret the locales of
  \<open>Up_Service\<close>, under the documented behaviour of the libraries behind them, and the guarantees
  of the routes follow.
\<close>

subsection \<open>The world and the clients\<close>

record ('m, 's, 'q) up_world =
  w_meta :: 'm
  w_s3 :: 's
  w_pub :: Publisher
  w_mq :: 'q
  w_bytes :: int

definition on_meta :: "('m \<Rightarrow> 'a \<times> 'm) \<Rightarrow> ('m, 's, 'q) up_world \<Rightarrow> 'a \<times> ('m, 's, 'q) up_world" where
  "on_meta f w = (case f (w_meta w) of (a, m) \<Rightarrow> (a, w\<lparr>w_meta := m\<rparr>))"

definition on_s3 :: "('s \<Rightarrow> 'a \<times> 's) \<Rightarrow> ('m, 's, 'q) up_world \<Rightarrow> 'a \<times> ('m, 's, 'q) up_world" where
  "on_s3 f w = (case f (w_s3 w) of (a, s) \<Rightarrow> (a, w\<lparr>w_s3 := s\<rparr>))"

definition on_mq :: "'q amqp \<Rightarrow> json \<Rightarrow> ('m, 's, 'q) up_world \<Rightarrow> go_error option \<times> ('m, 's, 'q) up_world" where
  "on_mq A body w = (case Publish A body (w_pub w) (w_mq w) of (e, p, q) \<Rightarrow> (e, w\<lparr>w_pub := p, w_mq := q\<rparr>))"

text \<open>The handlers of \<open>main\<close> share the clients; \<open>live\<close> is the life of a request's context in calls.\<close>

definition service ::
  "'m MetadataClient \<Rightarrow> 's UpMinioClient \<Rightarrow> 'q amqp \<Rightarrow> nat \<Rightarrow> ('m, 's, 'q) up_world UploadService" where
  "service c m A live =
     \<lparr>uh_storage =
        \<lparr>us_PutObject = (\<lambda>k d n ct. on_s3 (up_PutObject m k d n ct)),
         us_PresignedPutObjectExternal = up_PresignedPutObjectExternal m,
         us_StatObjectInfo = (\<lambda>k. on_s3 (up_StatObjectInfo m k)),
         us_StatObjectSize = (\<lambda>k. on_s3 (up_StatObjectSize m k)),
         us_GetObject = (\<lambda>k. on_s3 (up_GetObject m k)),
         us_CreateMultipartUpload = (\<lambda>k ct. on_s3 (up_CreateMultipartUpload m k ct)),
         us_FindUploadID = (\<lambda>k. on_s3 (up_FindUploadID m k)),
         us_ListParts = (\<lambda>k u. on_s3 (up_ListParts m live k u)),
         us_CompleteMultipartUpload = (\<lambda>k u ps. on_s3 (up_CompleteMultipartUpload m k u ps)),
         us_PresignPart = up_PresignPart m\<rparr>,
      uh_publisher = on_mq A,
      uh_metadata = (\<lambda>tok t d. on_meta (CreateVideo c tok t d)),
      uh_owner = (\<lambda>i. on_meta (GetVideoOwner c i)),
      uh_bytes = (\<lambda>n w. w\<lparr>w_bytes := w_bytes w + n\<rparr>)\<rparr>"

text \<open>A positive number of seconds from the environment, as a duration.\<close>

definition secondsEnv :: "(string \<Rightarrow> string) \<Rightarrow> string \<Rightarrow> int \<Rightarrow> int" where
  "secondsEnv getenv k def =
     (case Atoi (getenv k) of (n, ok) \<Rightarrow>
        if ok \<and> 0 < n then wrap64 (n * 1000000000) else def * 1000000000)"

definition up_reconciler ::
  "'m MetadataClient \<Rightarrow> 's UpMinioClient \<Rightarrow> 'q amqp \<Rightarrow> (string \<Rightarrow> string) \<Rightarrow> ('m, 's, 'q) up_world Reconciler" where
  "up_reconciler c m A getenv =
     rc_New
       \<lparr>rc_ListStaleUploaded = (\<lambda>t l. on_meta (ClListStaleUploaded c t l)),
        rc_SetStatus = (\<lambda>i st. on_meta (ClSetStatus c i st)),
        rc_StatObjectSize = (\<lambda>k. on_s3 (up_StatObjectSize m k)),
        rc_FindUploadID = (\<lambda>k. on_s3 (up_FindUploadID m k)),
        rc_AbortMultipartUpload = (\<lambda>k u. on_s3 (up_AbortMultipartUpload m k u)),
        rc_publisher = on_mq A,
        rc_ttl = secondsEnv getenv ''UPLOAD_STALE_TTL_SECONDS'' 3600,
        rc_limit = 100\<rparr>"

text \<open>The routes behind \<open>AuthMiddleware\<close>: those that make a new video, and those on a video.\<close>

definition create_routes :: "'w UploadService \<Rightarrow> (string \<times> string \<times> 'w handler) list" where
  "create_routes h =
     [(''POST'', ''/api/v1/videos/upload'', Upload h),
      (''POST'', ''/api/v1/videos/presign'', Presign h),
      (''POST'', ''/api/v1/videos/multipart'', mp_Create h)]"

definition video_routes :: "'w UploadService \<Rightarrow> (string \<times> string \<times> 'w handler) list" where
  "video_routes h =
     [(''POST'', ''/api/v1/videos/{id}/complete'', Complete h),
      (''POST'', ''/api/v1/videos/complete'', Complete h),
      (''GET'', ''/api/v1/videos/{id}/resumable'', rs_Status h),
      (''PUT'', ''/api/v1/videos/{id}/resumable'', rs_Upload h),
      (''GET'', ''/api/v1/videos/{id}/multipart'', mp_Parts h),
      (''POST'', ''/api/v1/videos/{id}/multipart/presign-part'', mp_PresignPart h),
      (''POST'', ''/api/v1/videos/{id}/multipart/complete'', mp_Complete h)]"

lemma service_simps [simp]:
  "uh_owner (service c m A live) = (\<lambda>i. on_meta (GetVideoOwner c i))"
  "uh_publisher (service c m A live) = on_mq A"
  "uh_bytes (service c m A live) n w = w\<lparr>w_bytes := w_bytes w + n\<rparr>"
  by (simp_all add: service_def)

subsection \<open>The ownership check\<close>

definition now_owner :: "'m MetadataClient \<Rightarrow> ('m, 's, 'q) up_world \<Rightarrow> string \<Rightarrow> go_error + string" where
  "now_owner c w i = fst (GetVideoOwner c i (w_meta w))"

definition stores :: "('m, 's, 'q) up_world \<Rightarrow> 's \<times> Publisher \<times> 'q \<times> int" where
  "stores w = (w_s3 w, w_pub w, w_mq w, w_bytes w)"

interpretation owner: ownership_checker "uh_owner (service c m A live)" "now_owner c" stores
  for c m A live
  by unfold_locales (auto simp: on_meta_def now_owner_def stores_def split: prod.splits)

lemma complete_id_url: "UrlId r \<noteq> [] \<Longrightarrow> complete_id r = UrlId r"
  by (simp add: complete_id_def)

text \<open>The handlers of the second table begin with the check.\<close>

lemma video_routes_gate:
  assumes "(meth, pat, H) \<in> set (video_routes (service c m A live))" "H r wh w = (res, w')"
    and "now_owner c w (complete_id r) \<noteq> Inr (UserIDFromCtx r)"
  shows "stores w' = stores w"
proof -
  let ?h = "service c m A live"
  have c: "stores w' = stores w" if "Complete ?h r wh w = (res, w')"
    using owner.Complete_gate [OF refl that assms(3)] by simp
  have o: "stores w' = stores w" if "with_owned_id ?h body r wh w = (res, w')" for body
  proof (cases "UrlId r = []")
    case True
    then show ?thesis using that by (auto simp: with_owned_id_def)
  next
    case False
    then show ?thesis using owner.owned_id_gate [OF refl that] assms(3) complete_id_url [OF False] by simp
  qed
  show ?thesis
    using assms(1,2) c o [of "rs_upload_body ?h"]
    by (auto simp: video_routes_def rs_Upload_def rs_Status_def mp_Parts_def mp_PresignPart_def mp_Complete_def
        intro: o)
qed

subsection \<open>The object store and the broker\<close>

text \<open>
  S3's documentation for the calls on the service's bucket, with \<open>ov s\<close> its objects: a put stores
  the object as a whole or, when it fails, possibly nothing; reads and listings change nothing
  and report what is there; completing a session touches its own key only.
\<close>

definition s3_docs :: "'s UpMinioClient \<Rightarrow> ('s \<Rightarrow> objects) \<Rightarrow> bool" where
  "s3_docs m ov \<longleftrightarrow> (let C = um_client m; b = um_bucket m in
     (\<forall>k d ct s a s'. mn_put C b k d (int (length d)) ct s = (a, s') \<longrightarrow>
        ov s' = (ov s)(k \<mapsto> (d, ct)) \<or> a \<noteq> Inr () \<and> ov s' = ov s) \<and>
     (\<forall>k s a s'. mn_stat C b k s = (a, s') \<longrightarrow> ov s' = ov s \<and>
        (case a of Inr (n, ct) \<Rightarrow> \<exists>d. ov s k = Some (d, ct) \<and> n = int (length d) | Inl _ \<Rightarrow> True)) \<and>
     (\<forall>k s g s'. mn_get C b k s = (g, s') \<longrightarrow> ov s' = ov s \<and>
        (case g of Inr (Inr d) \<Rightarrow> \<exists>ct. ov s k = Some (d, ct) | _ \<Rightarrow> True)) \<and>
     (\<forall>k n s a s'. mn_list_uploads C b k n s = (a, s') \<longrightarrow> ov s' = ov s) \<and>
     (\<forall>k u i n s a s'. mn_list_parts C b k u i n s = (a, s') \<longrightarrow> ov s' = ov s) \<and>
     (\<forall>k u s a s'. mn_abort C b k u s = (a, s') \<longrightarrow> ov s' = ov s) \<and>
     (\<forall>k u ps s a s'. mn_complete C b k u ps s = (a, s') \<longrightarrow> (\<forall>k'. k' \<noteq> k \<longrightarrow> ov s' k' = ov s k')))"

text \<open>A store whose calls do not fail.\<close>

definition s3_works :: "'s UpMinioClient \<Rightarrow> ('s \<Rightarrow> objects) \<Rightarrow> bool" where
  "s3_works m ov \<longleftrightarrow> (let C = um_client m; b = um_bucket m in
     (\<forall>k d ct s. fst (mn_put C b k d (int (length d)) ct s) = Inr ()) \<and>
     (\<forall>k d ct s. ov s k = Some (d, ct) \<longrightarrow> fst (mn_stat C b k s) = Inr (int (length d), ct)) \<and>
     (\<forall>k d ct s. ov s k = Some (d, ct) \<longrightarrow> fst (mn_get C b k s) = Inr (Inr d)))"

lemma s3_laws:
  assumes "s3_docs m ov"
  shows "mn_put (um_client m) (um_bucket m) k d (int (length d)) ct s = (a, s') \<Longrightarrow>
      ov s' = (ov s)(k \<mapsto> (d, ct)) \<or> a \<noteq> Inr () \<and> ov s' = ov s"
    "mn_stat (um_client m) (um_bucket m) k s = (b, s') \<Longrightarrow> ov s' = ov s \<and>
      (case b of Inr (n, ct) \<Rightarrow> \<exists>d. ov s k = Some (d, ct) \<and> n = int (length d) | Inl _ \<Rightarrow> True)"
    "mn_get (um_client m) (um_bucket m) k s = (g, s') \<Longrightarrow> ov s' = ov s \<and>
      (case g of Inr (Inr d) \<Rightarrow> \<exists>ct. ov s k = Some (d, ct) | _ \<Rightarrow> True)"
    "mn_list_uploads (um_client m) (um_bucket m) k n s = (e, s') \<Longrightarrow> ov s' = ov s"
    "mn_list_parts (um_client m) (um_bucket m) k u i n s = (f, s') \<Longrightarrow> ov s' = ov s"
    "mn_abort (um_client m) (um_bucket m) k u s = (x, s') \<Longrightarrow> ov s' = ov s"
    "mn_complete (um_client m) (um_bucket m) k u ps s = (y, s') \<Longrightarrow> \<forall>k'. k' \<noteq> k \<longrightarrow> ov s' k' = ov s k'"
proof -
  note h = assms [unfolded s3_docs_def Let_def]
  show "mn_put (um_client m) (um_bucket m) k d (int (length d)) ct s = (a, s') \<Longrightarrow>
      ov s' = (ov s)(k \<mapsto> (d, ct)) \<or> a \<noteq> Inr () \<and> ov s' = ov s"
    by (rule h [THEN conjunct1, rule_format])
  show "mn_stat (um_client m) (um_bucket m) k s = (b, s') \<Longrightarrow> ov s' = ov s \<and>
      (case b of Inr (n, ct) \<Rightarrow> \<exists>d. ov s k = Some (d, ct) \<and> n = int (length d) | Inl _ \<Rightarrow> True)"
    by (rule h [THEN conjunct2, THEN conjunct1, rule_format])
  show "mn_get (um_client m) (um_bucket m) k s = (g, s') \<Longrightarrow> ov s' = ov s \<and>
      (case g of Inr (Inr d) \<Rightarrow> \<exists>ct. ov s k = Some (d, ct) | _ \<Rightarrow> True)"
    by (rule h [THEN conjunct2, THEN conjunct2, THEN conjunct1, rule_format])
  show "mn_list_uploads (um_client m) (um_bucket m) k n s = (e, s') \<Longrightarrow> ov s' = ov s"
    by (rule h [THEN conjunct2, THEN conjunct2, THEN conjunct2, THEN conjunct1, rule_format])
  show "mn_list_parts (um_client m) (um_bucket m) k u i n s = (f, s') \<Longrightarrow> ov s' = ov s"
    by (rule h [THEN conjunct2, THEN conjunct2, THEN conjunct2, THEN conjunct2, THEN conjunct1, rule_format])
  show "mn_abort (um_client m) (um_bucket m) k u s = (x, s') \<Longrightarrow> ov s' = ov s"
    by (rule h [THEN conjunct2, THEN conjunct2, THEN conjunct2, THEN conjunct2, THEN conjunct2, THEN conjunct1, rule_format])
  show "mn_complete (um_client m) (um_bucket m) k u ps s = (y, s') \<Longrightarrow> \<forall>k'. k' \<noteq> k \<longrightarrow> ov s' k' = ov s k'"
    by (intro allI impI) (rule h [THEN conjunct2, THEN conjunct2, THEN conjunct2, THEN conjunct2, THEN conjunct2, THEN conjunct2, rule_format])
qed

definition bucket_objects :: "('s \<Rightarrow> objects) \<Rightarrow> ('m, 's, 'q) up_world \<Rightarrow> objects" where
  "bucket_objects ov w = ov (w_s3 w)"

definition sent_events :: "('q \<Rightarrow> (string \<times> json) list) \<Rightarrow> ('m, 's, 'q) up_world \<Rightarrow> json list" where
  "sent_events acc w = map snd (acc (w_mq w))"

definition mq_ok :: "('q \<Rightarrow> nat set) \<Rightarrow> ('m, 's, 'q) up_world \<Rightarrow> bool" where
  "mq_ok oc w = holds_all oc (w_pub w) (w_mq w)"

lemmas view_defs = bucket_objects_def sent_events_def mq_ok_def

text \<open>The calls of \<open>MinioClient\<close> under the documentation.\<close>

lemma up_calls:
  assumes d: "s3_docs m ov"
  shows "up_PutObject m k dat (int (length dat)) ct s = (a, s') \<Longrightarrow>
      ov s' = (ov s)(k \<mapsto> (dat, ct)) \<or> a \<noteq> Inr () \<and> ov s' = ov s"
    "up_StatObjectInfo m k s = (b, s') \<Longrightarrow> ov s' = ov s \<and>
      (case b of Inr (n, ct) \<Rightarrow> \<exists>dat. ov s k = Some (dat, ct) \<and> n = int (length dat) | Inl _ \<Rightarrow> True)"
    "up_StatObjectSize m k s = (z, s') \<Longrightarrow> ov s' = ov s \<and>
      (case z of Inr n \<Rightarrow> \<exists>dat ct. ov s k = Some (dat, ct) \<and> n = int (length dat) | Inl _ \<Rightarrow> True)"
    "up_GetObject m k s = (g, s') \<Longrightarrow> ov s' = ov s \<and>
      (case g of Inr (Inr dat) \<Rightarrow> \<exists>ct. ov s k = Some (dat, ct) | _ \<Rightarrow> True)"
    "up_FindUploadID m k s = (f, s') \<Longrightarrow> ov s' = ov s"
    "up_AbortMultipartUpload m k u s = (x, s') \<Longrightarrow> ov s' = ov s"
    "up_CompleteMultipartUpload m k u ps s = (y, s') \<Longrightarrow> \<forall>k'. k' \<noteq> k \<longrightarrow> ov s' k' = ov s k'"
proof -
  note c = ctx_err_def [where key = k]
  show "up_PutObject m k dat (int (length dat)) ct s = (a, s') \<Longrightarrow>
      ov s' = (ov s)(k \<mapsto> (dat, ct)) \<or> a \<noteq> Inr () \<and> ov s' = ov s"
    by (auto simp: up_PutObject_def c split: prod.splits sum.splits dest!: s3_laws(1) [OF d])
  show st: "up_StatObjectInfo m k s = (b, s') \<Longrightarrow> ov s' = ov s \<and>
      (case b of Inr (n, ct) \<Rightarrow> \<exists>dat. ov s k = Some (dat, ct) \<and> n = int (length dat) | Inl _ \<Rightarrow> True)" for b
    by (auto simp: up_StatObjectInfo_def c split: prod.splits sum.splits dest!: s3_laws(2) [OF d])
  show "up_StatObjectSize m k s = (z, s') \<Longrightarrow> ov s' = ov s \<and>
      (case z of Inr n \<Rightarrow> \<exists>dat ct. ov s k = Some (dat, ct) \<and> n = int (length dat) | Inl _ \<Rightarrow> True)"
    by (auto simp: up_StatObjectSize_def split: prod.splits sum.splits dest!: st)
  show "up_GetObject m k s = (g, s') \<Longrightarrow> ov s' = ov s \<and>
      (case g of Inr (Inr dat) \<Rightarrow> \<exists>ct. ov s k = Some (dat, ct) | _ \<Rightarrow> True)"
    by (auto simp: up_GetObject_def c split: prod.splits sum.splits dest!: s3_laws(3) [OF d])
  show "up_FindUploadID m k s = (f, s') \<Longrightarrow> ov s' = ov s"
    by (auto simp: up_FindUploadID_def Let_def split: prod.splits sum.splits if_splits dest!: s3_laws(4) [OF d])
  show "up_AbortMultipartUpload m k u s = (x, s') \<Longrightarrow> ov s' = ov s"
    by (auto simp: up_AbortMultipartUpload_def c split: prod.splits sum.splits dest!: s3_laws(6) [OF d])
  show "up_CompleteMultipartUpload m k u ps s = (y, s') \<Longrightarrow> \<forall>k'. k' \<noteq> k \<longrightarrow> ov s' k' = ov s k'"
    by (auto simp: up_CompleteMultipartUpload_def c split: prod.splits sum.splits if_splits dest!: s3_laws(7) [OF d])
qed

lemma up_ListParts_frame:
  assumes d: "s3_docs m ov"
  shows "up_ListParts m live k u s = (p, s') \<Longrightarrow> ov s' = ov s"
proof -
  have "list_parts_loop m k u live marker ps s = (p, s') \<Longrightarrow> ov s' = ov s" for marker ps s
  proof (induction live arbitrary: marker ps s)
    case 0
    then show ?case by simp
  next
    case (Suc live)
    obtain a s1 where a: "mn_list_parts (um_client m) (um_bucket m) k u marker 1000 s = (a, s1)"
      by (rule that, rule surjective_pairing)
    from s3_laws(5) [OF d a] Suc.prems Suc.IH [of _ _ s1] a show ?case
      by (auto simp: Let_def split: sum.splits if_splits)
  qed
  then show "up_ListParts m live k u s = (p, s') \<Longrightarrow> ov s' = ov s" by (simp add: up_ListParts_def)
qed

subsection \<open>The code's clients interpret the interfaces\<close>

lemma on_s3E:
  assumes "on_s3 f w = (a, w')"
  obtains s' where "f (w_s3 w) = (a, s')" "w' = w\<lparr>w_s3 := s'\<rparr>"
  using assms that [of "snd (f (w_s3 w))"] by (simp add: on_s3_def split: prod.splits)

lemma on_metaE:
  assumes "on_meta f w = (a, w')"
  obtains m' where "f (w_meta w) = (a, m')" "w' = w\<lparr>w_meta := m'\<rparr>"
  using assms that [of "snd (f (w_meta w))"] by (simp add: on_meta_def split: prod.splits)

lemma view_updates [simp]:
  "bucket_objects ov (w\<lparr>w_s3 := s\<rparr>) = ov s" "sent_events acc (w\<lparr>w_s3 := s\<rparr>) = sent_events acc w"
  "mq_ok oc (w\<lparr>w_s3 := s\<rparr>) = mq_ok oc w"
  "bucket_objects ov (w\<lparr>w_meta := m\<rparr>) = bucket_objects ov w" "sent_events acc (w\<lparr>w_meta := m\<rparr>) = sent_events acc w"
  "mq_ok oc (w\<lparr>w_meta := m\<rparr>) = mq_ok oc w"
  "bucket_objects ov (w\<lparr>w_bytes := n\<rparr>) = bucket_objects ov w" "sent_events acc (w\<lparr>w_bytes := n\<rparr>) = sent_events acc w"
  "mq_ok oc (w\<lparr>w_bytes := n\<rparr>) = mq_ok oc w"
  by (simp_all add: view_defs)

lemma storage_simps [simp]:
  "us_PutObject (uh_storage (service c m A live)) k dat n ct = on_s3 (up_PutObject m k dat n ct)"
  "us_StatObjectInfo (uh_storage (service c m A live)) k = on_s3 (up_StatObjectInfo m k)"
  "us_StatObjectSize (uh_storage (service c m A live)) k = on_s3 (up_StatObjectSize m k)"
  "us_GetObject (uh_storage (service c m A live)) k = on_s3 (up_GetObject m k)"
  "us_FindUploadID (uh_storage (service c m A live)) k = on_s3 (up_FindUploadID m k)"
  "us_ListParts (uh_storage (service c m A live)) k u = on_s3 (up_ListParts m live k u)"
  "us_CompleteMultipartUpload (uh_storage (service c m A live)) k u ps = on_s3 (up_CompleteMultipartUpload m k u ps)"
  by (simp_all add: service_def)

lemma service_store:
  fixes c :: "'m MetadataClient" and m :: "'s UpMinioClient" and A :: "'q amqp"
  assumes d: "s3_docs m ov"
  shows "object_store (uh_storage (service c m A live)) (bucket_objects ov) (\<lambda>w. (sent_events acc w, mq_ok oc w))"
proof
  fix k dat ct a and w w' :: "('m, 's, 'q) up_world"
  assume "us_PutObject (uh_storage (service c m A live)) k dat (int (length dat)) ct w = (a, w')"
  then obtain s' where "up_PutObject m k dat (int (length dat)) ct (w_s3 w) = (a, s')" "w' = w\<lparr>w_s3 := s'\<rparr>"
    by (auto elim: on_s3E)
  with up_calls(1) [OF d this(1)]
  show "(sent_events acc w', mq_ok oc w') = (sent_events acc w, mq_ok oc w) \<and>
      (bucket_objects ov w' = (bucket_objects ov w)(k \<mapsto> (dat, ct)) \<or>
       a \<noteq> Inr () \<and> bucket_objects ov w' = bucket_objects ov w)"
    by (simp add: bucket_objects_def [of ov w])
next
  fix k b and w w' :: "('m, 's, 'q) up_world"
  assume "us_StatObjectInfo (uh_storage (service c m A live)) k w = (b, w')"
  then obtain s' where "up_StatObjectInfo m k (w_s3 w) = (b, s')" "w' = w\<lparr>w_s3 := s'\<rparr>" by (auto elim: on_s3E)
  with up_calls(2) [OF d this(1)]
  show "(sent_events acc w', mq_ok oc w') = (sent_events acc w, mq_ok oc w) \<and>
      bucket_objects ov w' = bucket_objects ov w \<and>
      (case b of Inl _ \<Rightarrow> True | Inr (n, ct) \<Rightarrow> \<exists>d. bucket_objects ov w k = Some (d, ct) \<and> n = int (length d))"
    unfolding bucket_objects_def [of ov w] by simp
next
  fix k b and w w' :: "('m, 's, 'q) up_world"
  assume "us_StatObjectSize (uh_storage (service c m A live)) k w = (b, w')"
  then obtain s' where "up_StatObjectSize m k (w_s3 w) = (b, s')" "w' = w\<lparr>w_s3 := s'\<rparr>" by (auto elim: on_s3E)
  with up_calls(3) [OF d this(1)]
  show "(sent_events acc w', mq_ok oc w') = (sent_events acc w, mq_ok oc w) \<and>
      bucket_objects ov w' = bucket_objects ov w \<and>
      (case b of Inl _ \<Rightarrow> True | Inr n \<Rightarrow> \<exists>d ct. bucket_objects ov w k = Some (d, ct) \<and> n = int (length d))"
    unfolding bucket_objects_def [of ov w] by simp
next
  fix k g and w w' :: "('m, 's, 'q) up_world"
  assume "us_GetObject (uh_storage (service c m A live)) k w = (g, w')"
  then obtain s' where "up_GetObject m k (w_s3 w) = (g, s')" "w' = w\<lparr>w_s3 := s'\<rparr>" by (auto elim: on_s3E)
  with up_calls(4) [OF d this(1)]
  show "(sent_events acc w', mq_ok oc w') = (sent_events acc w, mq_ok oc w) \<and>
      bucket_objects ov w' = bucket_objects ov w \<and>
      (case g of Inl _ \<Rightarrow> True | Inr x \<Rightarrow> case x of Inl _ \<Rightarrow> True | Inr d \<Rightarrow> \<exists>ct. bucket_objects ov w k = Some (d, ct))"
    unfolding bucket_objects_def [of ov w] by simp
qed

lemma service_publisher:
  fixes c :: "'m MetadataClient" and m :: "'s UpMinioClient" and A :: "'q amqp"
  assumes d: "amqp_docs A oc acc"
  shows "event_publisher (uh_publisher (service c m A live)) (mq_ok oc) (sent_events acc) (bucket_objects ov)"
proof
  fix body e and w w' :: "('m, 's, 'q) up_world"
  assume i: "mq_ok oc w" and run: "uh_publisher (service c m A live) body w = (e, w')"
  obtain p q where pq: "Publish A body (w_pub w) (w_mq w) = (e, p, q)" "w' = w\<lparr>w_pub := p, w_mq := q\<rparr>"
    using run by (auto simp: on_mq_def split: prod.splits)
  from Publish_sends [OF d i [unfolded mq_ok_def] pq(1)] obtain n
    where n: "holds_all oc p q" "n \<le> 2" "acc q = acc (w_mq w) @ replicate n (p_queue (w_pub w), body)" "e = None \<longrightarrow> 1 \<le> n"
    by blast
  show "mq_ok oc w' \<and> bucket_objects ov w' = bucket_objects ov w \<and>
      (\<exists>n. sent_events acc w' = sent_events acc w @ replicate n body \<and> n \<le> 2 \<and> (e = None \<longrightarrow> 1 \<le> n))"
    using n pq(2) by (auto simp: view_defs map_replicate_const intro!: exI [of _ n])
qed

lemma service_checker:
  "ownership_checker (uh_owner (service c m A live)) (now_owner c)
     (\<lambda>w. (bucket_objects ov w, sent_events acc w, mq_ok oc w))"
  by unfold_locales (auto simp: now_owner_def elim!: on_metaE)

lemma service_ok:
  fixes c :: "'m MetadataClient" and m :: "'s UpMinioClient" and A :: "'q amqp"
  assumes d: "s3_docs m ov" "amqp_docs A oc acc"
  shows "upload_service (service c m A live) (now_owner c) (bucket_objects ov) (sent_events acc) (mq_ok oc)"
proof (intro upload_service.intro service_store [OF d(1)] service_publisher [OF d(2)] service_checker
    upload_service_axioms.intro)
  fix k u ps a b f n and w w' :: "('m, 's, 'q) up_world"
  show "bucket_objects ov (uh_bytes (service c m A live) n w) = bucket_objects ov w \<and>
      sent_events acc (uh_bytes (service c m A live) n w) = sent_events acc w \<and>
      mq_ok oc (uh_bytes (service c m A live) n w) = mq_ok oc w"
    by simp
  show "us_FindUploadID (uh_storage (service c m A live)) k w = (f, w') \<Longrightarrow>
      bucket_objects ov w' = bucket_objects ov w \<and> sent_events acc w' = sent_events acc w \<and> mq_ok oc w' = mq_ok oc w"
    by (auto elim!: on_s3E dest!: up_calls(5) [OF d(1)] simp: bucket_objects_def [of ov w])
  show "us_ListParts (uh_storage (service c m A live)) k u w = (a, w') \<Longrightarrow>
      bucket_objects ov w' = bucket_objects ov w \<and> sent_events acc w' = sent_events acc w \<and> mq_ok oc w' = mq_ok oc w"
    by (auto elim!: on_s3E dest!: up_ListParts_frame [OF d(1)] simp: bucket_objects_def [of ov w])
  show "us_CompleteMultipartUpload (uh_storage (service c m A live)) k u ps w = (b, w') \<Longrightarrow>
      sent_events acc w' = sent_events acc w \<and> mq_ok oc w' = mq_ok oc w \<and>
      (\<forall>k'. k' \<noteq> k \<longrightarrow> bucket_objects ov w' k' = bucket_objects ov w k')"
    by (auto elim!: on_s3E dest!: up_calls(7) [OF d(1)] simp: bucket_objects_def [of ov w])
qed

lemma s3_works_calls:
  assumes wk: "s3_works m ov"
  shows "fst (up_PutObject m k dat (int (length dat)) ct s) = Inr ()"
    "ov s k = Some (dat, ct) \<Longrightarrow> fst (up_StatObjectSize m k s) = Inr (int (length dat))"
    "ov s k = Some (dat, ct) \<Longrightarrow> fst (up_GetObject m k s) = Inr (Inr dat)"
proof -
  obtain s1 where "mn_put (um_client m) (um_bucket m) k dat (int (length dat)) ct s = (Inr (), s1)"
    using wk by (intro that [of "snd (mn_put (um_client m) (um_bucket m) k dat (int (length dat)) ct s)"])
      (simp add: s3_works_def Let_def prod_eq_iff)
  then show "fst (up_PutObject m k dat (int (length dat)) ct s) = Inr ()"
    by (simp add: up_PutObject_def ctx_err_def)
  show "fst (up_StatObjectSize m k s) = Inr (int (length dat))" if o: "ov s k = Some (dat, ct)"
  proof -
    obtain s1 where "mn_stat (um_client m) (um_bucket m) k s = (Inr (int (length dat), ct), s1)"
      using wk o by (intro that [of "snd (mn_stat (um_client m) (um_bucket m) k s)"])
        (simp add: s3_works_def Let_def prod_eq_iff)
    then show ?thesis by (simp add: up_StatObjectSize_def up_StatObjectInfo_def ctx_err_def)
  qed
  show "fst (up_GetObject m k s) = Inr (Inr dat)" if o: "ov s k = Some (dat, ct)"
  proof -
    obtain s1 where "mn_get (um_client m) (um_bucket m) k s = (Inr (Inr dat), s1)"
      using wk o by (intro that [of "snd (mn_get (um_client m) (um_bucket m) k s)"])
        (simp add: s3_works_def Let_def prod_eq_iff)
    then show ?thesis by (simp add: up_GetObject_def ctx_err_def)
  qed
qed

lemma on_s3_fst: "fst (on_s3 f w) = fst (f (w_s3 w))"
  by (simp add: on_s3_def split: prod.splits)

lemma service_works:
  fixes c :: "'m MetadataClient" and m :: "'s UpMinioClient" and A :: "'q amqp"
  assumes d: "s3_docs m ov" "amqp_docs A oc acc" "s3_works m ov"
  shows "working_service (service c m A live) (now_owner c) (bucket_objects ov) (sent_events acc) (mq_ok oc)"
  by (intro working_service.intro working_store.intro service_ok [OF d(1,2)] service_store [OF d(1)]
      working_store_axioms.intro)
    (simp_all add: on_s3_fst s3_works_calls [OF d(3)] bucket_objects_def)

subsection \<open>The reconciler's clients\<close>

text \<open>\<open>patched\<close> are the \<open>PATCH\<close> requests that the metadata service was sent; every URL parses.\<close>

definition patch_docs :: "'m http_client \<Rightarrow> ('m \<Rightarrow> (string \<times> json option) list) \<Rightarrow> bool" where
  "patch_docs H patched \<longleftrightarrow>
     (\<forall>u. hc_newreq H u = None) \<and>
     (\<forall>u h b m a m'. hc_do H ''PATCH'' u h b m = (a, m') \<longrightarrow> patched m' = patched m @ [(u, b)]) \<and>
     (\<forall>u h b m a m'. hc_do H ''GET'' u h b m = (a, m') \<longrightarrow> patched m' = patched m)"

definition status_request :: "'m MetadataClient \<Rightarrow> string \<Rightarrow> string \<Rightarrow> string \<times> json option" where
  "status_request c i st =
     (mcl_baseURL c @ ''/internal/videos/'' @ PathEscape i @ ''/status'', Some (json_body [(''status'', st)]))"

definition status_requests :: "('m \<Rightarrow> (string \<times> json option) list) \<Rightarrow> ('m, 's, 'q) up_world \<Rightarrow> (string \<times> json option) list" where
  "status_requests patched w = patched (w_meta w)"

lemma ClListStaleUploaded_patched:
  assumes "patch_docs (mcl_client c) patched" "ClListStaleUploaded c t l m = (a, m')"
  shows "patched m' = patched m"
  using assms by (auto simp: ClListStaleUploaded_def patch_docs_def Let_def split: prod.splits sum.splits if_splits)

lemma ClSetStatus_patched:
  assumes "patch_docs (mcl_client c) patched" "ClSetStatus c i st m = (a, m')"
  shows "patched m' = patched m @ [status_request c i st]"
  using assms by (auto simp: ClSetStatus_def patch_docs_def status_request_def Let_def split: prod.splits sum.splits if_splits)

text \<open>A store that works also reports an error for an object that is not there.\<close>

lemma reconciler_ok:
  fixes c :: "'m MetadataClient" and m :: "'s UpMinioClient" and A :: "'q amqp"
  assumes d: "s3_docs m ov" "amqp_docs A oc acc" "s3_works m ov" "patch_docs (mcl_client c) patched"
  shows "reconciler_deps (up_reconciler c m A env) (bucket_objects ov) (sent_events acc) (mq_ok oc)
    (status_requests patched) (status_request c)"
proof
  fix k u i st t l body a b x e f g and w w' :: "('m, 's, 'q) up_world"
  have rc [simp]: "rc_ListStaleUploaded (up_reconciler c m A env) t l = on_meta (ClListStaleUploaded c t l)"
    "rc_SetStatus (up_reconciler c m A env) i st = on_meta (ClSetStatus c i st)"
    "rc_StatObjectSize (up_reconciler c m A env) k = on_s3 (up_StatObjectSize m k)"
    "rc_FindUploadID (up_reconciler c m A env) k = on_s3 (up_FindUploadID m k)"
    "rc_AbortMultipartUpload (up_reconciler c m A env) k u = on_s3 (up_AbortMultipartUpload m k u)"
    "rc_publisher (up_reconciler c m A env) = on_mq A" for k u i st t l
    by (simp_all add: up_reconciler_def rc_New_def)
  have stat: "bucket_objects ov w' = bucket_objects ov w \<and> sent_events acc w' = sent_events acc w \<and>
      mq_ok oc w' = mq_ok oc w \<and> status_requests patched w' = status_requests patched w \<and>
      (case bucket_objects ov w k of None \<Rightarrow> \<exists>err. x = Inl err | Some (d, ct) \<Rightarrow> x = Inr (int (length d)))"
    if run: "on_s3 (up_StatObjectSize m k) w = (x, w')"
  proof -
    from run obtain s' where s: "up_StatObjectSize m k (w_s3 w) = (x, s')" "w' = w\<lparr>w_s3 := s'\<rparr>" by (rule on_s3E)
    have "case ov (w_s3 w) k of None \<Rightarrow> \<exists>err. x = Inl err | Some (d, ct) \<Rightarrow> x = Inr (int (length d))"
      using up_calls(3) [OF d(1) s(1)] s3_works_calls(2) [OF d(3), of "w_s3 w" k] s(1)
      by (auto split: option.split sum.splits)
    then show ?thesis using s up_calls(3) [OF d(1) s(1)]
      unfolding bucket_objects_def [of ov w] by (simp add: status_requests_def)
  qed
  have pub: "mq_ok oc w' \<and> bucket_objects ov w' = bucket_objects ov w \<and> status_requests patched w' = status_requests patched w \<and>
      (\<exists>n. sent_events acc w' = sent_events acc w @ replicate n body \<and> n \<le> 2 \<and> (f = None \<longrightarrow> 1 \<le> n))"
    if run: "on_mq A body w = (f, w')" and i: "mq_ok oc w"
  proof -
    have "w_meta w' = w_meta w" using run by (auto simp: on_mq_def split: prod.splits)
    moreover have "uh_publisher (service c m A 0) body w = (f, w')" using run by simp
    ultimately show ?thesis
      using event_publisher.publish [OF service_publisher [OF d(2)] i, of c m 0 body f w' ov]
      by (auto simp: status_requests_def)
  qed
  show "rc_ListStaleUploaded (up_reconciler c m A env) t l w = (a, w') \<Longrightarrow>
      bucket_objects ov w' = bucket_objects ov w \<and> sent_events acc w' = sent_events acc w \<and>
      mq_ok oc w' = mq_ok oc w \<and> status_requests patched w' = status_requests patched w"
    by (auto elim!: on_metaE dest!: ClListStaleUploaded_patched [OF d(4)] simp: status_requests_def)
  show "rc_FindUploadID (up_reconciler c m A env) k w = (b, w') \<Longrightarrow>
      bucket_objects ov w' = bucket_objects ov w \<and> sent_events acc w' = sent_events acc w \<and>
      mq_ok oc w' = mq_ok oc w \<and> status_requests patched w' = status_requests patched w"
    by (auto elim!: on_s3E dest!: up_calls(5) [OF d(1)] simp: bucket_objects_def [of ov w] status_requests_def)
  show "rc_AbortMultipartUpload (up_reconciler c m A env) k u w = (e, w') \<Longrightarrow>
      bucket_objects ov w' = bucket_objects ov w \<and> sent_events acc w' = sent_events acc w \<and>
      mq_ok oc w' = mq_ok oc w \<and> status_requests patched w' = status_requests patched w"
    by (auto elim!: on_s3E dest!: up_calls(6) [OF d(1)] simp: bucket_objects_def [of ov w] status_requests_def)
  show "rc_SetStatus (up_reconciler c m A env) i st w = (g, w') \<Longrightarrow>
      bucket_objects ov w' = bucket_objects ov w \<and> sent_events acc w' = sent_events acc w \<and>
      mq_ok oc w' = mq_ok oc w \<and> status_requests patched w' = status_requests patched w @ [status_request c i st]"
    by (auto elim!: on_metaE dest!: ClSetStatus_patched [OF d(4)] simp: status_requests_def)
  show "rc_StatObjectSize (up_reconciler c m A env) k w = (x, w') \<Longrightarrow>
      bucket_objects ov w' = bucket_objects ov w \<and> sent_events acc w' = sent_events acc w \<and>
      mq_ok oc w' = mq_ok oc w \<and> status_requests patched w' = status_requests patched w \<and>
      (case bucket_objects ov w k of None \<Rightarrow> \<exists>err. x = Inl err | Some (d, ct) \<Rightarrow> x = Inr (int (length d)))"
    by (rule stat) simp
  show "mq_ok oc w \<Longrightarrow> rc_publisher (up_reconciler c m A env) body w = (f, w') \<Longrightarrow>
      mq_ok oc w' \<and> bucket_objects ov w' = bucket_objects ov w \<and> status_requests patched w' = status_requests patched w \<and>
      (\<exists>n. sent_events acc w' = sent_events acc w @ replicate n body \<and> n \<le> 2 \<and> (f = None \<longrightarrow> 1 \<le> n))"
    by (rule pub) simp_all
qed

subsection \<open>A service in memory\<close>

text \<open>
  What the witnesses run on: the code's clients over a metadata service, an object store and a
  broker in memory. The locales are interpreted on it once and for all.
\<close>

record mem_meta =
  mm_rows :: "(string \<times> json) list"
  mm_down :: bool
  mm_patched :: "(string \<times> json option) list"

definition mem_http :: "mem_meta http_client" where
  "mem_http =
     \<lparr>hc_newreq = (\<lambda>u. None),
      hc_do = (\<lambda>meth u h b m.
        if meth = ''PATCH'' then (Inr (200, None), m\<lparr>mm_patched := mm_patched m @ [(u, b)]\<rparr>)
        else if mm_down m then (Inl (Err (meth @ '' '' @ u @ '': connection refused'')), m)
        else (case map_of (mm_rows m) u of Some j \<Rightarrow> (Inr (200, Some j), m) | None \<Rightarrow> (Inr (404, None), m)))\<rparr>"

definition mem_metadata :: "mem_meta MetadataClient" where
  "mem_metadata = NewMetadataClient ''http://md'' '''' mem_http"

definition mem_objects :: "mem_s3 \<Rightarrow> objects" where
  "mem_objects s = map_of (ms_objs s)"

lemma mem_s3_docs: "s3_docs mem_client mem_objects"
  by (auto simp: s3_docs_def mem_client_def mem_minio_def mem_objects_def Let_def split: option.splits)

lemma mem_s3_works: "s3_works mem_client mem_objects"
  by (auto simp: s3_works_def mem_client_def mem_minio_def mem_objects_def Let_def)

lemma mem_patch_docs: "patch_docs (mcl_client mem_metadata) mm_patched"
  by (auto simp: patch_docs_def mem_metadata_def NewMetadataClient_def mem_http_def split: if_splits option.splits)

definition mem_service :: "nat \<Rightarrow> (mem_meta, mem_s3, membroker) up_world UploadService" where
  "mem_service live = service mem_metadata mem_client mem_amqp live"

interpretation mem: working_service "mem_service live" "now_owner mem_metadata" "bucket_objects mem_objects"
    "sent_events mb_sent" "mq_ok (\<lambda>q. set (mb_conns q))"
  for live
  unfolding mem_service_def by (rule service_works [OF mem_s3_docs mem_amqp_docs mem_s3_works])

interpretation memrec: reconciler_deps "up_reconciler mem_metadata mem_client mem_amqp env" "bucket_objects mem_objects"
    "sent_events mb_sent" "mq_ok (\<lambda>q. set (mb_conns q))" "status_requests mm_patched" "status_request mem_metadata"
  for env
  by (rule reconciler_ok [OF mem_s3_docs mem_amqp_docs mem_s3_works mem_patch_docs])

text \<open>\<open>ann\<close> owns the videos \<open>v1\<close>, which is stored, \<open>v2\<close> and \<open>v404\<close>.\<close>

definition owner_row :: "string \<Rightarrow> string \<times> json" where
  "owner_row i = (''http://md/internal/videos/'' @ i, JObj [(''id'', JStr i), (''owner_id'', JStr ''ann'')])"

definition sample_up :: "bool \<Rightarrow> (mem_meta, mem_s3, membroker) up_world" where
  "sample_up down =
     \<lparr>w_meta = \<lparr>mm_rows = [owner_row ''v1'', owner_row ''v2'', owner_row ''v404'',
         (''http://md/internal/videos/stale?older_than_seconds=3600&limit=100'',
          JObj [(''data'', JArr [JObj [(''id'', JStr ''v1''), (''owner_id'', JStr ''ann'')],
                               JObj [(''id'', JStr ''v2''), (''owner_id'', JStr ''ann'')]])])],
         mm_down = down, mm_patched = []\<rparr>,
      w_s3 = sample_s3,
      w_pub = \<lparr>p_url = ''amqp://mq'', p_queue = ''jobs'', p_conn = None, p_channel = None\<rparr>,
      w_mq = empty_broker, w_bytes = 0\<rparr>"

definition up_jwt :: jwt where
  "up_jwt =
     \<lparr>jwt_parse = (\<lambda>now secret tok.
         if tok = ''t-ann'' then Some [''sub'' \<mapsto> JStr ''ann'', ''type'' \<mapsto> JStr ''access'']
         else if tok = ''t-bob'' then Some [''sub'' \<mapsto> JStr ''bob'', ''type'' \<mapsto> JStr ''access''] else None),
      jwt_sign = (\<lambda>secret cl. Inl (Err ''no key''))\<rparr>"

definition up_request :: "string \<Rightarrow> string \<Rightarrow> request" where
  "up_request tok vid = blank_request\<lparr>UrlId := vid, ReqHeader := hset no_header ''Authorization'' (''Bearer '' @ tok)\<rparr>"

lemma sample_up_ok: "mq_ok (\<lambda>q. set (mb_conns q)) (sample_up down)"
  by (simp add: mq_ok_def holds_all_def sample_up_def empty_broker_def)

subsection \<open>Properties\<close>

text \<open>C6: no request touches a video's storage before its owner is known: on every route of the upload
  service that names a video, unless the caller's access token proves the identity that the
  metadata service gives as the owner, the object store, the broker and the counters are after
  the request exactly as before, whatever the libraries do.\<close>

theorem owner_routes_gate:
  assumes "(meth, pat, H) \<in> set (video_routes (service c m A live))"
    and "AuthMiddleware J now secret H r wh w = (res, w')"
  shows "stores w' = stores w \<or>
    (\<exists>sub. access_identity J now secret (ReqHeader r) = Some sub \<and> now_owner c w (complete_id r) = Inr sub)"
proof (cases "access_identity J now secret (ReqHeader r)")
  case None
  from AuthMiddleware_None [OF None, of H wh w] show ?thesis using assms(2) by auto
next
  case (Some sub)
  have "H (with_identity sub r) wh w = (res, w')" using assms(2) unfolding AuthMiddleware_Some [OF Some] .
  note g = video_routes_gate [OF assms(1) this]
  have "UserIDFromCtx (with_identity sub r) = sub" "complete_id (with_identity sub r) = complete_id r"
    by (simp_all add: with_identity_def UserIDFromCtx_def complete_id_def)
  then show ?thesis using g Some by auto
qed

lemma owner_routes_gate_witness:
  "\<exists>res w'. AuthMiddleware up_jwt 0 ''k'' (Complete (mem_service 10)) (up_request ''t-bob'' ''v1'') no_header (sample_up False)
      = (res, w') \<and> Status res = 403 \<and> stores w' = stores (sample_up False)"
proof -
  let ?run = "AuthMiddleware up_jwt 0 ''k'' (Complete (mem_service 10)) (up_request ''t-bob'' ''v1'') no_header (sample_up False)"
  have s: "Status (fst ?run) = 403" by code_simp
  have n: "access_identity up_jwt 0 ''k'' (ReqHeader (up_request ''t-bob'' ''v1'')) = Some ''bob''"
    "now_owner mem_metadata (sample_up False) (complete_id (up_request ''t-bob'' ''v1'')) = Inr ''ann''" by code_simp+
  have run: "?run = (fst ?run, snd ?run)" by simp
  have r: "(''POST'', ''/api/v1/videos/{id}/complete'', Complete (mem_service 10))
      \<in> set (video_routes (service mem_metadata mem_client mem_amqp 10))"
    by (simp add: video_routes_def mem_service_def)
  from owner_routes_gate [OF r run] n s run show ?thesis by (intro exI [of _ "fst ?run"] exI [of _ "snd ?run"]) auto
qed



subsection \<open>Chunks\<close>

text \<open>Behind the middleware a chunk's request has the caller's identity, and the chunk routes leave the
  metadata service's state to the check.\<close>

lemma chunk_request_identity:
  "with_identity sub (chunk_request r off c n) = chunk_request (with_identity sub r) off c n"
  by (simp add: with_identity_def chunk_request_def hset_def canon_literals fun_upd_twist)

lemma access_identity_chunk:
  "access_identity J now secret (ReqHeader (chunk_request r off c n)) = access_identity J now secret (ReqHeader r)"
proof -
  have "hget (ReqHeader (chunk_request r off c n)) ''Authorization'' = hget (ReqHeader r) ''Authorization''"
    by (simp add: chunk_request_def)
  then show ?thesis by (simp add: access_identity_def)
qed

lemma send_chunks_auth:
  assumes "access_identity J now secret (ReqHeader r) = Some sub"
  shows "send_chunks (AuthMiddleware J now secret H) r n off cs w = send_chunks H (with_identity sub r) n off cs w"
proof (induction cs arbitrary: off w)
  case Nil
  then show ?case by simp
next
  case (Cons c cs)
  have "access_identity J now secret (ReqHeader (chunk_request r off c n)) = Some sub"
    using assms by (simp add: access_identity_chunk)
  from AuthMiddleware_Some [OF this, of H no_header w] Cons show ?case by (simp add: chunk_request_identity)
qed

lemma rs_upload_body_meta:
  assumes "rs_upload_body (service c m A live) i r wh w = (res, w')"
  shows "w_meta w' = w_meta w"
  using assms
  by (auto simp: rs_upload_body_def rs_put_whole_def rs_put_chunk_def rs_appended_def Let_def
      split: if_splits option.splits sum.splits prod.splits go_error.splits elim!: on_s3E)

lemma rs_Upload_meta:
  assumes "rs_Upload (service c m A live) r wh w = (res, w')"
  shows "w_meta w' = w_meta w \<or> w_meta w' = snd (GetVideoOwner c (UrlId r) (w_meta w))"
proof (cases "UrlId r = []")
  case True
  then show ?thesis using assms by (auto simp: rs_Upload_def with_owned_id_def)
next
  case False
  let ?own = "\<lambda>i. on_meta (GetVideoOwner c i)"
  obtain a w1 where q: "requireOwnership ?own (UrlId r) (UserIDFromCtx r) wh r w = (a, w1)"
    by (rule that, rule surjective_pairing)
  have w1: "w_meta w1 = snd (GetVideoOwner c (UrlId r) (w_meta w))"
    using q by (auto simp: requireOwnership_def on_meta_def split: prod.splits sum.splits if_splits)
  show ?thesis
  proof (cases a)
    case (Inl resp)
    then show ?thesis using assms False q w1 by (simp add: rs_Upload_def with_owned_id_def)
  next
    case (Inr u)
    then have "rs_upload_body (service c m A live) (UrlId r) r wh w1 = (res, w')"
      using assms False q by (simp add: rs_Upload_def with_owned_id_def)
    then show ?thesis using rs_upload_body_meta w1 by metis
  qed
qed

text \<open>The metadata service gives the same answer when it is asked again.\<close>

definition owner_stable :: "'m MetadataClient \<Rightarrow> string \<Rightarrow> bool" where
  "owner_stable c i \<longleftrightarrow>
     (\<forall>m. fst (GetVideoOwner c i (snd (GetVideoOwner c i m))) = fst (GetVideoOwner c i m))"

text \<open>C12: a resumed upload puts the file together. A client that sends the chunks of a file one after the
  other, each with its offset in \<open>Content-Range\<close>, is answered 308 for every chunk but the last
  and 200 for that one, and the object is then the file, byte for byte: for every division of
  the file into chunks, when the store works, the caller owns the video, nothing is stored yet
  and the file is within the limit.\<close>

theorem resumable_roundtrip:
  fixes c :: "'m MetadataClient" and m :: "'s UpMinioClient" and A :: "'q amqp"
  assumes "s3_docs m ov" "amqp_docs A oc acc" "s3_works m ov" "owner_stable c (UrlId r)"
    and "access_identity J now secret (ReqHeader r) = Some sub" "now_owner c w (UrlId r) = Inr sub" "UrlId r \<noteq> []"
    and "int (length (concat cs)) \<le> upload_max_bytes r" "upload_max_bytes r < MaxInt64"
    and "\<forall>c \<in> set cs. c \<noteq> []" "cs \<noteq> []" "bucket_objects ov w (rawKey (UrlId r)) = None"
    and "send_chunks (AuthMiddleware J now secret (rs_Upload (service c m A live))) r (int (length (concat cs))) 0 cs w
      = (codes, w')"
  shows "codes = replicate (length cs - 1) 308 @ [200] \<and>
    (\<exists>ct. bucket_objects ov w' (rawKey (UrlId r)) = Some (concat cs, ct))"
proof -
  let ?r = "with_identity sub r"
  have id: "UrlId ?r = UrlId r" "UserIDFromCtx ?r = sub" "upload_max_bytes ?r = upload_max_bytes r"
    by (simp_all add: with_identity_def UserIDFromCtx_def upload_max_bytes_def)
  have keep: "now_owner c w' (UrlId ?r) = Inr (UserIDFromCtx ?r)"
    if "now_owner c w (UrlId ?r) = Inr (UserIDFromCtx ?r)"
      "rs_Upload (service c m A live) (chunk_request ?r off ch n) no_header w = (res, w')"
    for off ch n res and w w' :: "('m, 's, 'q) up_world"
    using rs_Upload_meta [OF that(2)] that(1) assms(4) id(1) by (auto simp: now_owner_def owner_stable_def)
  have run: "send_chunks (rs_Upload (service c m A live)) ?r (int (length (concat cs))) 0 cs w = (codes, w')"
    using assms(13) unfolding send_chunks_auth [OF assms(5)] .
  have "codes = replicate (length cs - 1) 308 @ [200] \<and>
    (\<exists>ct. bucket_objects ov w' (rawKey (UrlId ?r)) = Some ([] @ concat cs, ct))"
  proof (rule working_service.send_chunks_works [OF service_works [OF assms(1-3)] _ _ _ _ _ _ _ _ _ _ _ run])
    show "now_owner c w'' (UrlId ?r) = Inr (UserIDFromCtx ?r)"
      if "now_owner c w (UrlId ?r) = Inr (UserIDFromCtx ?r)"
        "rs_Upload (service c m A live) (chunk_request ?r off ch (int (length (concat cs)))) no_header w = (res, w'')"
      for off ch res and w w'' :: "('m, 's, 'q) up_world"
      by (rule keep [OF that])
  qed (use assms(6-12) id in simp_all)
  then show ?thesis using id by simp
qed

lemma mem_owner_stable: "owner_stable mem_metadata i"
proof -
  have "snd (GetVideoOwner mem_metadata i mm) = mm" for mm
    by (auto simp: GetVideoOwner_def mem_metadata_def NewMetadataClient_def mem_http_def Let_def
        split: option.split sum.split)
  then show ?thesis by (simp add: owner_stable_def)
qed

lemma resumable_roundtrip_witness:
  "\<exists>w'. send_chunks (AuthMiddleware up_jwt 0 ''k'' (rs_Upload (mem_service 10))) (up_request ''t-ann'' ''v2'') 6 0
      [''ab'', ''c'', ''def''] (sample_up False) = ([308, 308, 200], w') \<and>
    (\<exists>ct. bucket_objects mem_objects w' (rawKey ''v2'') = Some (''abcdef'', ct))"
proof -
  let ?r = "up_request ''t-ann'' ''v2''" and ?s = "sample_up False" and ?cs = "[''ab'', ''c'', ''def'']"
  have s: "access_identity up_jwt 0 ''k'' (ReqHeader ?r) = Some ''ann''" "now_owner mem_metadata ?s (UrlId ?r) = Inr ''ann''"
    "bucket_objects mem_objects ?s (rawKey (UrlId ?r)) = None" "upload_max_bytes ?r = 5368709120" "UrlId ?r = ''v2''"
    by code_simp+
  obtain codes w' where run: "send_chunks (AuthMiddleware up_jwt 0 ''k'' (rs_Upload (mem_service 10))) ?r
      (int (length (concat ?cs))) 0 ?cs ?s = (codes, w')"
    by (rule that, rule surjective_pairing)
  from resumable_roundtrip [OF mem_s3_docs mem_amqp_docs mem_s3_works mem_owner_stable s(1,2) _ _ _ _ _ s(3)
      run [unfolded mem_service_def]] s run
  show ?thesis by (simp add: MaxInt64_def numeral_2_eq_2 numeral_3_eq_3)
qed

text \<open>The chunk route for the owner is its body; for anybody else it refuses and stores nothing.\<close>

lemma rs_Upload_owner:
  assumes "rs_Upload (service c m A live) r wh w = (res, w')"
  obtains (owner) w1 where "UrlId r \<noteq> []" "now_owner c w (UrlId r) = Inr (UserIDFromCtx r)"
      "rs_upload_body (service c m A live) (UrlId r) r wh w1 = (res, w')" "bucket_objects ov w1 = bucket_objects ov w"
  | (refused) "bucket_objects ov w' = bucket_objects ov w" "Status res \<notin> {200, 308}"
proof (cases "UrlId r \<noteq> [] \<and> now_owner c w (UrlId r) = Inr (UserIDFromCtx r)")
  case True
  obtain a w1 where q: "requireOwnership (uh_owner (service c m A live)) (UrlId r) (UserIDFromCtx r) wh r w = (a, w1)"
    by (rule that, rule surjective_pairing)
  show ?thesis
    by (rule owner [of w1]) (use owner.requireOwnership_spec [OF q] True q assms in
      \<open>auto simp: rs_Upload_def with_owned_id_def stores_def bucket_objects_def split: sum.splits\<close>)
next
  case False
  show ?thesis
  proof (cases "UrlId r = []")
    case True
    then show ?thesis using refused assms by (auto simp: rs_Upload_def with_owned_id_def)
  next
    case neq: False
    then show ?thesis using owner.owned_id_gate [OF refl assms [unfolded rs_Upload_def]] False refused
      by (auto simp: stores_def bucket_objects_def)
  qed
qed



subsection \<open>The reconciler\<close>



subsection \<open>Where the service is not what it means to be\<close>


text \<open>An upload that the service accepts and never completes: \<open>application/octet-stream\<close> is an allowed
  content type, and the resumable route stores the file with it and answers 200, but completing
  the upload answers 400 and sends no event, since only \<open>video/\<close> types pass there.\<close>

lemma octet_stream_never_completes:
  "(let r = with_identity ''ann'' (up_request ''t-ann'' ''v2'');
        put = r\<lparr>ReqHeader := hset (ReqHeader r) ''Content-Type'' ''application/octet-stream'', BodyText := ''abc''\<rparr>;
        (a, w) = rs_Upload (mem_service 10) put no_header (sample_up False);
        (b, w') = Complete (mem_service 10) r no_header w
    in isAllowedContentType ''application/octet-stream'' \<and> Status a = 200 \<and>
       bucket_objects mem_objects w (rawKey ''v2'') = Some (''abc'', ''application/octet-stream'') \<and>
       Status b = 400 \<and> sent_events mb_sent w' = [])"
  by code_simp

text \<open>A client of the object store whose \<open>Stat\<close> does not reach it.\<close>

definition cut_off :: "mem_s3 UpMinioClient" where
  "cut_off = mem_client\<lparr>um_client := mem_minio\<lparr>mn_stat := (\<lambda>b k s. (Inl (Err ''dial tcp: i/o timeout''), s))\<rparr>\<rparr>"


text \<open>The size that a client declares is not enforced: a chunk beyond it is stored and answered 308.\<close>

lemma chunk_beyond_total:
  "(let (res, w') = rs_Upload (mem_service 10)
          (chunk_request (with_identity ''ann'' (up_request ''t-ann'' ''v2'')) 0 ''abc'' 2) no_header (sample_up False)
    in Status res = 308 \<and> map_option fst (bucket_objects mem_objects w' (rawKey ''v2'')) = Some ''abc'')"
  by code_simp

end
