(* ===== verification/Flowix_Site.thy ===== *)
theory Flowix_Site
  imports Gw_Main
begin

text \<open>
  The gateway and the metadata service together, as the deployment connects them: the transport of
  the gateway's proxies delivers a request to the metadata service when it goes to its host. Main
  result: the way of a request for a private video through both services, from the client to the
  table of videos, lets the owner through and nobody else.
\<close>

subsection \<open>The connection\<close>

record 's site = "'s gw_world" +
  st_md :: md_world

text \<open>A request as a server receives it: without the values of the sender's context.\<close>

definition arrive :: "outreq \<Rightarrow> request" where
  "arrive q = (o_req q)\<lparr>CtxUser := None, UrlId := []\<rparr>"

definition site_rt ::
  "string \<Rightarrow> md_world handler \<Rightarrow> ('s, 'm) site_scheme transport \<Rightarrow> ('s, 'm) site_scheme transport" where
  "site_rt host md other q w =
     (if o_host q = host then (let (res, m) = md (arrive q) no_header (st_md w) in (Inr res, w\<lparr>st_md := m\<rparr>))
      else other q w)"

lemma same_site:
  fixes w w' :: "('s, 'm) site_scheme"
  assumes "gw_world.more w' = gw_world.more w"
  shows "st_md w' = st_md w"
  using assms by (cases w, cases w', simp)

subsection \<open>The path of one video\<close>

definition video_path :: "string \<Rightarrow> request \<Rightarrow> bool" where
  "video_path vid r \<longleftrightarrow> Split CHR ''/'' (URLPath r) = ['''', ''api'', ''v1'', ''videos'', vid] \<and> vid \<noteq> []"

lemma video_path_parts:
  assumes "video_path vid r"
  shows "segments r = 5" "under ['''', ''api'', ''v1'', ''videos''] r" "\<exists>p. URLPath r = CHR ''/'' # p"
proof -
  have s: "Split CHR ''/'' (URLPath r) = ['''', ''api'', ''v1'', ''videos'', vid]" using assms by (simp add: video_path_def)
  show "segments r = 5" "under ['''', ''api'', ''v1'', ''videos''] r" by (simp_all add: segments_def under_def s)
  show "\<exists>p. URLPath r = CHR ''/'' # p" by (rule Split_slash [OF s])
qed

text \<open>In the gateway such a \<open>GET\<close> has one handler.\<close>

lemma own_routes_match:
  assumes "(m, p, H) \<in> set (gw_own_routes metrics d)" "route_match (m, p) r vid" "Split CHR ''/'' (URLPath r) = '''' # s # rest"
  shows "s \<noteq> ''api''"
proof -
  have split: "Split CHR ''/'' ''/'' = ['''', '''']" "Split CHR ''/'' ''/health'' = ['''', ''health'']"
    "Split CHR ''/'' ''/healthz'' = ['''', ''healthz'']" "Split CHR ''/'' ''/metrics'' = ['''', ''metrics'']"
    "Split CHR ''/'' ''/docs'' = ['''', ''docs'']" "Split CHR ''/'' ''/docs/'' = ['''', ''docs'', '''']"
    "Split CHR ''/'' ''/openapi.json'' = ['''', ''openapi.json'']"
    "Split CHR ''/'' ''/openapi/auth.json'' = ['''', ''openapi'', ''auth.json'']"
    "Split CHR ''/'' ''/openapi/metadata.json'' = ['''', ''openapi'', ''metadata.json'']"
    "Split CHR ''/'' ''/openapi/upload.json'' = ['''', ''openapi'', ''upload.json'']"
    by code_simp+
  have p: "p \<in> {''/'', ''/health'', ''/healthz'', ''/metrics'', ''/docs'', ''/docs/'', ''/openapi.json'', ''/openapi/auth.json'',
      ''/openapi/metadata.json'', ''/openapi/upload.json''}"
    using assms(1) by (auto simp: gw_own_routes_def)
  have "segs_match (Split CHR ''/'' p) ('''' # s # rest) vid" using assms(2,3) by (simp add: route_match_def)
  then show ?thesis using p by (elim insertE emptyE) (auto simp: split segs_match_unfold)
qed

lemma gw_video_route:
  assumes rt: "(m, p, H) \<in> set (gw_routes L J now now2 cfg T)" and match: "route_match (m, p) r v"
    and r: "video_path vid r" "Method r = ''GET''"
  shows "H = OptionalAuth J (unix now) (jwtSecret cfg)
    (ServeProxy (InternalDirector (internalToken cfg) (Director (t_metadata T))) (gl_rt L))"
proof -
  have s: "Split CHR ''/'' (URLPath r) = '''' # ''api'' # [''v1'', ''videos'', vid]" using r(1) by (simp add: video_path_def)
  note u = video_path_parts [OF r(1)]
  have own: "(m, p, H) \<notin> set (gw_own_routes (gl_metrics L) d)" for d
    using own_routes_match [OF _ match s] by blast
  have auth: "(m, p, H) \<notin> set (gw_auth_routes h)" for h
    using other_routes_match(1) [OF _ match] under_videos(1) [OF u(2)] by blast
  have up: "(m, p, f) \<notin> set (gw_upload_routes l h)" for f l h
    using upload_routes_match [OF _ match] r(2) u(1) by fastforce
  have tok: "\<not> route_match (m', ''/api/v1/videos/{id}/hls-token'') r v" for m'
  proof -
    have "Split CHR ''/'' ''/api/v1/videos/{id}/hls-token'' = ['''', ''api'', ''v1'', ''videos'', ''{id}'', ''hls-token'']" by code_simp
    then show ?thesis by (simp add: route_match_def s segs_match_unfold)
  qed
  have wr: "(m, p, f) \<notin> set (gw_write_routes h)" for f h
    using match r(2) by (auto simp: gw_write_routes_def route_match_def)
  have hls: "\<not> route_match (''*'', ''/hls/*'') r v"
    using other_routes_match(2) under_videos(2) [OF u(2)] by blast
  from rt obtain f where "H = OptionalAuth J (unix now) (jwtSecret cfg) f"
      "(m, p, f) \<in> set (gw_read_routes (ServeProxy (InternalDirector (internalToken cfg) (Director (t_metadata T))) (gl_rt L)))"
    unfolding gw_routes_def Let_def set_append Un_iff set_with_mw list.set singleton_iff prod.inject
    using own auth up tok wr hls match by blast
  then show ?thesis by (auto simp: gw_read_routes_def)
qed

text \<open>In the metadata service too.\<close>

lemma md_video_route:
  assumes rt: "(m, p, H) \<in> set (md_routes J now secret tok vh metrics swagger)" and match: "route_match (m, p) r v"
    and r: "video_path vid r" "Method r = ''GET''"
  shows "H = OptionalAuth J now secret (handle_Get vh) \<and> v = vid"
proof -
  have s: "Split CHR ''/'' (URLPath r) = '''' # ''api'' # [''v1'', ''videos'', vid]" using r(1) by (simp add: video_path_def)
  have split: "Split CHR ''/'' ''/api/v1/videos'' = ['''', ''api'', ''v1'', ''videos'']"
    "Split CHR ''/'' ''/api/v1/videos/{id}'' = ['''', ''api'', ''v1'', ''videos'', ''{id}'']"
    by code_simp+
  have other: "(m, p, H') \<notin> set (md_static_routes metrics swagger @ md_internal_routes vh)" for H'
    using internal_first_segment [OF _ match s] by blast
  then have static: "(m, p, H) \<notin> set (md_static_routes metrics swagger)"
    and internal: "(m, p, H') \<notin> set (md_internal_routes vh)" for H' by auto
  have wr: "(m, p, f) \<notin> set (md_write_routes vh)" for f
    using match r(2) by (auto simp: md_write_routes_def route_match_def)
  from rt obtain f where "H = OptionalAuth J now secret f" "(m, p, f) \<in> set (md_read_routes vh)"
    unfolding md_routes_def set_append Un_iff set_with_mw using static internal wr by blast
  then show ?thesis using match by (auto simp: md_read_routes_def route_match_def split s segs_match_unfold)
qed

text \<open>So neither router leaves it unanswered.\<close>

lemma video_route_exists:
  assumes "video_path vid r" "Method r = ''GET''"
  shows "\<exists>(m, p, H) \<in> set (gw_routes L J now now2 cfg T). \<exists>v. route_match (m, p) r v"
    "\<exists>(m, p, H) \<in> set (md_routes J now secret tok vh metrics swagger). \<exists>v. route_match (m, p) r v"
proof -
  have s: "Split CHR ''/'' (URLPath r) = ['''', ''api'', ''v1'', ''videos'', vid]" "vid \<noteq> []"
    using assms(1) by (simp_all add: video_path_def)
  have split: "Split CHR ''/'' ''/api/v1/videos/*'' = ['''', ''api'', ''v1'', ''videos'', ''*'']"
    "Split CHR ''/'' ''/api/v1/videos/{id}'' = ['''', ''api'', ''v1'', ''videos'', ''{id}'']"
    by code_simp+
  have m: "route_match (''GET'', ''/api/v1/videos/*'') r vid" "route_match (''GET'', ''/api/v1/videos/{id}'') r vid"
    using assms(2) s by (simp_all add: route_match_def split segs_match_unfold)
  let ?md = "ServeProxy (InternalDirector (internalToken cfg) (Director (t_metadata T))) (gl_rt L)"
  have "(''GET'', ''/api/v1/videos/*'', OptionalAuth J (unix now) (jwtSecret cfg) ?md) \<in> set (gw_routes L J now now2 cfg T)"
    by (simp add: gw_routes_def Let_def with_mw_def gw_read_routes_def)
  then show "\<exists>(m, p, H) \<in> set (gw_routes L J now now2 cfg T). \<exists>v. route_match (m, p) r v" using m(1) by blast
  have "(''GET'', ''/api/v1/videos/{id}'', OptionalAuth J now secret (handle_Get vh)) \<in> set (md_routes J now secret tok vh metrics swagger)"
    by (simp add: md_routes_def with_mw_def md_read_routes_def)
  then show "\<exists>(m, p, H) \<in> set (md_routes J now secret tok vh metrics swagger). \<exists>v. route_match (m, p) r v" using m(2) by blast
qed

subsection \<open>Through both services\<close>

text \<open>The handler of the metadata service, behind its own check of the token.\<close>

lemma md_get_private:
  fixes w :: "'m md_world_scheme"
  assumes "pg_ok w" "h_repo vh = pgStore" "CtxUser r = None" "pg_look w (UrlId r) = Some v0"
    and "VVisibility v0 = VisibilityPrivate" "OptionalAuth J now secret (handle_Get vh) r wh w = (res, w')" "Status res = 200"
  shows "access_identity J now secret (ReqHeader r) = Some (Video.OwnerID v0)"
proof -
  have ne: "Video.OwnerID v0 \<noteq> []" using assms(1,4) by (auto simp: look_row pg_ok_def dest!: row_of_id)
  show ?thesis
  proof (cases "access_identity J now secret (ReqHeader r)")
    case None
    note run = assms(6) [unfolded OptionalAuth_None [OF None]]
    from pgs.Get_private [OF assms(1,2) run] assms(3-5,7) ne show ?thesis by (simp add: UserIDFromCtx_def)
  next
    case (Some sub)
    note run = assms(6) [unfolded OptionalAuth_Some [OF Some]]
    from pgs.Get_private [OF assms(1,2) run] assms(4,5,7) Some show ?thesis by (simp add: UserIDFromCtx_def with_identity_def)
  qed
qed

lemma md_service_private:
  assumes "pg_ok w" "chi_docs C" "CtxUser r = None" "video_path vid r" "Method r = ''GET''"
    and "pg_look w vid = Some v0" "VVisibility v0 = VisibilityPrivate"
    and "md_service C getReqID dur emit (md_routes J now secret tok (md_handler New getenv fmt) metrics swagger) r wh w = (res, w')"
    and "Status res = 200"
  shows "access_identity J now secret (ReqHeader r) = Some (Video.OwnerID v0)"
proof -
  let ?vh = "md_handler New getenv fmt" and ?q = "logged_request getReqID r" and ?wh = "logged_header getReqID r wh"
  let ?rts = "md_routes J now secret tok ?vh metrics swagger"
  obtain res1 w1 where d: "dispatch C ?rts ?q ?wh w = (res1, w1)" by (rule that, rule surjective_pairing)
  have res: "res1 = res"
    using assms(8) RequestLogger_run [of "dispatch C ?rts", OF d] by (simp add: md_service_def)
  have q: "video_path vid ?q" "Method ?q = ''GET''" using assms(4,5) by (simp_all add: video_path_def)
  show ?thesis
  proof (rule dispatch_cases [OF assms(2) d])
    fix m p H v
    assume "(m, p, H) \<in> set ?rts" "route_match (m, p) ?q v" and run: "H (?q\<lparr>UrlId := v\<rparr>) ?wh w = (res1, w1)"
    from md_video_route [OF this(1,2) q] have H: "H = OptionalAuth J now secret (handle_Get ?vh)" and v: "v = vid" by simp_all
    have "access_identity J now secret (ReqHeader (?q\<lparr>UrlId := v\<rparr>)) = Some (Video.OwnerID v0)"
      by (rule md_get_private [OF assms(1) md_handler_repo _ _ assms(7) run [unfolded H]])
        (use assms(3,6,9) v res in simp_all)
    then show ?thesis by simp
  next
    assume "\<forall>(m, p, H) \<in> set ?rts. \<forall>v. \<not> route_match (m, p) ?q v"
    then show ?thesis using video_route_exists(2) [OF q] by blast
  qed
qed

text \<open>On the way to the metadata service the token is the client's, or gone.\<close>

lemma proxied_authorization:
  assumes "ReqHeader r1 ''Authorization'' = ReqHeader r ''Authorization''"
    and "access_identity J t secret (ReqHeader (o_req (proxied (InternalDirector tok (Director X)) r1))) = Some sub"
  shows "access_identity J t secret (ReqHeader r) = Some sub"
proof -
  have other: "''Authorization'' \<notin> {''X-Forwarded-Host'', ''X-Request-Id'', ''X-Forwarded-For'', ''X-Forwarded-Proto'', ''User-Agent''}"
    "''Authorization'' \<notin> set hop_headers" "''Authorization'' \<noteq> ''X-Internal-Token''"
    by (simp_all add: hop_headers_def)
  let ?q = "ReqHeader (o_req (proxied (InternalDirector tok (Director X)) r1))"
  have "?q ''Authorization'' = [] \<or> ?q ''Authorization'' = ReqHeader r ''Authorization''"
    unfolding proxied_internal(4) [OF other(3)] proxied_other [OF other(1,2)] assms(1) by simp
  then have "hget ?q ''Authorization'' = [] \<or> hget ?q ''Authorization'' = hget (ReqHeader r) ''Authorization''"
    by (auto simp: hget_def)
  then show ?thesis using assms(2) by (auto simp: access_identity_def split: if_splits)
qed

subsection \<open>A site to evaluate\<close>

definition sample_md_service :: "md_world handler" where
  "sample_md_service = md_service sample_chi (\<lambda>r. hget (ReqHeader r) ''X-Request-Id'') 5 (\<lambda>l w. w)
     (md_routes md_jwt (unix 0) (jwtSecret sample_cfg) (internalToken sample_cfg)
        (md_handler (\<lambda>e a k s. Inl (Err ''no endpoint'')) (\<lambda>_. []) (\<lambda>t. Itoa t)) library_page library_page)"

definition no_route :: "'w transport" where
  "no_route q w = (Inl (Err ''no such host''), w)"

definition site_libs :: "redis_db site gw_libs" where
  "site_libs =
     \<lparr>gl_chi = sample_chi, gl_reqID = (\<lambda>r. ''id-1''), gl_metrics = library_page, gl_inc = (\<lambda>w. w),
      gl_client = sample_client, gl_Get = (\<lambda>u w. (Inl (Err ''down''), w)),
      gl_rt = site_rt ''metadata:8002'' sample_md_service no_route, gl_emit = (\<lambda>l w. w), gl_parse = parse_url\<rparr>"

definition sample_site_gateway :: "redis_db site handler" where
  "sample_site_gateway = (case newRouter site_libs md_jwt 0 0 5 sample_cfg of Inr gw \<Rightarrow> gw | Inl _ \<Rightarrow> healthHandler)"

definition sample_site :: "redis_db site" where
  "sample_site = gw_world.extend sample_gw \<lparr>st_md = sample_md\<rparr>"

lemma sample_site_router: "newRouter site_libs md_jwt 0 0 5 sample_cfg = Inr sample_site_gateway"
  by (simp add: sample_site_gateway_def newRouter_def gw_parse_targets_def site_libs_def parse_url_def)

subsection \<open>Properties\<close>

lemma proxied_video:
  fixes target :: target_url and tok :: string
  defines "dir \<equiv> InternalDirector tok (Director target)"
  assumes "u_path target = [] \<or> u_path target = ''/''" "video_path vid r1"
  shows "o_host (proxied dir r1) = u_host target" "URLPath (o_req (proxied dir r1)) = URLPath r1"
    "Method (o_req (proxied dir r1)) = Method r1"
proof -
  obtain p' where p': "URLPath r1 = CHR ''/'' # p'" using video_path_parts(3) [OF assms(3)] by auto
  show "URLPath (o_req (proxied dir r1)) = URLPath r1"
    unfolding dir_def proxied_internal(1) proxied_path p' joining_slash [OF assms(2)] by simp
qed (simp_all add: dir_def proxied_internal(2,3) proxied_method proxied_def [of "Director target"] Director_def singleHostDirector_def Let_def)

text \<open>C8: a private video stays private on the whole way. For a request for one video that the gateway
  gets and the metadata service behind it answers, with the routers, the middlewares and the
  table of videos between them, the client sees 200 for a private video only when its access
  token proves that it is the owner, whatever else the request says and whatever the other
  services do. The two services share the secret and read the clock at the same time.\<close>

theorem site_private_video:
  fixes w :: "('s, 'm) site_scheme"
  assumes "pg_ok (st_md w)" "chi_docs (gl_chi L)" "chi_docs C"
    and "gl_parse L (metadataURL cfg) = Inr target" "u_path target = [] \<or> u_path target = ''/''"
    and "gl_rt L = site_rt (u_host target) (md_service C getReqID dur2 emit
        (md_routes J (unix now) (jwtSecret cfg) token (md_handler New getenv fmt) metrics swagger)) other"
    and "newRouter L J now now2 dur cfg = Inr gw" "gw r wh w = (res, w')"
    and "video_path vid r" "Method r = ''GET''"
    and "pg_look (st_md w) vid = Some v0" "VVisibility v0 = VisibilityPrivate" "Status res = 200"
  shows "access_identity J (unix now) (jwtSecret cfg) (ReqHeader r) = Some (Video.OwnerID v0)"
  using assms(7,8)
proof (cases rule: gw_chain_cases)
  case refused
  then show ?thesis using assms(13) by simp
next
  case (routed T wh1 w1 w2 line)
  let ?real = "real_ip_request (trusted cfg) r"
  let ?r = "logged_request (gl_reqID L) ?real" and ?wh = "logged_header (gl_reqID L) ?real wh1"
  let ?dir = "InternalDirector (internalToken cfg) (Director (t_metadata T))"
  let ?opt = "OptionalAuth J (unix now) (jwtSecret cfg)"
  have r: "video_path vid ?r" "Method ?r = ''GET''" using assms(9,10) by (simp_all add: video_path_def)
  have T: "t_metadata T = target"
    using routed(1) assms(4) by (auto simp: gw_parse_targets_def split: sum.splits)
  show ?thesis
  proof (rule dispatch_cases [OF assms(2) routed(2)])
    assume "\<forall>(m, p, H) \<in> set (gw_routes L J now now2 cfg T). \<forall>v. \<not> route_match (m, p) ?r v"
    then show ?thesis using video_route_exists(1) [OF r] by blast
  next
    fix m p H v
    assume "(m, p, H) \<in> set (gw_routes L J now now2 cfg T)" "route_match (m, p) ?r v"
      and run: "H (?r\<lparr>UrlId := v\<rparr>) ?wh w1 = (res, w2)"
    from gw_video_route [OF this(1,2) r] have H: "H = ?opt (ServeProxy ?dir (gl_rt L))" .
    obtain r1 where "?opt (ServeProxy ?dir (gl_rt L)) (?r\<lparr>UrlId := v\<rparr>) ?wh w1 = ServeProxy ?dir (gl_rt L) r1 ?wh w1"
      and r1: "URLPath r1 = URLPath (?r\<lparr>UrlId := v\<rparr>)" "Method r1 = Method (?r\<lparr>UrlId := v\<rparr>)"
        "\<And>k. k \<noteq> ''X-User-Id'' \<Longrightarrow> ReqHeader r1 k = ReqHeader (?r\<lparr>UrlId := v\<rparr>) k"
      by (rule OptionalAuth_forwards [of J "unix now" "jwtSecret cfg" "ServeProxy ?dir (gl_rt L)" "?r\<lparr>UrlId := v\<rparr>" ?wh w1],
        rule that) assumption+
    with run H have serve: "ServeProxy ?dir (gl_rt L) r1 ?wh w1 = (res, w2)" by simp
    have auth: "ReqHeader r1 ''Authorization'' = ReqHeader ?r ''Authorization''" using r1(3) by simp
    have "video_path vid r1" using r(1) r1(1) by (simp add: video_path_def)
    note q = proxied_video [OF assms(5) this, of "internalToken cfg"]
    let ?q = "proxied ?dir r1"
    let ?svc = "md_service C getReqID dur2 emit
        (md_routes J (unix now) (jwtSecret cfg) token (md_handler New getenv fmt) metrics swagger)"
    obtain res2 m2 where svc: "?svc (arrive ?q) no_header (st_md w1) = (res2, m2)" by (rule that, rule surjective_pairing)
    have "Status res2 = 200"
      using serve assms(13) svc by (auto simp: ServeProxy_def assms(6) site_rt_def q(1) T)
    have md: "access_identity J (unix now) (jwtSecret cfg) (ReqHeader (arrive ?q)) = Some (Video.OwnerID v0)"
      by (rule md_service_private [OF _ assms(3) _ _ _ _ assms(12) svc \<open>Status res2 = 200\<close>, of vid])
        (use assms(1,11) same_site [OF routed(3)] q(2,3) r1(1,2) r T in \<open>simp_all add: arrive_def video_path_def\<close>)
    have "ReqHeader (arrive ?q) = ReqHeader (o_req ?q)" by (simp add: arrive_def)
    from proxied_authorization [OF auth md [unfolded this]]
    show ?thesis by simp
  qed
qed

lemma site_private_video_witness:
  "\<exists>res w'. sample_site_gateway (liar ''GET'' ''t-ann'') no_header sample_site = (res, w') \<and> Status res = 200 \<and>
     access_identity md_jwt (unix 0) (jwtSecret sample_cfg) (ReqHeader (liar ''GET'' ''t-ann'')) = Some ''ann''"
proof -
  let ?run = "sample_site_gateway (liar ''GET'' ''t-ann'') no_header sample_site"
  have s: "Status (fst ?run) = 200" by code_simp
  have run: "?run = (fst ?run, snd ?run)" by simp
  have l: "pg_look (st_md sample_site) ''v1'' = Some (video_of (Some ''a@x'') (sample_row ''v1'' StatusReady VisibilityPrivate))"
    "VVisibility (video_of (Some ''a@x'') (sample_row ''v1'' StatusReady VisibilityPrivate)) = VisibilityPrivate"
    "Video.OwnerID (video_of (Some ''a@x'') (sample_row ''v1'' StatusReady VisibilityPrivate)) = ''ann''"
    by code_simp+
  have p: "video_path ''v1'' (liar ''GET'' ''t-ann'')" "Method (liar ''GET'' ''t-ann'') = ''GET''" by code_simp+
  have ok: "pg_ok (st_md sample_site)" using sample_md_ok by (simp add: sample_site_def gw_world.extend_def)
  have chi: "chi_docs (gl_chi site_libs)" by (simp add: site_libs_def sample_chi_docs)
  have u: "metadataURL sample_cfg = ''http://metadata:8002''" by code_simp
  have t: "gl_parse site_libs (metadataURL sample_cfg) = Inr \<lparr>u_scheme = ''http'', u_host = ''metadata:8002'', u_path = []\<rparr>"
    unfolding u by (simp add: site_libs_def parse_url_def) code_simp
  have rt: "gl_rt site_libs = site_rt (u_host \<lparr>u_scheme = ''http'', u_host = ''metadata:8002'', u_path = []\<rparr>) sample_md_service no_route"
    by (simp add: site_libs_def)
  from site_private_video [OF ok chi sample_chi_docs t _ rt [unfolded sample_md_service_def] sample_site_router run p l(1,2) s] l(3)
  show ?thesis using run s by (intro exI [of _ "fst ?run"] exI [of _ "snd ?run"]) simp
qed

end
