(* ===== verification/Api_Docs.thy ===== *)
theory Api_Docs
  imports Md_Main Up_Server Gw_Docs
begin

text \<open>
  The API documents that the metadata service and the upload service serve and the gateway merges:
  \<open>services/metadata/docs/docs.go\<close> and \<open>services/upload/docs/docs.go\<close>. \<open>swag\<close> writes these files
  from the comments of the handlers and fills their template at run time; they are data, and here
  they are compared with the route tables of the two \<open>main.go\<close>.
\<close>

text \<open>\<open>swag.Spec\<close>: what the template is filled with; the texts need no escaping.\<close>

record swag_spec =
  sw_Version :: string
  sw_Host :: string
  sw_BasePath :: string
  sw_Schemes :: "string list"
  sw_Title :: string
  sw_Description :: string
  sw_InstanceName :: string

subsection \<open>The document of the metadata service\<close>

definition md_doc_videos :: "string \<times> json" where
  "md_doc_videos =
    (''/api/v1/videos'',
    JObj
     [(''get'', JObj
         [(''produces'', JArr [JStr ''application/json'']),
          (''tags'', JArr [JStr ''videos'']),
          (''summary'', JStr ''List videos''),
          (''parameters'', JArr
             [JObj
               [(''type'', JStr ''integer''),
                (''default'', JNum ''20''),
                (''description'', JStr ''Limit 1-100''),
                (''name'', JStr ''limit''),
                (''in'', JStr ''query'')],
              JObj
               [(''type'', JStr ''integer''),
                (''default'', JNum ''0''),
                (''description'', JStr ''Offset''),
                (''name'', JStr ''offset''),
                (''in'', JStr ''query'')]]),
          (''responses'', JObj
             [(''200'', JObj
                 [(''description'', JStr ''OK''),
                  (''schema'', JObj [(''type'', JStr ''object''), (''additionalProperties'', JBool True)])])])]),
      (''post'', JObj
         [(''security'', JArr [JObj [(''BearerAuth'', JArr [])]]),
          (''consumes'', JArr [JStr ''application/json'']),
          (''produces'', JArr [JStr ''application/json'']),
          (''tags'', JArr [JStr ''videos'']),
          (''summary'', JStr ''Create video metadata''),
          (''parameters'', JArr
             [JObj
               [(''description'', JStr ''Create''),
                (''name'', JStr ''body''),
                (''in'', JStr ''body''),
                (''required'', JBool True),
                (''schema'', JObj [(''$ref'', JStr ''#/definitions/flowix_metadata_internal_model.CreateVideoRequest'')])]]),
          (''responses'', JObj
             [(''201'', JObj
                 [(''description'', JStr ''Created''),
                  (''schema'', JObj [(''$ref'', JStr ''#/definitions/flowix_metadata_internal_model.Video'')])]),
              (''400'', JObj
                 [(''description'', JStr ''invalid body''),
                  (''schema'', JObj [(''type'', JStr ''string'')])]),
              (''401'', JObj
                 [(''description'', JStr ''unauthorized''),
                  (''schema'', JObj [(''type'', JStr ''string'')])])])])])"

definition md_doc_video :: "string \<times> json" where
  "md_doc_video =
    (''/api/v1/videos/{id}'',
    JObj
     [(''get'', JObj
         [(''produces'', JArr [JStr ''application/json'']),
          (''tags'', JArr [JStr ''videos'']),
          (''summary'', JStr ''Get video by ID''),
          (''parameters'', JArr
             [JObj
               [(''type'', JStr ''string''),
                (''description'', JStr ''Video ID''),
                (''name'', JStr ''id''),
                (''in'', JStr ''path''),
                (''required'', JBool True)]]),
          (''responses'', JObj
             [(''200'', JObj
                 [(''description'', JStr ''OK''),
                  (''schema'', JObj [(''$ref'', JStr ''#/definitions/flowix_metadata_internal_model.Video'')])]),
              (''403'', JObj
                 [(''description'', JStr ''forbidden (private, not owner)''),
                  (''schema'', JObj [(''type'', JStr ''string'')])]),
              (''404'', JObj [(''description'', JStr ''not found''), (''schema'', JObj [(''type'', JStr ''string'')])])])]),
      (''delete'', JObj
         [(''security'', JArr [JObj [(''BearerAuth'', JArr [])]]),
          (''tags'', JArr [JStr ''videos'']),
          (''summary'', JStr ''Delete video (owner only)''),
          (''parameters'', JArr
             [JObj
               [(''type'', JStr ''string''),
                (''description'', JStr ''Video ID''),
                (''name'', JStr ''id''),
                (''in'', JStr ''path''),
                (''required'', JBool True)]]),
          (''responses'', JObj
             [(''204'', JObj [(''description'', JStr ''No Content'')]),
              (''403'', JObj [(''description'', JStr ''forbidden''), (''schema'', JObj [(''type'', JStr ''string'')])]),
              (''404'', JObj [(''description'', JStr ''not found''), (''schema'', JObj [(''type'', JStr ''string'')])])])]),
      (''patch'', JObj
         [(''security'', JArr [JObj [(''BearerAuth'', JArr [])]]),
          (''consumes'', JArr [JStr ''application/json'']),
          (''produces'', JArr [JStr ''application/json'']),
          (''tags'', JArr [JStr ''videos'']),
          (''summary'', JStr ''Update video (owner only)''),
          (''parameters'', JArr
             [JObj
               [(''type'', JStr ''string''),
                (''description'', JStr ''Video ID''),
                (''name'', JStr ''id''),
                (''in'', JStr ''path''),
                (''required'', JBool True)],
              JObj
               [(''description'', JStr ''Update''),
                (''name'', JStr ''body''),
                (''in'', JStr ''body''),
                (''required'', JBool True),
                (''schema'', JObj [(''$ref'', JStr ''#/definitions/flowix_metadata_internal_model.UpdateVideoRequest'')])]]),
          (''responses'', JObj
             [(''200'', JObj
                 [(''description'', JStr ''OK''),
                  (''schema'', JObj [(''$ref'', JStr ''#/definitions/flowix_metadata_internal_model.Video'')])]),
              (''403'', JObj [(''description'', JStr ''forbidden''), (''schema'', JObj [(''type'', JStr ''string'')])]),
              (''404'', JObj [(''description'', JStr ''not found''), (''schema'', JObj [(''type'', JStr ''string'')])])])])])"

definition md_doc_internal :: "string \<times> json" where
  "md_doc_internal =
    (''/internal/videos/{id}'',
    JObj
     [(''get'', JObj
         [(''produces'', JArr [JStr ''application/json'']),
          (''tags'', JArr [JStr ''internal'']),
          (''summary'', JStr ''Internal get video (no auth)''),
          (''parameters'', JArr
             [JObj
               [(''type'', JStr ''string''),
                (''description'', JStr ''Video ID''),
                (''name'', JStr ''id''),
                (''in'', JStr ''path''),
                (''required'', JBool True)]]),
          (''responses'', JObj
             [(''200'', JObj
                 [(''description'', JStr ''OK''),
                  (''schema'', JObj [(''$ref'', JStr ''#/definitions/flowix_metadata_internal_model.Video'')])])])])])"

definition md_doc_status :: "string \<times> json" where
  "md_doc_status =
    (''/internal/videos/{id}/status'',
    JObj
     [(''patch'', JObj
         [(''consumes'', JArr [JStr ''application/json'']),
          (''produces'', JArr [JStr ''application/json'']),
          (''tags'', JArr [JStr ''internal'']),
          (''summary'', JStr ''Internal update status (transcoder/upload)''),
          (''parameters'', JArr
             [JObj
               [(''type'', JStr ''string''),
                (''description'', JStr ''Video ID''),
                (''name'', JStr ''id''),
                (''in'', JStr ''path''),
                (''required'', JBool True)],
              JObj
               [(''description'', JStr ''Status''),
                (''name'', JStr ''body''),
                (''in'', JStr ''body''),
                (''required'', JBool True),
                (''schema'', JObj [(''$ref'', JStr ''#/definitions/flowix_metadata_internal_model.UpdateStatusRequest'')])]]),
          (''responses'', JObj
             [(''200'', JObj
                 [(''description'', JStr ''OK''),
                  (''schema'', JObj
                     [(''type'', JStr ''object''),
                      (''additionalProperties'', JObj [(''type'', JStr ''string'')])])])])])])"

definition md_doc_requests :: "(string \<times> json) list" where
  "md_doc_requests =
    [(''flowix_metadata_internal_model.CreateVideoRequest'', JObj
       [(''type'', JStr ''object''),
        (''required'', JArr [JStr ''title'']),
        (''properties'', JObj
           [(''description'', JObj [(''type'', JStr ''string'')]),
            (''title'', JObj [(''type'', JStr ''string'')]),
            (''visibility'', JObj [(''$ref'', JStr ''#/definitions/flowix_metadata_internal_model.Visibility'')])])]),
     (''flowix_metadata_internal_model.Rendition'', JObj
       [(''type'', JStr ''object''),
        (''properties'', JObj
           [(''bitrate'', JObj [(''type'', JStr ''integer'')]),
            (''height'', JObj [(''type'', JStr ''integer'')]),
            (''quality'', JObj [(''type'', JStr ''string'')]),
            (''s3_key'', JObj [(''type'', JStr ''string'')]),
            (''video_id'', JObj [(''type'', JStr ''string'')]),
            (''width'', JObj [(''type'', JStr ''integer'')])])]),
     (''flowix_metadata_internal_model.UpdateStatusRequest'', JObj
       [(''type'', JStr ''object''),
        (''properties'', JObj
           [(''renditions'', JObj
               [(''type'', JStr ''array''),
                (''items'', JObj [(''$ref'', JStr ''#/definitions/flowix_metadata_internal_model.Rendition'')])]),
            (''status'', JObj [(''$ref'', JStr ''#/definitions/flowix_metadata_internal_model.VideoStatus'')]),
            (''thumbnail_s3_key'', JObj [(''type'', JStr ''string'')]),
            (''thumbnail_url'', JObj [(''description'', JStr ''alias for thumbnail_s3_key''), (''type'', JStr ''string'')])])])]"

definition md_doc_models :: "(string \<times> json) list" where
  "md_doc_models =
    [(''flowix_metadata_internal_model.UpdateVideoRequest'', JObj
       [(''type'', JStr ''object''),
        (''properties'', JObj
           [(''description'', JObj [(''type'', JStr ''string'')]),
            (''title'', JObj [(''type'', JStr ''string'')]),
            (''visibility'', JObj [(''$ref'', JStr ''#/definitions/flowix_metadata_internal_model.Visibility'')])])]),
     (''flowix_metadata_internal_model.Video'', JObj
       [(''type'', JStr ''object''),
        (''properties'', JObj
           [(''created_at'', JObj [(''type'', JStr ''string'')]),
            (''description'', JObj [(''type'', JStr ''string'')]),
            (''duration'', JObj [(''type'', JStr ''integer'')]),
            (''id'', JObj [(''type'', JStr ''string'')]),
            (''owner_email'', JObj [(''type'', JStr ''string'')]),
            (''owner_id'', JObj [(''type'', JStr ''string'')]),
            (''renditions'', JObj
               [(''type'', JStr ''array''),
                (''items'', JObj [(''$ref'', JStr ''#/definitions/flowix_metadata_internal_model.Rendition'')])]),
            (''status'', JObj [(''$ref'', JStr ''#/definitions/flowix_metadata_internal_model.VideoStatus'')]),
            (''thumbnail_s3_key'', JObj [(''type'', JStr ''string'')]),
            (''thumbnail_url'', JObj [(''type'', JStr ''string'')]),
            (''title'', JObj [(''type'', JStr ''string'')]),
            (''updated_at'', JObj [(''type'', JStr ''string'')]),
            (''visibility'', JObj [(''$ref'', JStr ''#/definitions/flowix_metadata_internal_model.Visibility'')])])]),
     (''flowix_metadata_internal_model.VideoStatus'', JObj
       [(''type'', JStr ''string''),
        (''enum'', JArr [JStr ''uploaded'', JStr ''processing'', JStr ''ready'', JStr ''failed'']),
        (''x-enum-varnames'', JArr [JStr ''StatusUploaded'', JStr ''StatusProcessing'', JStr ''StatusReady'', JStr ''StatusFailed''])]),
     (''flowix_metadata_internal_model.Visibility'', JObj
       [(''type'', JStr ''string''),
        (''enum'', JArr [JStr ''public'', JStr ''private'', JStr ''unlisted'']),
        (''x-enum-varnames'', JArr [JStr ''VisibilityPublic'', JStr ''VisibilityPrivate'', JStr ''VisibilityUnlisted''])])]"

definition md_docTemplate :: "swag_spec \<Rightarrow> json" where
  "md_docTemplate S =
     JObj
      [(''schemes'', JArr (map JStr (sw_Schemes S))), (''swagger'', JStr ''2.0''),
       (''info'', JObj [(''description'', JStr (sw_Description S)), (''title'', JStr (sw_Title S)), (''contact'', JObj []),
          (''version'', JStr (sw_Version S))]),
       (''host'', JStr (sw_Host S)), (''basePath'', JStr (sw_BasePath S)),
       (''paths'', JObj [md_doc_videos, md_doc_video, md_doc_internal, md_doc_status]),
       (''definitions'', JObj (md_doc_requests @ md_doc_models)),
       (''securityDefinitions'', JObj
        [(''BearerAuth'', JObj
            [(''description'', JStr ''Type \"Bearer {token}\" for JWT''),
             (''type'', JStr ''apiKey''),
             (''name'', JStr ''Authorization''),
             (''in'', JStr ''header'')])])]"

definition md_SwaggerInfo :: swag_spec where
  "md_SwaggerInfo =
     \<lparr>sw_Version = ''1.0'', sw_Host = '''', sw_BasePath = ''/'', sw_Schemes = [],
      sw_Title = ''Flowix Metadata API'',
      sw_Description =
        ''Video metadata CRUD + internal status (Go chi). JWT Bearer required for write ops.'',
      sw_InstanceName = ''swagger''\<rparr>"

definition md_doc_json :: json where
  "md_doc_json = md_docTemplate md_SwaggerInfo"

subsection \<open>The document of the upload service\<close>

definition up_doc_multipart :: "string \<times> json" where
  "up_doc_multipart =
    (''/api/v1/videos/multipart'',
    JObj
     [(''post'', JObj
         [(''security'', JArr [JObj [(''BearerAuth'', JArr [])]]),
          (''description'', JStr ''Creates metadata record and starts a multipart session for raw/{id}/original.mp4. Presign parts next, then call complete.''),
          (''consumes'', JArr [JStr ''application/json'']),
          (''produces'', JArr [JStr ''application/json'']),
          (''tags'', JArr [JStr ''upload'']),
          (''summary'', JStr ''Create S3 multipart upload''),
          (''parameters'', JArr
             [JObj
               [(''description'', JStr ''Presign request''),
                (''name'', JStr ''body''),
                (''in'', JStr ''body''),
                (''required'', JBool True),
                (''schema'', JObj [(''$ref'', JStr ''#/definitions/internal_handler.presignRequest'')])]]),
          (''responses'', JObj
             [(''201'', JObj
                 [(''description'', JStr ''Created''),
                  (''schema'', JObj [(''$ref'', JStr ''#/definitions/internal_handler.multipartCreateResponse'')])])])])])"

definition up_doc_presign :: "string \<times> json" where
  "up_doc_presign =
    (''/api/v1/videos/presign'',
    JObj
     [(''post'', JObj
         [(''security'', JArr [JObj [(''BearerAuth'', JArr [])]]),
          (''description'', JStr ''Creates metadata record and returns presigned PUT URL for raw/{id}/original.mp4. Client PUTs directly to MinIO, then calls complete.''),
          (''consumes'', JArr [JStr ''application/json'']),
          (''produces'', JArr [JStr ''application/json'']),
          (''tags'', JArr [JStr ''upload'']),
          (''summary'', JStr ''Presign upload via direct MinIO PUT''),
          (''parameters'', JArr
             [JObj
               [(''description'', JStr ''Presign request''),
                (''name'', JStr ''body''),
                (''in'', JStr ''body''),
                (''required'', JBool True),
                (''schema'', JObj [(''$ref'', JStr ''#/definitions/internal_handler.presignRequest'')])]]),
          (''responses'', JObj
             [(''201'', JObj
                 [(''description'', JStr ''Created''),
                  (''schema'', JObj [(''$ref'', JStr ''#/definitions/internal_handler.presignResponse'')])])])])])"

definition up_doc_upload :: "string \<times> json" where
  "up_doc_upload =
    (''/api/v1/videos/upload'',
    JObj
     [(''post'', JObj
         [(''security'', JArr [JObj [(''BearerAuth'', JArr [])]]),
          (''description'', JStr ''Multipart upload: file + title/description. Creates metadata, stores to MinIO, publishes video.uploaded.''),
          (''consumes'', JArr [JStr ''multipart/form-data'']),
          (''produces'', JArr [JStr ''application/json'']),
          (''tags'', JArr [JStr ''upload'']),
          (''summary'', JStr ''Upload video file''),
          (''parameters'', JArr
             [JObj
               [(''type'', JStr ''file''),
                (''description'', JStr ''video file''),
                (''name'', JStr ''file''),
                (''in'', JStr ''formData''),
                (''required'', JBool True)],
              JObj
               [(''type'', JStr ''string''),
                (''description'', JStr ''Title (default filename)''),
                (''name'', JStr ''title''),
                (''in'', JStr ''formData'')],
              JObj
               [(''type'', JStr ''string''),
                (''description'', JStr ''Description''),
                (''name'', JStr ''description''),
                (''in'', JStr ''formData'')]]),
          (''responses'', JObj
             [(''201'', JObj
                 [(''description'', JStr ''id, s3_key, status''),
                  (''schema'', JObj [(''type'', JStr ''object''), (''additionalProperties'', JBool True)])]),
              (''400'', JObj
                 [(''description'', JStr ''invalid body''),
                  (''schema'', JObj [(''type'', JStr ''string'')])]),
              (''401'', JObj
                 [(''description'', JStr ''unauthorized''),
                  (''schema'', JObj [(''type'', JStr ''string'')])]),
              (''502'', JObj
                 [(''description'', JStr ''metadata error''),
                  (''schema'', JObj [(''type'', JStr ''string'')])])])])])"

definition up_doc_complete :: "string \<times> json" where
  "up_doc_complete =
    (''/api/v1/videos/{id}/complete'',
    JObj
     [(''post'', JObj
         [(''security'', JArr [JObj [(''BearerAuth'', JArr [])]]),
          (''description'', JStr ''Verifies raw object exists in MinIO, then publishes video.uploaded event. Idempotent.''),
          (''consumes'', JArr [JStr ''application/json'']),
          (''produces'', JArr [JStr ''application/json'']),
          (''tags'', JArr [JStr ''upload'']),
          (''summary'', JStr ''Complete presigned upload''),
          (''parameters'', JArr
             [JObj
               [(''type'', JStr ''string''),
                (''description'', JStr ''Video ID''),
                (''name'', JStr ''id''),
                (''in'', JStr ''path''),
                (''required'', JBool True)]]),
          (''responses'', JObj
             [(''200'', JObj
                 [(''description'', JStr ''OK''),
                  (''schema'', JObj
                     [(''type'', JStr ''object''),
                      (''additionalProperties'', JObj [(''type'', JStr ''string'')])])])])])])"

definition up_doc_parts :: "string \<times> json" where
  "up_doc_parts =
    (''/api/v1/videos/{id}/multipart'',
    JObj
     [(''get'', JObj
         [(''description'', JStr ''Returns the in-progress upload parts for resume. upload_id is resolved server-side.''),
          (''produces'', JArr [JStr ''application/json'']),
          (''tags'', JArr [JStr ''upload'']),
          (''summary'', JStr ''List uploaded multipart parts''),
          (''parameters'', JArr
             [JObj
               [(''type'', JStr ''string''),
                (''description'', JStr ''Video ID''),
                (''name'', JStr ''id''),
                (''in'', JStr ''path''),
                (''required'', JBool True)]]),
          (''responses'', JObj
             [(''200'', JObj
                 [(''description'', JStr ''OK''),
                  (''schema'', JObj [(''$ref'', JStr ''#/definitions/internal_handler.multipartPartsResponse'')])])])])])"

definition up_doc_multipart_complete :: "string \<times> json" where
  "up_doc_multipart_complete =
    (''/api/v1/videos/{id}/multipart/complete'',
    JObj
     [(''post'', JObj
         [(''security'', JArr [JObj [(''BearerAuth'', JArr [])]]),
          (''description'', JStr ''Lists uploaded parts server-side, completes the multipart session and publishes video.uploaded. Idempotent until the session is gone.''),
          (''tags'', JArr [JStr ''upload'']),
          (''summary'', JStr ''Complete S3 multipart upload''),
          (''parameters'', JArr
             [JObj
               [(''type'', JStr ''string''),
                (''description'', JStr ''Video ID''),
                (''name'', JStr ''id''),
                (''in'', JStr ''path''),
                (''required'', JBool True)]]),
          (''responses'', JObj
             [(''200'', JObj
                 [(''description'', JStr ''OK''),
                  (''schema'', JObj
                     [(''type'', JStr ''object''),
                      (''additionalProperties'', JObj [(''type'', JStr ''string'')])])])])])])"

definition up_doc_presign_part :: "string \<times> json" where
  "up_doc_presign_part =
    (''/api/v1/videos/{id}/multipart/presign-part'',
    JObj
     [(''post'', JObj
         [(''security'', JArr [JObj [(''BearerAuth'', JArr [])]]),
          (''description'', JStr ''Returns a presigned PUT URL for one part; the browser uploads the chunk directly to MinIO.''),
          (''consumes'', JArr [JStr ''application/json'']),
          (''produces'', JArr [JStr ''application/json'']),
          (''tags'', JArr [JStr ''upload'']),
          (''summary'', JStr ''Presign a single multipart part''),
          (''parameters'', JArr
             [JObj
               [(''type'', JStr ''string''),
                (''description'', JStr ''Video ID''),
                (''name'', JStr ''id''),
                (''in'', JStr ''path''),
                (''required'', JBool True)],
              JObj
               [(''description'', JStr ''Part number''),
                (''name'', JStr ''body''),
                (''in'', JStr ''body''),
                (''required'', JBool True),
                (''schema'', JObj [(''$ref'', JStr ''#/definitions/internal_handler.presignPartRequest'')])]]),
          (''responses'', JObj
             [(''200'', JObj
                 [(''description'', JStr ''OK''),
                  (''schema'', JObj [(''$ref'', JStr ''#/definitions/internal_handler.presignPartResponse'')])])])])])"

definition up_doc_resumable :: "string \<times> json" where
  "up_doc_resumable =
    (''/api/v1/videos/{id}/resumable'',
    JObj
     [(''get'', JObj
         [(''description'', JStr ''Returns uploaded bytes for raw/{id}/original.mp4. Used for Content-Range resume.''),
          (''produces'', JArr [JStr ''application/json'']),
          (''tags'', JArr [JStr ''upload'']),
          (''summary'', JStr ''Get resumable upload offset''),
          (''parameters'', JArr
             [JObj
               [(''type'', JStr ''string''),
                (''description'', JStr ''Video ID''),
                (''name'', JStr ''id''),
                (''in'', JStr ''path''),
                (''required'', JBool True)]]),
          (''responses'', JObj
             [(''200'', JObj
                 [(''description'', JStr ''OK''),
                  (''schema'', JObj [(''$ref'', JStr ''#/definitions/internal_handler.statusResponse'')])])])]),
      (''put'', JObj
         [(''description'', JStr ''Accepts PUT with Content-Range: bytes start-end/total. Appends chunk to raw/{id}/original.mp4 on MinIO. Returns 308 Resume Incomplete until complete, 200 when done.''),
          (''tags'', JArr [JStr ''upload'']),
          (''summary'', JStr ''Resumable chunk upload via Content-Range''),
          (''parameters'', JArr
             [JObj
               [(''type'', JStr ''string''),
                (''description'', JStr ''Video ID''),
                (''name'', JStr ''id''),
                (''in'', JStr ''path''),
                (''required'', JBool True)],
              JObj
               [(''type'', JStr ''string''),
                (''description'', JStr ''bytes 0-999/5000''),
                (''name'', JStr ''Content-Range''),
                (''in'', JStr ''header''),
                (''required'', JBool True)]]),
          (''responses'', JObj
             [(''200'', JObj
                 [(''description'', JStr ''OK''),
                  (''schema'', JObj
                     [(''type'', JStr ''object''),
                      (''additionalProperties'', JObj [(''type'', JStr ''string'')])])]),
              (''308'', JObj
                 [(''description'', JStr ''Permanent Redirect''),
                  (''schema'', JObj
                     [(''type'', JStr ''object''),
                      (''additionalProperties'', JObj [(''type'', JStr ''string'')])])])])])])"

definition up_doc_multipart_models :: "(string \<times> json) list" where
  "up_doc_multipart_models =
    [(''flowix_upload_internal_storage.MultipartPart'', JObj
       [(''type'', JStr ''object''),
        (''properties'', JObj
           [(''etag'', JObj [(''type'', JStr ''string'')]),
            (''partNumber'', JObj [(''type'', JStr ''integer'')]),
            (''size'', JObj [(''type'', JStr ''integer''), (''format'', JStr ''int64'')])])]),
     (''internal_handler.multipartCreateResponse'', JObj
       [(''type'', JStr ''object''),
        (''properties'', JObj
           [(''chunk_size'', JObj [(''type'', JStr ''integer'')]),
            (''id'', JObj [(''type'', JStr ''string'')]),
            (''s3_key'', JObj [(''type'', JStr ''string'')]),
            (''upload_id'', JObj [(''type'', JStr ''string'')]),
            (''video_id'', JObj [(''type'', JStr ''string'')])])]),
     (''internal_handler.multipartPartsResponse'', JObj
       [(''type'', JStr ''object''),
        (''properties'', JObj
           [(''chunk_size'', JObj [(''type'', JStr ''integer'')]),
            (''parts'', JObj
               [(''type'', JStr ''array''),
                (''items'', JObj [(''$ref'', JStr ''#/definitions/flowix_upload_internal_storage.MultipartPart'')])]),
            (''upload_id'', JObj [(''type'', JStr ''string'')]),
            (''video_id'', JObj [(''type'', JStr ''string'')])])])]"

definition up_doc_presign_models :: "(string \<times> json) list" where
  "up_doc_presign_models =
    [(''internal_handler.presignPartRequest'', JObj
       [(''type'', JStr ''object''),
        (''properties'', JObj [(''part_number'', JObj [(''type'', JStr ''integer'')])])]),
     (''internal_handler.presignPartResponse'', JObj
       [(''type'', JStr ''object''),
        (''properties'', JObj
           [(''expires_in'', JObj [(''type'', JStr ''integer'')]),
            (''part_number'', JObj [(''type'', JStr ''integer'')]),
            (''url'', JObj [(''type'', JStr ''string'')])])]),
     (''internal_handler.presignRequest'', JObj
       [(''type'', JStr ''object''),
        (''properties'', JObj
           [(''content_type'', JObj [(''type'', JStr ''string'')]),
            (''description'', JObj [(''type'', JStr ''string'')]),
            (''filename'', JObj [(''type'', JStr ''string'')]),
            (''title'', JObj [(''type'', JStr ''string'')])])]),
     (''internal_handler.presignResponse'', JObj
       [(''type'', JStr ''object''),
        (''properties'', JObj
           [(''expires_in'', JObj [(''type'', JStr ''integer'')]),
            (''id'', JObj [(''type'', JStr ''string'')]),
            (''method'', JObj [(''type'', JStr ''string'')]),
            (''s3_key'', JObj [(''type'', JStr ''string'')]),
            (''url'', JObj [(''type'', JStr ''string'')]),
            (''video_id'', JObj [(''type'', JStr ''string'')])])]),
     (''internal_handler.statusResponse'', JObj
       [(''type'', JStr ''object''),
        (''properties'', JObj
           [(''total'', JObj [(''type'', JStr ''integer'')]),
            (''uploaded'', JObj [(''type'', JStr ''integer'')])])])]"

definition up_docTemplate :: "swag_spec \<Rightarrow> json" where
  "up_docTemplate S =
     JObj
      [(''schemes'', JArr (map JStr (sw_Schemes S))), (''swagger'', JStr ''2.0''),
       (''info'', JObj [(''description'', JStr (sw_Description S)), (''title'', JStr (sw_Title S)), (''contact'', JObj []),
          (''version'', JStr (sw_Version S))]),
       (''host'', JStr (sw_Host S)), (''basePath'', JStr (sw_BasePath S)),
       (''paths'', JObj [up_doc_multipart, up_doc_presign, up_doc_upload, up_doc_complete, up_doc_parts, up_doc_multipart_complete, up_doc_presign_part, up_doc_resumable]),
       (''definitions'', JObj (up_doc_multipart_models @ up_doc_presign_models)),
       (''securityDefinitions'', JObj
        [(''BearerAuth'', JObj
            [(''description'', JStr ''Type \"Bearer {token}\"''),
             (''type'', JStr ''apiKey''),
             (''name'', JStr ''Authorization''),
             (''in'', JStr ''header'')])])]"

definition up_SwaggerInfo :: swag_spec where
  "up_SwaggerInfo =
     \<lparr>sw_Version = ''1.0'', sw_Host = '''', sw_BasePath = ''/'', sw_Schemes = [],
      sw_Title = ''Flowix Upload API'',
      sw_Description =
        ''Upload video to MinIO + publish video.uploaded event. JWT required.'',
      sw_InstanceName = ''swagger''\<rparr>"

definition up_doc_json :: json where
  "up_doc_json = up_docTemplate up_SwaggerInfo"

subsection \<open>What they document\<close>

text \<open>Method and path of every documented operation, and whether it asks for credentials.\<close>

definition item_ops :: "string \<times> json \<Rightarrow> (string \<times> string \<times> bool) list" where
  "item_ops kv =
     (case as_map (snd kv) of None \<Rightarrow> []
      | Some ops \<Rightarrow> map (\<lambda>(meth, op). (map upper_char meth, fst kv,
          case as_map op of Some m \<Rightarrow> map_of m ''security'' \<noteq> None | None \<Rightarrow> False)) ops)"

definition listed_ops :: "json \<Rightarrow> (string \<times> string \<times> bool) list" where
  "listed_ops j =
     (case as_map j of None \<Rightarrow> []
      | Some m \<Rightarrow> (case member_map m ''paths'' of None \<Rightarrow> [] | Some ps \<Rightarrow> concat (map item_ops ps)))"

definition documented :: "json \<Rightarrow> (string \<times> string) set" where
  "documented j = (\<lambda>(m, p, s). (m, p)) ` set (listed_ops j)"

definition documented_open :: "json \<Rightarrow> (string \<times> string) set" where
  "documented_open j = (\<lambda>(m, p, s). (m, p)) ` set (filter (\<lambda>(m, p, s). \<not> s) (listed_ops j))"

lemma md_listed_ops:
  "listed_ops md_doc_json =
     [(''GET'', ''/api/v1/videos'', False), (''POST'', ''/api/v1/videos'', True),
      (''GET'', ''/api/v1/videos/{id}'', False), (''DELETE'', ''/api/v1/videos/{id}'', True),
      (''PATCH'', ''/api/v1/videos/{id}'', True), (''GET'', ''/internal/videos/{id}'', False),
      (''PATCH'', ''/internal/videos/{id}/status'', False)]"
  by code_simp

lemma up_listed_ops:
  "listed_ops up_doc_json =
     [(''POST'', ''/api/v1/videos/multipart'', True), (''POST'', ''/api/v1/videos/presign'', True),
      (''POST'', ''/api/v1/videos/upload'', True), (''POST'', ''/api/v1/videos/{id}/complete'', True),
      (''GET'', ''/api/v1/videos/{id}/multipart'', False),
      (''POST'', ''/api/v1/videos/{id}/multipart/complete'', True),
      (''POST'', ''/api/v1/videos/{id}/multipart/presign-part'', True),
      (''GET'', ''/api/v1/videos/{id}/resumable'', False), (''PUT'', ''/api/v1/videos/{id}/resumable'', False)]"
  by code_simp

subsection \<open>Properties\<close>


end
