(* ===== verification/Spec2Isabelle.thy ===== *)
theory Spec2Isabelle
  imports Pkg_Server Gw_Cors Gw_RateLimit Gw_Proxy Gw_HlsAuth Gw_Docs Gw_Main Md_Handler Md_Main Up_Main Up_Server Flowix_Site Api_Docs
begin

text \<open>
  Flowix, the Go services of a video hosting site: a model of their code and the theorems that make
  it correct.

  \<^bold>\<open>The program.\<close> Four Go modules, under \<open>src/\<close>. The gateway (\<open>services/gateway\<close>) is the only service
  that clients reach: it finds the client's address, applies CORS and a rate limit, checks access
  tokens, and proxies to the services behind it; in front of the video segments it has a gate for
  private videos; it also merges the API documents of the services. The metadata service
  (\<open>services/metadata\<close>) owns the table of videos. The upload service (\<open>services/upload\<close>) stores the
  files, directly, by presigned URLs, in parts or resumed in chunks, asks the metadata service who
  owns a video, and announces a completed upload to RabbitMQ; its reconciler looks for uploads whose
  announcement was lost. The package \<open>pkg\<close> is shared: JSON answers, JWT middlewares, the request log,
  the HTTP server. Authentication and transcoding are services in Python, outside this model.

  \<^bold>\<open>How the code is translated.\<close> A Go struct is a record, an enumeration a datatype, a string a list
  of bytes, an \<open>error\<close> a \<open>go_error\<close> in a sum. A handler takes the request, the response headers set so
  far and a world, and returns the response and the new world; a middleware maps handlers to
  handlers. An interface of the code is a record of functions over its world. Go's \<open>int\<close> is \<open>int\<close>
  with the range checks of \<open>strconv\<close>; where arithmetic can overflow it wraps around
  (\<open>wrap64\<close>, \<open>wrap32\<close>), and the statements say which offsets they are for. What the code takes from
  outside the repository is a parameter: the router chi (\<open>chi_docs\<close>: it picks a route of the table
  that matches, and none only when none matches), golang-jwt (\<open>jwt\<close>), the Redis commands
  (\<open>redis_counts\<close>), the MinIO clients (\<open>s3_docs\<close>, \<open>s3_works\<close>, \<open>lists_parts\<close>), the AMQP library
  (\<open>amqp_docs\<close>, \<open>broker_up\<close>), faults of PostgreSQL, clock and random ids, \<open>net/url\<close>, HTTP round trips,
  the log sink. A statement that needs more of a parameter than its type names the documented
  behaviour as a hypothesis, and its witness gives a concrete parameter that has it.

  \<^bold>\<open>The theories.\<close>
  \<^item> \<open>Flowix_Prelude\<close>: \<open>strings\<close>, \<open>strconv\<close>, JSON values, maps whose length is read.
    \<open>Flowix_Http\<close>: headers, requests, responses, handlers; \<open>pkg/httputil/json.go\<close>. \<open>Go_Net\<close>: parsing
    and printing of IP addresses and networks.
  \<^item> \<open>Pkg_Auth\<close>: \<open>pkg/middleware/auth.go\<close>; both middlewares are described by one function,
    \<open>access_identity\<close>. \<open>Pkg_Server\<close>: \<open>pkg/middleware/logger.go\<close>, \<open>pkg/httpserver/server.go\<close>,
    \<open>pkg/logger/logger.go\<close>, \<open>pkg/metrics/metrics.go\<close>. \<open>Chi_Router\<close>: route tables and the hypothesis
    on the router.
  \<^item> The gateway: \<open>Gw_ClientIP\<close>, \<open>Gw_Cors\<close>, \<open>Gw_RateLimit\<close>, \<open>Gw_MetaCache\<close> and \<open>Gw_HlsAuth\<close> for the files
    \<open>clientip.go\<close>, \<open>cors.go\<close>, \<open>ratelimit.go\<close>, \<open>hlsauth.go\<close> of \<open>internal/middleware\<close>; \<open>Gw_Proxy\<close> for
    \<open>internal/proxy/proxy.go\<close>; \<open>Gw_Docs\<close> for \<open>internal/handler/docs.go\<close>; \<open>Gw_Main\<close> for
    \<open>cmd/server/main.go\<close>: settings, chain, all routes.
  \<^item> The metadata service: \<open>Md_Model\<close> (\<open>internal/model\<close>), \<open>Md_Repo\<close> (\<open>internal/repository\<close>, the SQL
    statements as operations on tables), \<open>Md_Storage\<close> (\<open>internal/storage\<close>), \<open>Md_Handler\<close>
    (\<open>internal/handler\<close>, \<open>internal/middleware\<close>), \<open>Md_Main\<close> (\<open>cmd/server/main.go\<close>).
  \<^item> The upload service: \<open>Up_Client\<close> (\<open>internal/client\<close>), \<open>Up_Storage\<close> (\<open>internal/storage\<close>),
    \<open>Up_Publisher\<close> (\<open>internal/queue\<close>), \<open>Up_Handler\<close> and \<open>Up_Resumable\<close> (\<open>internal/handler\<close>),
    \<open>Up_Reconciler\<close> (\<open>internal/reconciler\<close>), \<open>Up_Main\<close> and \<open>Up_Server\<close> (\<open>cmd/server/main.go\<close>).
    \<open>Up_Service\<close> states what the handlers rely on.
  \<^item> Across services: \<open>Flowix_Site\<close> connects the gateway to the metadata service; \<open>Api_Docs\<close> holds the
    generated API documents (\<open>docs/docs.go\<close> of both services) as JSON values and compares them with the
    route tables.

  \<^bold>\<open>The interfaces.\<close> Wherever one part uses another through an interface, its laws are a locale and the
  client's lemmas are proved in it: \<open>meta_cache\<close> (the cache behind the gate), \<open>video_store\<close> and
  \<open>video_handler\<close> (the store behind the metadata handlers), \<open>ownership_checker\<close>, \<open>object_store\<close>,
  \<open>working_store\<close>, \<open>event_publisher\<close>, \<open>upload_service\<close>, \<open>working_service\<close> (what the upload handlers are
  given) and \<open>reconciler_deps\<close>. The first three are interpreted by the pointer structure of
  \<open>hlsauth.go\<close> and by the PostgreSQL repository, the checker by the HTTP client of the upload service.
  The laws of the store and the publisher depend on what the libraries do, so \<open>Up_Main\<close> proves that the
  code's own clients satisfy them whenever the libraries behave as documented (\<open>service_store\<close>,
  \<open>service_publisher\<close>, \<open>service_ok\<close>, \<open>service_works\<close>, \<open>reconciler_ok\<close>), and interprets them over
  libraries that work in memory.

  \<^bold>\<open>What is shown.\<close>
  \<^item> Who may do what: the exact condition of the gate and what its tokens are good for (C1, C29, and
    C33 for a path the gate and the video server read differently); the routes of the metadata service
    (C5, C11, C16, C17); the routes of the upload service (C6, C7); a private video on the way through
    gateway and metadata service (C8); what an upstream is told about the identity, and that internal
    paths are out of reach (C9, C18).
  \<^item> What is kept: the tables (C2, C15, C20), the cache (C4, C25), the connections of the publisher
    (C34) and the running upload service as a whole, by induction on its steps (C10).
  \<^item> What is delivered: resumed uploads (C12, C13, C37), the listing of parts (C38), events (C19, C35,
    C36), the reconciler (C14, C40), the ownership check under failures (C39).
  \<^item> The edge: client addresses (C26, C27, C28), the rate limit (C3), CORS (C31), proxy errors (C32), the
    age of cached answers (C30), the request id (C21), the documents (C22, C23, C24).

  C33, C36, C39 and C40 show defects of the code; C27 and C28 say that a spoofed header does not
  work.

  \<^bold>\<open>Bounds.\<close> No definition has fuel of its own. The loop of \<open>ListParts\<close> ends with the request's context,
  which is modelled as a number \<open>live\<close> of calls; ten are enough (C38), since a session has at most 10,000
  parts and a page 1,000. The reconciler's endless loop is modelled for a finite number of ticks. All
  other loops are structural recursion, or \<open>function\<close> with a termination proof. The invariant C10 is
  over any number of steps.

  \<^bold>\<open>Not modelled.\<close> The auth service and the transcoder (Python), the web client (TypeScript), the
  containers and their configuration; the constraints of the database schema are part of \<open>Md_Repo\<close>. Of
  the Go services: panics and chi's \<open>Recoverer\<close>; concurrency inside one request (requests, passes of
  the reconciler and lost connections interleave as whole steps; for the cache of the gate C30 covers
  lookups that overlap); paths with percent-encoded bytes, where chi routes on the raw path; the closing
  of a connection by \<open>MaxBytesReader\<close>; streaming, so a body is a value; bytes beyond ASCII in letter
  case and white space; the escapes of the JSON encoder, since an answer is a JSON value; what is
  written to the log besides the line of each request.
\<close>

end
